(* ===== verification/Hamlet_Prelude.thy ===== *)
theory Hamlet_Prelude
  imports Main "HOL-Library.Word"
begin

text \<open>
  Shared vocabulary of the development: Rust's \<^verbatim>\<open>Result<T, String>\<close> as a sum, the
  fixed-width integers, the functions of \<^verbatim>\<open>std::str\<close>, \<^verbatim>\<open>std::num\<close>,
  \<^verbatim>\<open>std::path\<close> and \<^verbatim>\<open>std::collections::HashMap\<close> the program calls, and the
  generic lemmas the components share. A \<^verbatim>\<open>String\<close> is a list of 8-bit characters
  (its UTF-8 bytes); \<open>trim\<close> and the case-insensitive comparison act on ASCII, which is
  where the configuration values live.
\<close>

section \<open>Lemma collections\<close>

named_theorems rust_str \<open>characterisations of the string functions\<close>
named_theorems hmap_laws \<open>lookup laws of the association-list hash map\<close>
named_theorems split_rules \<open>case splits of the model's result types\<close>

section \<open>Types\<close>

type_synonym u8 = "8 word"
type_synonym u16 = "16 word"
type_synonym u32 = "32 word"
type_synonym u64 = "64 word"
type_synonym bytes = "u8 list"
type_synonym 'a result = "string + 'a"

abbreviation Ok :: "'a \<Rightarrow> 'e + 'a" where "Ok \<equiv> Inr"
abbreviation Err :: "'e \<Rightarrow> 'e + 'a" where "Err \<equiv> Inl"

definition is_ok :: "'e + 'a \<Rightarrow> bool" where
  "is_ok r = (case r of Ok _ \<Rightarrow> True | Err _ \<Rightarrow> False)"

lemma is_ok_simps [simp]: "is_ok (Ok x)" "\<not> is_ok (Err e)"
  by (simp_all add: is_ok_def)

lemma is_ok_iff: "is_ok r \<longleftrightarrow> (\<exists>x. r = Ok x)"
  by (cases r) auto

declare sum.splits [split_rules] option.splits [split_rules] if_splits [split_rules]
  prod.splits [split_rules]

text \<open>A 64-bit signed addition in a release build wraps.\<close>

definition wrap_i64 :: "int \<Rightarrow> int" where
  "wrap_i64 x = (x + 2 ^ 63) mod 2 ^ 64 - 2 ^ 63"

lemma wrap_i64_id: "- (2 ^ 63) \<le> x \<Longrightarrow> x < 2 ^ 63 \<Longrightarrow> wrap_i64 x = x"
  by (simp add: wrap_i64_def)

lemma wrap_i64_range: "- (2 ^ 63) \<le> wrap_i64 x" "wrap_i64 x < 2 ^ 63"
  using pos_mod_bound [of "2 ^ 64" "x + 2 ^ 63"] pos_mod_sign [of "2 ^ 64" "x + 2 ^ 63"]
  by (simp_all add: wrap_i64_def)

section \<open>Strings\<close>

subsection \<open>Prefixes and suffixes\<close>

fun strip_prefix :: "'a list \<Rightarrow> 'a list \<Rightarrow> 'a list option" where
  "strip_prefix s [] = Some s"
| "strip_prefix [] (p # ps) = None"
| "strip_prefix (c # cs) (p # ps) = (if c = p then strip_prefix cs ps else None)"

definition strip_suffix :: "'a list \<Rightarrow> 'a list \<Rightarrow> 'a list option" where
  "strip_suffix s p = map_option rev (strip_prefix (rev s) (rev p))"

definition starts_with :: "'a list \<Rightarrow> 'a list \<Rightarrow> bool" where
  "starts_with s p \<longleftrightarrow> strip_prefix s p \<noteq> None"

definition ends_with :: "'a list \<Rightarrow> 'a list \<Rightarrow> bool" where
  "ends_with s p \<longleftrightarrow> strip_suffix s p \<noteq> None"

lemma strip_prefix_Some [rust_str]: "strip_prefix s p = Some r \<longleftrightarrow> s = p @ r"
  by (induction s p rule: strip_prefix.induct) auto

lemma strip_prefix_append [simp]: "strip_prefix (p @ r) p = Some r"
  by (simp add: strip_prefix_Some)

lemma strip_suffix_Some [rust_str]: "strip_suffix s p = Some r \<longleftrightarrow> s = r @ p"
proof -
  have "strip_suffix s p = Some r \<longleftrightarrow> strip_prefix (rev s) (rev p) = Some (rev r)"
    by (auto simp: strip_suffix_def)
  also have "\<dots> \<longleftrightarrow> rev s = rev (r @ p)"
    by (simp add: strip_prefix_Some)
  finally show ?thesis by (metis rev_rev_ident)
qed

lemma strip_suffix_append [simp]: "strip_suffix (r @ p) p = Some r"
  by (simp add: strip_suffix_Some)

lemma starts_with_iff [rust_str]: "starts_with s p \<longleftrightarrow> (\<exists>r. s = p @ r)"
  by (auto simp: starts_with_def strip_prefix_Some)

lemma ends_with_iff [rust_str]: "ends_with s p \<longleftrightarrow> (\<exists>r. s = r @ p)"
  by (auto simp: ends_with_def strip_suffix_Some)

subsection \<open>Searching and splitting\<close>

text \<open>\<^verbatim>\<open>trim_end_matches(c)\<close>, \<^verbatim>\<open>trim()\<close>, \<^verbatim>\<open>split(c)\<close>, \<^verbatim>\<open>split_once(p)\<close>,
  \<^verbatim>\<open>rsplit_once(c)\<close> and the two halves of \<^verbatim>\<open>find(c)\<close>.\<close>

definition trim_end_matches :: "char \<Rightarrow> string \<Rightarrow> string" where
  "trim_end_matches c s = rev (dropWhile (\<lambda>x. x = c) (rev s))"

definition is_ascii_ws :: "char \<Rightarrow> bool" where
  "is_ascii_ws c \<longleftrightarrow> c \<in> {CHR '' '', CHR 0x09, CHR 0x0A, CHR 0x0B, CHR 0x0C, CHR 0x0D}"

definition trim :: "string \<Rightarrow> string" where
  "trim s = rev (dropWhile is_ascii_ws (rev (dropWhile is_ascii_ws s)))"

fun split_char :: "char \<Rightarrow> string \<Rightarrow> string list" where
  "split_char c [] = [[]]"
| "split_char c (x # xs) =
     (if x = c then [] # split_char c xs
      else (case split_char c xs of [] \<Rightarrow> [[x]] | w # ws \<Rightarrow> (x # w) # ws))"

fun split_once :: "string \<Rightarrow> string \<Rightarrow> (string \<times> string) option" where
  "split_once p [] = (if p = [] then Some ([], []) else None)"
| "split_once p (c # cs) =
     (case strip_prefix (c # cs) p of
        Some r \<Rightarrow> Some ([], r)
      | None \<Rightarrow> map_option (\<lambda>(a, b). (c # a, b)) (split_once p cs))"

definition find_split :: "char \<Rightarrow> string \<Rightarrow> (string \<times> string) option" where
  "find_split c s =
     (if c \<in> set s then Some (takeWhile (\<lambda>x. x \<noteq> c) s, dropWhile (\<lambda>x. x \<noteq> c) s) else None)"

definition rsplit_once :: "char \<Rightarrow> string \<Rightarrow> (string \<times> string) option" where
  "rsplit_once c s =
     (if c \<in> set s
      then Some (rev (tl (dropWhile (\<lambda>x. x \<noteq> c) (rev s))), rev (takeWhile (\<lambda>x. x \<noteq> c) (rev s)))
      else None)"

lemma trim_end_matches_idle [simp]:
  "trim_end_matches c (s @ [x]) = (if x = c then trim_end_matches c s else s @ [x])"
  by (simp add: trim_end_matches_def)

lemma trim_end_matches_Nil [simp]: "trim_end_matches c [] = []"
  by (simp add: trim_end_matches_def)

lemma trim_end_matches_no_end: "trim_end_matches c s \<noteq> t @ [c]"
  by (induction s rule: rev_induct) auto

lemma trim_end_matches_fix: "s = [] \<or> last s \<noteq> c \<Longrightarrow> trim_end_matches c s = s"
  by (cases s rule: rev_cases) auto

lemma trim_end_matches_prefix: "\<exists>n. s = trim_end_matches c s @ replicate n c"
proof (induction s rule: rev_induct)
  case Nil
  then show ?case by simp
next
  case (snoc x xs)
  then obtain n where n: "xs = trim_end_matches c xs @ replicate n c" by blast
  show ?case
  proof (cases "x = c")
    case True
    have "xs @ [x] = trim_end_matches c xs @ replicate (Suc n) c"
      using n True by (metis append.assoc replicate_Suc replicate_append_same)
    with True show ?thesis by (metis trim_end_matches_idle)
  next
    case False
    then show ?thesis by (intro exI [of _ 0]) simp
  qed
qed

lemma split_char_nonempty [simp]: "split_char c s \<noteq> []"
  by (cases s) (auto split: list.splits)

lemma split_char_no_sep: "w \<in> set (split_char c s) \<Longrightarrow> c \<notin> set w"
proof (induction s arbitrary: w)
  case Nil
  then show ?case by simp
next
  case (Cons x xs)
  then show ?case by (auto split: if_splits list.splits)
qed

lemma split_char_append: "c \<notin> set a \<Longrightarrow> split_char c (a @ c # b) = a # split_char c b"
  by (induction a) auto

lemma split_char_no_occ: "c \<notin> set a \<Longrightarrow> split_char c a = [a]"
  by (induction a) auto

text \<open>A text of terminated lines, and a list joined by a separator.\<close>

lemma split_char_lines:
  "\<forall>l\<in>set ls. c \<notin> set l \<Longrightarrow> split_char c (concat (map (\<lambda>l. l @ [c]) ls)) = ls @ [[]]"
  by (induction ls) (auto simp: split_char_append)

fun join_with :: "char \<Rightarrow> string list \<Rightarrow> string" where
  "join_with c [] = []"
| "join_with c [w] = w"
| "join_with c (w # ws) = w @ c # join_with c ws"

lemma split_char_join:
  "ws \<noteq> [] \<Longrightarrow> \<forall>w\<in>set ws. c \<notin> set w \<Longrightarrow> split_char c (join_with c ws) = ws"
  by (induction c ws rule: join_with.induct) (auto simp: split_char_append split_char_no_occ)

lemma split_once_Some: "split_once p s = Some (a, b) \<Longrightarrow> s = a @ p @ b"
proof (induction p s arbitrary: a b rule: split_once.induct)
  case (1 p)
  then show ?case by (auto split: if_splits)
next
  case (2 p c cs)
  then show ?case by (auto simp: strip_prefix_Some split: option.splits)
qed

lemma split_once_here: "p \<noteq> [] \<Longrightarrow> split_once p (p @ r) = Some ([], r)"
  by (cases p) auto

lemma find_split_Some:
  "find_split c s = Some (a, b) \<longleftrightarrow> s = a @ b \<and> c \<notin> set a \<and> (\<exists>t. b = c # t)"
proof
  assume "find_split c s = Some (a, b)"
  then have "c \<in> set s" "a = takeWhile (\<lambda>x. x \<noteq> c) s" "b = dropWhile (\<lambda>x. x \<noteq> c) s"
    by (auto simp: find_split_def split: if_splits)
  moreover from this have "b \<noteq> []" by (simp add: dropWhile_eq_Nil_conv)
  moreover from this have "hd b = c"
    using hd_dropWhile [of "\<lambda>x. x \<noteq> c" s] \<open>b = _\<close> by simp
  ultimately show "s = a @ b \<and> c \<notin> set a \<and> (\<exists>t. b = c # t)"
    by (metis (mono_tags, lifting) list.exhaust_sel set_takeWhileD takeWhile_dropWhile_id)
next
  assume "s = a @ b \<and> c \<notin> set a \<and> (\<exists>t. b = c # t)"
  then obtain t where "s = a @ c # t" "b = c # t" "c \<notin> set a" by blast
  moreover from this have "\<forall>x\<in>set a. x \<noteq> c" by auto
  ultimately show "find_split c s = Some (a, b)"
    by (simp add: find_split_def takeWhile_append2 dropWhile_append2)
qed

lemma find_split_None: "find_split c s = None \<longleftrightarrow> c \<notin> set s"
  by (simp add: find_split_def)

lemma rsplit_once_Some:
  "rsplit_once c s = Some (a, b) \<longleftrightarrow> s = a @ c # b \<and> c \<notin> set b"
proof
  assume *: "rsplit_once c s = Some (a, b)"
  let ?r = "rev s" and ?P = "\<lambda>x. x \<noteq> c"
  from * have c: "c \<in> set s" and a: "a = rev (tl (dropWhile ?P ?r))" and b: "b = rev (takeWhile ?P ?r)"
    by (auto simp: rsplit_once_def split: if_splits)
  from c have ne: "dropWhile ?P ?r \<noteq> []" by (simp add: dropWhile_eq_Nil_conv)
  then have "hd (dropWhile ?P ?r) = c" using hd_dropWhile [of ?P ?r] by simp
  with ne have "dropWhile ?P ?r = c # rev a" by (metis a list.collapse rev_rev_ident)
  moreover have "rev b @ dropWhile ?P ?r = ?r" by (simp add: b)
  ultimately have "rev s = rev (a @ c # b)" by simp
  then have "s = a @ c # b" by (metis rev_rev_ident)
  moreover have "c \<notin> set b" using b by (auto dest: set_takeWhileD)
  ultimately show "s = a @ c # b \<and> c \<notin> set b" by blast
next
  assume *: "s = a @ c # b \<and> c \<notin> set b"
  then have ne: "\<And>x. x \<in> set (rev b) \<Longrightarrow> x \<noteq> c" by auto
  have "takeWhile (\<lambda>x. x \<noteq> c) (rev b @ c # rev a) = rev b"
    using takeWhile_append2 [of "rev b" "\<lambda>x. x \<noteq> c", OF ne] by simp
  moreover have "dropWhile (\<lambda>x. x \<noteq> c) (rev b @ c # rev a) = c # rev a"
    using dropWhile_append2 [of "rev b" "\<lambda>x. x \<noteq> c", OF ne] by simp
  ultimately show "rsplit_once c s = Some (a, b)"
    using * by (auto simp: rsplit_once_def)
qed

lemma rsplit_once_None: "rsplit_once c s = None \<longleftrightarrow> c \<notin> set s"
  by (simp add: rsplit_once_def)

subsection \<open>Comparison, numbers\<close>

definition to_ascii_lower :: "char \<Rightarrow> char" where
  "to_ascii_lower c =
     (let n = of_char c :: nat in if 65 \<le> n \<and> n \<le> 90 then char_of (n + 32) else c)"

definition eq_ignore_ascii_case :: "string \<Rightarrow> string \<Rightarrow> bool" where
  "eq_ignore_ascii_case a b \<longleftrightarrow> map to_ascii_lower a = map to_ascii_lower b"

definition digit_char :: "nat \<Rightarrow> char" where
  "digit_char d = char_of (48 + d)"

definition char_digit :: "char \<Rightarrow> nat option" where
  "char_digit c = (let n = of_char c :: nat in if 48 \<le> n \<and> n \<le> 57 then Some (n - 48) else None)"

fun show_nat :: "nat \<Rightarrow> string" where
  "show_nat n = (if n < 10 then [digit_char n] else show_nat (n div 10) @ [digit_char (n mod 10)])"

declare show_nat.simps [simp del]

fun digits_value :: "nat \<Rightarrow> string \<Rightarrow> nat option" where
  "digits_value acc [] = Some acc"
| "digits_value acc (c # cs) =
     (case char_digit c of None \<Rightarrow> None | Some d \<Rightarrow> digits_value (10 * acc + d) cs)"

text \<open>\<^verbatim>\<open>str::parse::<uN>()\<close>: an optional plus sign, at least one digit, a value in range.\<close>

definition parse_uint :: "nat \<Rightarrow> string \<Rightarrow> nat option" where
  "parse_uint bound s =
     (let ds = (case s of c # cs \<Rightarrow> if c = CHR ''+'' then cs else s | [] \<Rightarrow> [])
      in if ds = [] then None
         else (case digits_value 0 ds of
                 Some n \<Rightarrow> if n < bound then Some n else None
               | None \<Rightarrow> None))"

definition parse_u16 :: "string \<Rightarrow> u16 option" where
  "parse_u16 s = map_option of_nat (parse_uint (2 ^ 16) s)"

definition parse_u32 :: "string \<Rightarrow> u32 option" where
  "parse_u32 s = map_option of_nat (parse_uint (2 ^ 32) s)"

definition show_u16 :: "u16 \<Rightarrow> string" where
  "show_u16 p = show_nat (unat p)"

lemma char_digit_digit_char [simp]: "d < 10 \<Longrightarrow> char_digit (digit_char d) = Some d"
  by (simp add: char_digit_def digit_char_def)

text \<open>The ten digits, for the evaluation of concrete numbers.\<close>

lemma digit_char_eval:
  "digit_char 0 = CHR ''0''" "digit_char (Suc 0) = CHR ''1''" "digit_char 2 = CHR ''2''"
  "digit_char 3 = CHR ''3''" "digit_char 4 = CHR ''4''" "digit_char 5 = CHR ''5''"
  "digit_char 6 = CHR ''6''" "digit_char 7 = CHR ''7''" "digit_char 8 = CHR ''8''"
  "digit_char 9 = CHR ''9''"
  by (simp_all add: digit_char_def char_of_def bit_0)

lemma digit_char_neq:
  "d < 10 \<Longrightarrow> digit_char d \<noteq> CHR ''+''" "d < 10 \<Longrightarrow> digit_char d \<noteq> CHR '':''"
  "d < 10 \<Longrightarrow> digit_char d \<noteq> CHR ''/''" "d < 10 \<Longrightarrow> digit_char d \<noteq> CHR 0x0A"
proof -
  have "\<And>c. digit_char d = c \<Longrightarrow> d < 10 \<Longrightarrow> (of_char c :: nat) = 48 + d"
    by (auto simp: digit_char_def)
  then show "d < 10 \<Longrightarrow> digit_char d \<noteq> CHR ''+''" "d < 10 \<Longrightarrow> digit_char d \<noteq> CHR '':''"
    "d < 10 \<Longrightarrow> digit_char d \<noteq> CHR ''/''" "d < 10 \<Longrightarrow> digit_char d \<noteq> CHR 0x0A"
    by fastforce+
qed

lemma digits_value_append:
  "digits_value acc (xs @ ys) =
     (case digits_value acc xs of None \<Rightarrow> None | Some v \<Rightarrow> digits_value v ys)"
  by (induction acc xs rule: digits_value.induct) (auto split: option.splits)

lemma show_nat_nonempty [simp]: "show_nat n \<noteq> []"
  by (subst show_nat.simps) simp

lemma show_nat_digits: "c \<in> set (show_nat n) \<Longrightarrow> \<exists>d<10. c = digit_char d"
proof (induction n rule: show_nat.induct)
  case (1 n)
  show ?case
  proof (cases "n < 10")
    case True
    with 1(2) show ?thesis by (subst (asm) show_nat.simps) auto
  next
    case False
    with 1(2) have "c \<in> set (show_nat (n div 10)) \<or> c = digit_char (n mod 10)"
      by (subst (asm) show_nat.simps) auto
    moreover have "n mod 10 < 10" by simp
    ultimately show ?thesis using False 1(1) by blast
  qed
qed

lemma digits_value_show_nat: "digits_value 0 (show_nat n) = Some n"
proof (induction n rule: show_nat.induct)
  case (1 n)
  show ?case
  proof (cases "n < 10")
    case True
    then show ?thesis by (subst show_nat.simps) simp
  next
    case False
    with 1 show ?thesis by (subst show_nat.simps) (simp add: digits_value_append)
  qed
qed

lemma show_nat_not:
  "CHR ''+'' \<notin> set (show_nat n)" "CHR '':'' \<notin> set (show_nat n)"
  "CHR ''/'' \<notin> set (show_nat n)" "CHR 0x0A \<notin> set (show_nat n)"
  using show_nat_digits digit_char_neq by metis+

lemma parse_uint_digits:
  "s \<noteq> [] \<Longrightarrow> CHR ''+'' \<notin> set s \<Longrightarrow> digits_value 0 s = Some n \<Longrightarrow> n < b \<Longrightarrow>
   parse_uint b s = Some n"
  by (cases s) (auto simp: parse_uint_def)

lemma parse_uint_show_nat: "n < b \<Longrightarrow> parse_uint b (show_nat n) = Some n"
  by (simp add: parse_uint_digits show_nat_not digits_value_show_nat)

lemma parse_uint_bound: "parse_uint b s = Some n \<Longrightarrow> n < b"
  by (auto simp: parse_uint_def Let_def split: list.splits option.splits if_splits)

lemma parse_u16_show_u16 [simp]: "parse_u16 (show_u16 p) = Some p"
proof -
  have "unat p < 2 ^ LENGTH(16)" by (rule unsigned_less)
  then have "unat p < 2 ^ 16" by simp
  then show ?thesis
    by (simp add: parse_u16_def show_u16_def parse_uint_show_nat del: One_nat_def)
qed

lemma show_u16_not:
  "CHR '':'' \<notin> set (show_u16 p)" "CHR ''/'' \<notin> set (show_u16 p)" "CHR 0x0A \<notin> set (show_u16 p)"
  by (simp_all add: show_u16_def show_nat_not)

subsection \<open>Lowercase hexadecimal\<close>

definition hex_digit :: "nat \<Rightarrow> char" where
  "hex_digit d = (if d < 10 then char_of (48 + d) else char_of (87 + d))"

definition hex_value :: "char \<Rightarrow> nat option" where
  "hex_value c =
     (let n = of_char c :: nat
      in if 48 \<le> n \<and> n \<le> 57 then Some (n - 48)
         else if 97 \<le> n \<and> n \<le> 102 then Some (n - 87) else None)"

lemma hex_value_hex_digit [simp]: "d < 16 \<Longrightarrow> hex_value (hex_digit d) = Some d"
  by (auto simp: hex_value_def hex_digit_def)

text \<open>\<^verbatim>\<open>format!("{:02x}", b)\<close> on a byte.\<close>

definition show_hex_byte :: "u8 \<Rightarrow> string" where
  "show_hex_byte b = [hex_digit (unat b div 16), hex_digit (unat b mod 16)]"

section \<open>Paths\<close>

text \<open>
  \<^verbatim>\<open>PathBuf\<close> on Unix as the path's text: \<open>path_join\<close> is \<^verbatim>\<open>Path::join\<close> (an absolute
  argument replaces the receiver), \<open>path_parent\<close> is \<^verbatim>\<open>Path::parent\<close>, which ignores
  trailing separators and trailing current-directory components.
\<close>

definition path_is_absolute :: "string \<Rightarrow> bool" where
  "path_is_absolute p \<longleftrightarrow> (case p of c # _ \<Rightarrow> c = CHR ''/'' | [] \<Rightarrow> False)"

definition path_join :: "string \<Rightarrow> string \<Rightarrow> string" where
  "path_join a b =
     (if path_is_absolute b then b
      else if a = [] \<or> last a = CHR ''/'' then a @ b
      else a @ CHR ''/'' # b)"

fun path_rtrim :: "string \<Rightarrow> string" where
  "path_rtrim (c # cs) =
     (if c = CHR ''/'' then path_rtrim cs
      else (case cs of
              d # ds \<Rightarrow> if c = CHR ''.'' \<and> d = CHR ''/'' then path_rtrim ds else c # cs
            | [] \<Rightarrow> c # cs))"
| "path_rtrim [] = []"

definition path_parent :: "string \<Rightarrow> string option" where
  "path_parent p =
     (let q = path_rtrim (rev p)
      in if q = [] then None
         else let r = dropWhile (\<lambda>c. c \<noteq> CHR ''/'') q
              in if r = [] then Some []
                 else let r' = path_rtrim r in if r' = [] then Some ''/'' else Some (rev r'))"

lemma path_join_absolute: "path_is_absolute b \<Longrightarrow> path_join a b = b"
  by (simp add: path_join_def)

section \<open>Hash maps\<close>

text \<open>
  A \<^verbatim>\<open>HashMap\<close> whose iteration order the code observes is an association list with
  distinct keys; the order of the list is the (unspecified) iteration order. \<open>hm_get\<close>,
  \<open>hm_insert\<close>, \<open>hm_remove\<close> and \<open>hm_adjust\<close> are \<^verbatim>\<open>get\<close>, \<^verbatim>\<open>insert\<close>, \<^verbatim>\<open>remove\<close> and
  an update through \<^verbatim>\<open>get_mut\<close>. Maps that are only looked up are \<open>'k \<rightharpoonup> 'v\<close>.
\<close>

type_synonym ('k, 'v) hmap = "('k \<times> 'v) list"

abbreviation hm_get :: "('k, 'v) hmap \<Rightarrow> 'k \<Rightarrow> 'v option" where
  "hm_get m k \<equiv> map_of m k"

fun hm_insert :: "'k \<Rightarrow> 'v \<Rightarrow> ('k, 'v) hmap \<Rightarrow> ('k, 'v) hmap" where
  "hm_insert k v [] = [(k, v)]"
| "hm_insert k v (p # ps) = (if fst p = k then (k, v) # ps else p # hm_insert k v ps)"

definition hm_remove :: "'k \<Rightarrow> ('k, 'v) hmap \<Rightarrow> ('k, 'v) hmap" where
  "hm_remove k m = filter (\<lambda>p. fst p \<noteq> k) m"

definition hm_adjust :: "'k \<Rightarrow> ('v \<Rightarrow> 'v) \<Rightarrow> ('k, 'v) hmap \<Rightarrow> ('k, 'v) hmap" where
  "hm_adjust k f m = map (\<lambda>p. if fst p = k then (fst p, f (snd p)) else p) m"

definition hm_wf :: "('k, 'v) hmap \<Rightarrow> bool" where
  "hm_wf m \<longleftrightarrow> distinct (map fst m)"

lemma hm_get_insert [hmap_laws]: "hm_get (hm_insert k v m) = (hm_get m)(k \<mapsto> v)"
  by (induction m) auto

lemma hm_get_remove [hmap_laws]: "hm_get (hm_remove k m) = (hm_get m)(k := None)"
  by (induction m) (auto simp: hm_remove_def)

lemma hm_get_adjust [hmap_laws]:
  "hm_get (hm_adjust k f m) = (hm_get m)(k := map_option f (hm_get m k))"
  by (induction m) (auto simp: hm_adjust_def)

lemma hm_keys_insert: "fst ` set (hm_insert k v m) = insert k (fst ` set m)"
  by (induction m) auto

lemma hm_keys_remove: "fst ` set (hm_remove k m) = fst ` set m - {k}"
  by (auto simp: hm_remove_def)

lemma hm_keys_adjust [simp]: "map fst (hm_adjust k f m) = map fst m"
  by (simp add: hm_adjust_def)

lemma hm_wf_Nil [simp]: "hm_wf []"
  by (simp add: hm_wf_def)

lemma hm_wf_insert [intro]: "hm_wf m \<Longrightarrow> hm_wf (hm_insert k v m)"
proof (induction m)
  case Nil
  then show ?case by (simp add: hm_wf_def)
next
  case (Cons p ps)
  then show ?case by (auto simp: hm_wf_def hm_keys_insert)
qed

lemma hm_wf_remove [intro]: "hm_wf m \<Longrightarrow> hm_wf (hm_remove k m)"
  by (simp add: hm_wf_def hm_remove_def distinct_map_filter)

lemma hm_wf_adjust [intro]: "hm_wf m \<Longrightarrow> hm_wf (hm_adjust k f m)"
  by (simp add: hm_wf_def)

lemma map_of_filter_keys: "map_of (filter (\<lambda>p. P (fst p)) m) k = (if P k then map_of m k else None)"
  by (induction m) auto

lemma hm_get_iff: "hm_wf m \<Longrightarrow> hm_get m k = Some v \<longleftrightarrow> (k, v) \<in> set m"
  by (simp add: hm_wf_def)

end
