(* ===== verification/Config.thy ===== *)
theory Config
  imports Hamlet_Prelude
begin

text \<open>
  The configuration (\<^verbatim>\<open>src/config.rs\<close>): the five sections read from the environment, the
  generated \<^verbatim>\<open>mosquitto.conf\<close>, and the broker coordinates announced to devices
  (\<^verbatim>\<open>build_brokerage_info\<close> of \<^verbatim>\<open>src/services/beacon_management/manager.rs\<close>). The environment is a
  partial function from names to values. The address parser of \<^verbatim>\<open>std::net\<close> is modelled because the
  configured subject alternative names go through it. The lemmas show that the generated file has
  the one listener that devices are told about, when the node's own client agrees with the broker,
  and that a printed list of addresses is read back.
\<close>

section \<open>Addresses\<close>

datatype IpAddr = V4 "u8 list" | V6 "u16 list"

text \<open>The reader functions of \<^verbatim>\<open>std::net\<close>'s parser: each consumes a prefix of the text or fails and
  consumes nothing.\<close>

definition radix_digit :: "nat \<Rightarrow> char \<Rightarrow> nat option" where
  "radix_digit radix c =
     (case char_digit c of
        Some d \<Rightarrow> if d < radix then Some d else None
      | None \<Rightarrow> (case hex_value (to_ascii_lower c) of
                   Some d \<Rightarrow> if d < radix then Some d else None
                 | None \<Rightarrow> None))"

fun read_digits :: "nat \<Rightarrow> string \<Rightarrow> nat list \<times> string" where
  "read_digits radix [] = ([], [])"
| "read_digits radix (c # cs) =
     (case radix_digit radix c of
        None \<Rightarrow> ([], c # cs)
      | Some d \<Rightarrow> (case read_digits radix cs of (ds, r) \<Rightarrow> (d # ds, r)))"

definition read_number :: "nat \<Rightarrow> nat \<Rightarrow> bool \<Rightarrow> nat \<Rightarrow> string \<Rightarrow> (nat \<times> string) option" where
  "read_number radix max_digits allow_zero_prefix bound s =
     (case read_digits radix s of
        (ds, r) \<Rightarrow>
          let n = foldl (\<lambda>a d. a * radix + d) 0 ds
          in if ds = [] \<or> max_digits < length ds \<or> bound \<le> n \<or>
                \<not> allow_zero_prefix \<and> hd ds = 0 \<and> 1 < length ds
             then None else Some (n, r))"

definition read_given_char :: "char \<Rightarrow> string \<Rightarrow> string option" where
  "read_given_char c s = strip_prefix s [c]"

definition read_separator ::
  "char \<Rightarrow> nat \<Rightarrow> (string \<Rightarrow> ('a \<times> string) option) \<Rightarrow> string \<Rightarrow> ('a \<times> string) option" where
  "read_separator sep index inner s =
     (if index = 0 then inner s
      else (case read_given_char sep s of None \<Rightarrow> None | Some r \<Rightarrow> inner r))"

fun read_octets :: "nat \<Rightarrow> nat \<Rightarrow> string \<Rightarrow> (u8 list \<times> string) option" where
  "read_octets 0 i s = Some ([], s)"
| "read_octets (Suc n) i s =
     (case read_separator (CHR ''.'') i (read_number 10 3 False 256) s of
        None \<Rightarrow> None
      | Some (o1, r) \<Rightarrow>
          (case read_octets n (Suc i) r of
             None \<Rightarrow> None
           | Some (os, r') \<Rightarrow> Some (of_nat o1 # os, r')))"

definition read_ipv4_addr :: "string \<Rightarrow> (u8 list \<times> string) option" where
  "read_ipv4_addr s = read_octets 4 0 s"

definition octet_pair :: "u8 \<Rightarrow> u8 \<Rightarrow> u16" where
  "octet_pair a b = of_nat (256 * unat a + unat b)"

text \<open>\<open>n\<close> groups are still allowed; the flag says that the last two came from an embedded IPv4
  address.\<close>

fun read_groups :: "nat \<Rightarrow> nat \<Rightarrow> string \<Rightarrow> u16 list \<times> bool \<times> string" where
  "read_groups 0 i s = ([], False, s)"
| "read_groups (Suc n) i s =
     (case (if 0 < n then read_separator (CHR '':'') i read_ipv4_addr s else None) of
        Some (os, r) \<Rightarrow>
          ([octet_pair (os ! 0) (os ! 1), octet_pair (os ! 2) (os ! 3)], True, r)
      | None \<Rightarrow>
          (case read_separator (CHR '':'') i (read_number 16 4 True 65536) s of
             None \<Rightarrow> ([], False, s)
           | Some (g, r) \<Rightarrow>
               (case read_groups n (Suc i) r of (gs, v4, r') \<Rightarrow> (of_nat g # gs, v4, r'))))"

definition read_ipv6_addr :: "string \<Rightarrow> (u16 list \<times> string) option" where
  "read_ipv6_addr s =
     (case read_groups 8 0 s of
        (head, head_ipv4, r) \<Rightarrow>
          if length head = 8 then Some (head, r)
          else if head_ipv4 then None
          else (case strip_prefix r ''::'' of
                  None \<Rightarrow> None
                | Some r1 \<Rightarrow>
                    (case read_groups (7 - length head) 0 r1 of
                       (tail, _, r2) \<Rightarrow>
                         Some (head @ replicate (8 - length head - length tail) 0 @ tail, r2))))"

definition parse_ip :: "string \<Rightarrow> IpAddr option" where
  "parse_ip s =
     (case (case read_ipv4_addr s of
              Some (os, r) \<Rightarrow> Some (V4 os, r)
            | None \<Rightarrow> map_option (\<lambda>(gs, r). (V6 gs, r)) (read_ipv6_addr s)) of
        Some (ip, []) \<Rightarrow> Some ip
      | _ \<Rightarrow> None)"

section \<open>Configuration sections\<close>

type_synonym environ = "string \<Rightarrow> string option"
type_synonym path = string

definition env_or :: "environ \<Rightarrow> string \<Rightarrow> string \<Rightarrow> string" where
  "env_or env k d = (case env k of Some v \<Rightarrow> v | None \<Rightarrow> d)"

definition is_true :: "string \<Rightarrow> bool" where
  "is_true v = eq_ignore_ascii_case (trim v) ''true''"

definition or_default :: "'a \<Rightarrow> 'a option \<Rightarrow> 'a" where
  "or_default d r = (case r of Some v \<Rightarrow> v | None \<Rightarrow> d)"

datatype MqttTlsMode = TlsNone | ServerOnly | Mutual

record MqttClientConfig =
  mc_client_id :: string
  mc_host :: string
  mc_port :: u16
  mc_tls_mode :: MqttTlsMode
  mc_cafile :: "path option"
  mc_certfile :: "path option"
  mc_keyfile :: "path option"
  mc_username :: string
  mc_password :: string

definition MqttClientConfig_from_env :: "environ \<Rightarrow> path \<Rightarrow> MqttClientConfig" where
  "MqttClientConfig_from_env env config_dir =
     (let mutual = is_true (env_or env ''MQTT_TLS_ENABLED'' ''false'')
      in \<lparr>mc_client_id = env_or env ''MQTT_CLIENT_ID'' ''hamlet'',
          mc_host = ''localhost'',
          mc_port = (if mutual then or_default 8883 (parse_u16 (env_or env ''MQTTS_PORT'' ''8883''))
                     else or_default 1883 (parse_u16 (env_or env ''MQTT_PORT'' ''1883''))),
          mc_tls_mode = (if mutual then Mutual else TlsNone),
          mc_cafile = Some (path_join config_dir (env_or env ''MQTT_CAFILE'' ''certs/ca.crt'')),
          mc_certfile = Some (path_join config_dir (env_or env ''MQTT_CLIENT_CERTFILE'' ''certs/client.crt'')),
          mc_keyfile = Some (path_join config_dir (env_or env ''MQTT_CLIENT_KEYFILE'' ''certs/client.key'')),
          mc_username = env_or env ''MQTT_USERNAME'' ''placenet'',
          mc_password = env_or env ''MQTT_PASSWORD'' ''changeme''\<rparr>)"

record MqttBrokerageConfig =
  mb_port :: u16
  mb_client_id :: string
  mb_config_file :: path
  mb_password_file :: path
  mb_username :: string
  mb_password :: string
  mb_tls_enabled :: bool
  mb_mqtts_port :: u16
  mb_cafile :: path
  mb_certfile :: path
  mb_keyfile :: path
  mb_san_ips :: "IpAddr list"
  mb_san_hostnames :: "string list"

definition MqttBrokerageConfig_from_env :: "environ \<Rightarrow> path \<Rightarrow> MqttBrokerageConfig" where
  "MqttBrokerageConfig_from_env env config_dir =
     \<lparr>mb_port = or_default 1883 (parse_u16 (env_or env ''MQTT_PORT'' ''1883'')),
      mb_client_id = env_or env ''MQTT_CLIENT_ID'' ''hamlet'',
      mb_config_file = path_join config_dir ''mosquitto.conf'',
      mb_password_file = path_join config_dir ''passwd'',
      mb_username = env_or env ''MQTT_USERNAME'' ''placenet'',
      mb_password = env_or env ''MQTT_PASSWORD'' ''changeme'',
      mb_tls_enabled = is_true (env_or env ''MQTT_TLS_ENABLED'' ''true''),
      mb_mqtts_port = or_default 8883 (parse_u16 (env_or env ''MQTTS_PORT'' ''8883'')),
      mb_cafile = path_join config_dir (env_or env ''MQTT_CAFILE'' ''certs/ca.crt''),
      mb_certfile = path_join config_dir (env_or env ''MQTT_CERTFILE'' ''certs/broker.crt''),
      mb_keyfile = path_join config_dir (env_or env ''MQTT_KEYFILE'' ''certs/broker.key''),
      mb_san_ips = List.map_filter (\<lambda>s. parse_ip (trim s))
        (split_char (CHR '','') (env_or env ''BROKER_SAN_IPS'' [])),
      mb_san_hostnames = filter (\<lambda>s. s \<noteq> [] \<and> s \<noteq> ''localhost'')
        (map trim (split_char (CHR '','') (env_or env ''BROKER_SAN_HOSTNAMES'' [])))\<rparr>"

record HttpConfig =
  ht_host :: string
  ht_port :: u16
  ht_tls_enabled :: bool
  ht_upstream_port :: u16

definition HttpConfig_from_env :: "environ \<Rightarrow> HttpConfig" where
  "HttpConfig_from_env env =
     \<lparr>ht_host = env_or env ''HTTP_HOST'' ''0.0.0.0'',
      ht_port = or_default 8080 (parse_u16 (env_or env ''HTTP_PORT'' ''8080'')),
      ht_tls_enabled = is_true (env_or env ''HTTP_TLS_ENABLED'' ''true''),
      ht_upstream_port = or_default 3000 (parse_u16 (env_or env ''HTTP_UPSTREAM_PORT'' ''3000''))\<rparr>"

record BeaconManagementConfig =
  bm_use_jitter :: bool
  bm_broadcast_interval :: u16
  bm_key_rotation_interval :: u32
  bm_key_expiry :: u32

definition BeaconManagementConfig_from_env :: "environ \<Rightarrow> BeaconManagementConfig" where
  "BeaconManagementConfig_from_env env =
     \<lparr>bm_use_jitter = is_true (env_or env ''USE_NETWORK_JITTER'' ''false''),
      bm_broadcast_interval = or_default 60 (parse_u16 (trim (env_or env ''BROADCAST_INTERVAL'' ''60''))),
      bm_key_rotation_interval =
        or_default 3600 (parse_u32 (trim (env_or env ''KEY_ROTATION_INTERVAL'' ''3600''))),
      bm_key_expiry = or_default 7200 (parse_u32 (trim (env_or env ''KEY_EXPIRY'' ''7200'')))\<rparr>"

record GatewayRegistrationConfig =
  gr_server_url :: string
  gr_gateway_url :: "string option"
  gr_username :: string
  gr_password :: string
  gr_broker_cafile :: "path option"
  gr_broker_tls :: bool

definition GatewayRegistrationConfig_from_env :: "environ \<Rightarrow> GatewayRegistrationConfig" where
  "GatewayRegistrationConfig_from_env env =
     \<lparr>gr_server_url = env_or env ''PLACENET_SERVER_URL'' ''http://localhost:8080'',
      gr_gateway_url = env ''PLACENET_GATEWAY_URL'',
      gr_username = env_or env ''PLACENET_GATEWAY_USERNAME'' [],
      gr_password = env_or env ''PLACENET_GATEWAY_PASSWORD'' [],
      gr_broker_cafile = env ''PLACENET_GATEWAY_MQTT_CAFILE'',
      gr_broker_tls = (case env ''PLACENET_GATEWAY_MQTT_TLS'' of Some v \<Rightarrow> is_true v | None \<Rightarrow> True)\<rparr>"

record config =
  cf_mqtt_brokerage :: MqttBrokerageConfig
  cf_mqtt_client :: MqttClientConfig
  cf_http :: HttpConfig
  cf_gateway_registration :: GatewayRegistrationConfig
  cf_beacon_management :: BeaconManagementConfig
  cf_config_dir :: path

text \<open>\<open>cwd\<close> is the current directory, if it can be determined; otherwise the program panics.\<close>

definition Config_from_env :: "environ \<Rightarrow> path option \<Rightarrow> config result" where
  "Config_from_env env cwd =
     (let raw = env_or env ''PLACENET_CONFIG_DIR'' ''config''
      in (case (if path_is_absolute raw then Some raw
                else map_option (\<lambda>d. path_join d raw) cwd) of
            None \<Rightarrow> Err ''cannot determine current directory''
          | Some config_dir \<Rightarrow>
              Ok \<lparr>cf_mqtt_brokerage = MqttBrokerageConfig_from_env env config_dir,
                  cf_mqtt_client = MqttClientConfig_from_env env config_dir,
                  cf_http = HttpConfig_from_env env,
                  cf_gateway_registration = GatewayRegistrationConfig_from_env env,
                  cf_beacon_management = BeaconManagementConfig_from_env env,
                  cf_config_dir = config_dir\<rparr>))"

section \<open>The generated broker configuration\<close>

abbreviation newline :: char where "newline \<equiv> CHR 0x0A"

definition mosquitto_conf :: "MqttBrokerageConfig \<Rightarrow> string" where
  "mosquitto_conf cfg =
     ''# Auto-generated by hamlet'' @ [newline] @
     ''persistence false'' @ [newline] @
     ''log_dest stderr'' @ [newline] @ [newline] @
     (if mb_tls_enabled cfg then
        ''listener '' @ show_u16 (mb_mqtts_port cfg) @ [newline] @
        ''protocol mqtt'' @ [newline] @
        ''cafile '' @ mb_cafile cfg @ [newline] @
        ''certfile '' @ mb_certfile cfg @ [newline] @
        ''keyfile '' @ mb_keyfile cfg @ [newline] @
        ''tls_version tlsv1.2'' @ [newline] @
        ''require_certificate true'' @ [newline] @
        ''use_identity_as_username true'' @ [newline]
      else
        ''listener '' @ show_u16 (mb_port cfg) @ [newline] @
        ''allow_anonymous false'' @ [newline] @
        ''password_file '' @ mb_password_file cfg @ [newline])"

text \<open>
  Files are a map from paths to contents. A write either stores its text or fails and leaves
  something in the file.
\<close>

type_synonym files = "path \<rightharpoonup> string"

datatype write_outcome = Written | WriteFailed string "string option"

definition fs_write :: "write_outcome \<Rightarrow> path \<Rightarrow> string \<Rightarrow> files \<Rightarrow> unit result \<times> files" where
  "fs_write w p text fs =
     (case w of
        Written \<Rightarrow> (Ok (), fs(p \<mapsto> text))
      | WriteFailed e left \<Rightarrow> (Err e, fs(p := left)))"

definition write_config ::
  "unit result \<Rightarrow> write_outcome \<Rightarrow> MqttBrokerageConfig \<Rightarrow> files \<Rightarrow> unit result \<times> files" where
  "write_config mkdir w cfg fs =
     (case path_parent (mb_config_file cfg) of
        None \<Rightarrow> (Err ''config_file has no parent directory'', fs)
      | Some _ \<Rightarrow>
          (case mkdir of
             Err e \<Rightarrow> (Err (''Failed to create config dir: '' @ e), fs)
           | Ok _ \<Rightarrow>
               (case fs_write w (mb_config_file cfg) (mosquitto_conf cfg) fs of
                  (Err e, fs') \<Rightarrow> (Err (''Failed to write mosquitto.conf: '' @ e), fs')
                | (Ok _, fs') \<Rightarrow> (Ok (), fs'))))"

section \<open>What devices are told\<close>

record MqttBrokerageInfo =
  bi_address :: string
  bi_port :: u16
  bi_ca_cert_pem :: string

definition build_brokerage_info :: "MqttBrokerageConfig \<Rightarrow> string \<Rightarrow> MqttBrokerageInfo" where
  "build_brokerage_info cfg ca_cert_pem =
     \<lparr>bi_address = ''localhost'',
      bi_port = (if mb_tls_enabled cfg then mb_mqtts_port cfg else mb_port cfg),
      bi_ca_cert_pem = ca_cert_pem\<rparr>"

section \<open>Lines of the generated file\<close>

definition conf_lines :: "MqttBrokerageConfig \<Rightarrow> string list" where
  "conf_lines cfg =
     [''# Auto-generated by hamlet'', ''persistence false'', ''log_dest stderr'', []] @
     (if mb_tls_enabled cfg then
        [''listener '' @ show_u16 (mb_mqtts_port cfg), ''protocol mqtt'',
         ''cafile '' @ mb_cafile cfg, ''certfile '' @ mb_certfile cfg, ''keyfile '' @ mb_keyfile cfg,
         ''tls_version tlsv1.2'', ''require_certificate true'', ''use_identity_as_username true'']
      else
        [''listener '' @ show_u16 (mb_port cfg), ''allow_anonymous false'',
         ''password_file '' @ mb_password_file cfg])"

lemma mosquitto_conf_lines: "mosquitto_conf cfg = concat (map (\<lambda>l. l @ [newline]) (conf_lines cfg))"
  by (simp add: mosquitto_conf_def conf_lines_def)

definition one_line_paths :: "MqttBrokerageConfig \<Rightarrow> bool" where
  "one_line_paths cfg \<longleftrightarrow>
     newline \<notin> set (mb_cafile cfg) \<and> newline \<notin> set (mb_certfile cfg) \<and>
     newline \<notin> set (mb_keyfile cfg) \<and> newline \<notin> set (mb_password_file cfg)"

lemma split_mosquitto_conf:
  assumes "one_line_paths cfg"
  shows "split_char newline (mosquitto_conf cfg) = conf_lines cfg @ [[]]"
  unfolding mosquitto_conf_lines
  by (rule split_char_lines) (use assms show_u16_not(3) in \<open>simp add: conf_lines_def one_line_paths_def\<close>)

section \<open>Reading back printed addresses\<close>

definition show_octets :: "u8 list \<Rightarrow> string" where
  "show_octets os = join_with (CHR ''.'') (map (\<lambda>b. show_nat (unat b)) os)"

lemma radix_digit_digit_char [simp]: "d < 10 \<Longrightarrow> radix_digit 10 (digit_char d) = Some d"
  by (simp add: radix_digit_def)

definition stops :: "string \<Rightarrow> bool" where
  "stops r \<longleftrightarrow> (case r of [] \<Rightarrow> True | c # _ \<Rightarrow> radix_digit 10 c = None)"

lemma read_digits_stop: "stops r \<Longrightarrow> read_digits 10 r = ([], r)"
  by (cases r) (auto simp: stops_def)

lemma read_digits_append:
  "\<forall>d\<in>set ds. d < 10 \<Longrightarrow> stops r \<Longrightarrow> read_digits 10 (map digit_char ds @ r) = (ds, r)"
  by (induction ds) (auto simp: read_digits_stop)

fun nat_digits :: "nat \<Rightarrow> nat list" where
  "nat_digits n = (if n < 10 then [n] else nat_digits (n div 10) @ [n mod 10])"

declare nat_digits.simps [simp del]

lemma show_nat_digits_map: "show_nat n = map digit_char (nat_digits n)"
  by (induction n rule: show_nat.induct) (subst show_nat.simps, subst nat_digits.simps, simp)

lemma nat_digits_small: "d \<in> set (nat_digits n) \<Longrightarrow> d < 10"
  by (induction n rule: nat_digits.induct) (subst (asm) nat_digits.simps, auto split: if_splits)

lemma nat_digits_value: "foldl (\<lambda>a d. a * 10 + d) 0 (nat_digits n) = n"
  by (induction n rule: nat_digits.induct) (subst nat_digits.simps, auto)

lemma nat_digits_nonempty: "nat_digits n \<noteq> []"
  by (subst nat_digits.simps) simp

lemma nat_digits_leading_zero: "hd (nat_digits n) = 0 \<Longrightarrow> n = 0"
proof (induction n rule: nat_digits.induct)
  case (1 n)
  show ?case
  proof (cases "n < 10")
    case True
    with 1(2) show ?thesis by (simp add: nat_digits.simps [of n])
  next
    case False
    with 1(2) have "hd (nat_digits (n div 10)) = 0"
      by (simp add: nat_digits.simps [of n] nat_digits_nonempty)
    with 1(1) False show ?thesis by simp
  qed
qed

lemma nat_digits_octet:
  assumes "n < 256"
  shows "length (nat_digits n) \<le> 3" "hd (nat_digits n) = 0 \<Longrightarrow> length (nat_digits n) \<le> 1"
  using assms nat_digits_leading_zero [of n]
  by (auto simp: nat_digits.simps [of n] nat_digits.simps [of "n div 10"]
      nat_digits.simps [of "n div 10 div 10"] nat_digits.simps [of 0])

lemma read_number_octet:
  assumes "stops r"
  shows "read_number 10 3 False 256 (show_nat (unat (b :: u8)) @ r) = Some (unat b, r)"
proof -
  have "unat b < 256" using unsigned_less [of b] by simp
  note oct = nat_digits_octet [OF this]
  have "read_digits 10 (show_nat (unat b) @ r) = (nat_digits (unat b), r)"
    unfolding show_nat_digits_map by (rule read_digits_append) (auto simp: assms dest: nat_digits_small)
  then show ?thesis
    using oct \<open>unat b < 256\<close> by (auto simp: read_number_def Let_def nat_digits_value nat_digits_nonempty)
qed

lemma stops_dot [simp]: "stops (CHR ''.'' # r)"
  by (simp add: stops_def radix_digit_def char_digit_def hex_value_def to_ascii_lower_def)

lemma read_octets_tail:
  "stops r \<Longrightarrow> read_octets (length os) (Suc i) (concat (map (\<lambda>b. CHR ''.'' # show_nat (unat b)) os) @ r) = Some (os, r)"
proof (induction os arbitrary: i)
  case (Cons b os)
  have "stops (concat (map (\<lambda>b. CHR ''.'' # show_nat (unat b)) os) @ r)"
    using Cons.prems by (cases os) simp_all
  from read_number_octet [OF this, of b] Cons show ?case
    by (simp add: read_separator_def read_given_char_def)
qed simp

lemma show_octets_Cons:
  "show_octets (b # os) = show_nat (unat b) @ concat (map (\<lambda>b. CHR ''.'' # show_nat (unat b)) os)"
  by (induction os arbitrary: b) (simp_all add: show_octets_def)

lemma read_ipv4_show: 
  assumes "length os = 4"
  shows "read_ipv4_addr (show_octets os) = Some (os, [])"
proof -
  obtain b bs where os: "os = b # bs" "length bs = 3" using assms by (cases os) auto
  have "stops (concat (map (\<lambda>b. CHR ''.'' # show_nat (unat b)) bs))" by (cases bs) (simp_all add: stops_def [of "[]"])
  from read_number_octet [OF this, of b] show ?thesis
    using read_octets_tail [of "[]" bs 0] os
    by (simp add: read_ipv4_addr_def show_octets_Cons read_separator_def stops_def [of "[]"] eval_nat_numeral)
qed

lemma parse_ip_show: "length os = 4 \<Longrightarrow> parse_ip (show_octets os) = Some (V4 os)"
  by (simp add: parse_ip_def read_ipv4_show)

lemma map_filter_Some: "List.map_filter f xs = ys" if "map f xs = map Some ys"
  using that by (induction xs arbitrary: ys) (auto simp: List.map_filter_def)

lemma show_nat_codes:
  assumes "c \<in> set (show_nat n)"
  shows "(48 :: nat) \<le> of_char c \<and> of_char c \<le> (57 :: nat)"
  using show_nat_digits [OF assms] by (auto simp: digit_char_def)

lemma show_octets_codes:
  assumes "c \<in> set (show_octets os)"
  shows "(46 :: nat) \<le> of_char c \<and> of_char c \<le> (57 :: nat)"
proof (cases os)
  case Nil
  with assms show ?thesis by (simp add: show_octets_def)
next
  case (Cons b bs)
  with assms consider "c \<in> set (show_nat (unat b))" | "c = CHR ''.''"
    | x where "c \<in> set (show_nat (unat (x :: u8)))"
    by (auto simp: show_octets_Cons split: if_splits)
  then show ?thesis by cases (use show_nat_codes in fastforce)+
qed

lemma show_octets_plain:
  "CHR '','' \<notin> set (show_octets os)" "\<forall>c\<in>set (show_octets os). \<not> is_ascii_ws c"
  using show_octets_codes [of _ os] by (fastforce simp: is_ascii_ws_def)+

lemma trim_id: "\<forall>c\<in>set s. \<not> is_ascii_ws c \<Longrightarrow> trim s = s"
proof -
  assume *: "\<forall>c\<in>set s. \<not> is_ascii_ws c"
  then have "dropWhile is_ascii_ws s = s" "dropWhile is_ascii_ws (rev s) = rev s"
    by (auto simp: dropWhile_eq_self_iff hd_rev)
  then show ?thesis by (simp add: trim_def)
qed

section \<open>Properties\<close>

text \<open>Claim C28. The generated broker configuration opens exactly one listener, on the port that devices
  are told to use. With TLS it demands a client certificate and names no password file; without TLS
  it forbids anonymous access and names the password file.\<close>

theorem conf_announced_listener:
  assumes "one_line_paths cfg"
  shows "filter (\<lambda>l. starts_with l ''listener'') (split_char newline (mosquitto_conf cfg)) =
      [''listener '' @ show_u16 (bi_port (build_brokerage_info cfg pem))] \<and>
    (if mb_tls_enabled cfg
     then ''require_certificate true'' \<in> set (split_char newline (mosquitto_conf cfg)) \<and>
       (\<forall>l\<in>set (split_char newline (mosquitto_conf cfg)). \<not> starts_with l ''password_file'')
     else ''allow_anonymous false'' \<in> set (split_char newline (mosquitto_conf cfg)) \<and>
       ''password_file '' @ mb_password_file cfg \<in> set (split_char newline (mosquitto_conf cfg)))"
  by (simp add: split_mosquitto_conf [OF assms] conf_lines_def build_brokerage_info_def starts_with_def)

theorem conf_announced_listener_witness:
  "let cfg = MqttBrokerageConfig_from_env (\<lambda>_. None) ''/etc/hamlet''
   in one_line_paths cfg \<and>
      filter (\<lambda>l. starts_with l ''listener'') (split_char newline (mosquitto_conf cfg)) =
        [''listener '' @ show_u16 (bi_port (build_brokerage_info cfg ''pem''))]"
proof -
  have "one_line_paths (MqttBrokerageConfig_from_env (\<lambda>_. None) ''/etc/hamlet'')"
    by (simp add: one_line_paths_def MqttBrokerageConfig_from_env_def path_join_def path_is_absolute_def env_or_def)
  then show ?thesis using conf_announced_listener unfolding Let_def by blast
qed

text \<open>Claim C29. The node's own MQTT client and the broker read the same variable with different
  defaults: they agree on TLS exactly when \<^verbatim>\<open>MQTT_TLS_ENABLED\<close> is set. Set, the client uses the
  broker's port, and the CA file the broker was given; unset, the broker only serves TLS on its TLS
  port while the client speaks plaintext to the plain port.\<close>

theorem client_broker_agreement:
  "let client = MqttClientConfig_from_env env dir; broker = MqttBrokerageConfig_from_env env dir in
    ((mc_tls_mode client = Mutual) = mb_tls_enabled broker \<longleftrightarrow> env ''MQTT_TLS_ENABLED'' \<noteq> None) \<and>
    (if env ''MQTT_TLS_ENABLED'' = None
     then mc_tls_mode client = TlsNone \<and> mc_port client = mb_port broker \<and>
       bi_port (build_brokerage_info broker pem) = mb_mqtts_port broker
     else mc_port client = bi_port (build_brokerage_info broker pem) \<and> mc_cafile client = Some (mb_cafile broker))"
proof -
  have t: "is_true ''true''" and f: "\<not> is_true ''false''"
    by (simp_all add: is_true_def eq_ignore_ascii_case_def to_ascii_lower_def trim_def is_ascii_ws_def)
  show ?thesis
    by (cases "env ''MQTT_TLS_ENABLED''")
      (simp_all add: Let_def MqttClientConfig_from_env_def MqttBrokerageConfig_from_env_def
        build_brokerage_info_def env_or_def t f)
qed

text \<open>A comma-separated list of printed IPv4 addresses in \<^verbatim>\<open>BROKER_SAN_IPS\<close> is read back
  exactly, in order, and an entry that is no address is dropped without affecting the others.\<close>

theorem broker_san_ips_roundtrip:
  assumes "addrs \<noteq> []" and "\<forall>a\<in>set addrs. length a = 4"
    and "CHR '','' \<notin> set junk" and "parse_ip (trim junk) = None"
    and "env ''BROKER_SAN_IPS'' = Some (join_with (CHR '','') (map show_octets addrs))"
    and "env' ''BROKER_SAN_IPS'' = Some (join_with (CHR '','') (junk # map show_octets addrs))"
  shows "mb_san_ips (MqttBrokerageConfig_from_env env dir) = map V4 addrs \<and>
    mb_san_ips (MqttBrokerageConfig_from_env env' dir) = map V4 addrs"
proof -
  have s: "split_char (CHR '','') (join_with (CHR '','') (map show_octets addrs)) = map show_octets addrs"
    by (rule split_char_join) (use assms(1) show_octets_plain(1) in auto)
  have s': "split_char (CHR '','') (join_with (CHR '','') (junk # map show_octets addrs)) = junk # map show_octets addrs"
    by (rule split_char_join) (use assms(3) show_octets_plain(1) in auto)
  have "List.map_filter (\<lambda>s. parse_ip (trim s)) (map show_octets addrs) = map V4 addrs"
    by (rule map_filter_Some) (use assms(2) in \<open>simp add: trim_id [OF show_octets_plain(2)] parse_ip_show\<close>)
  then show ?thesis
    using assms(4) by (simp add: MqttBrokerageConfig_from_env_def env_or_def assms(5,6) s s' map_filter_simps del: join_with.simps)
qed

theorem broker_san_ips_roundtrip_witness:
  "mb_san_ips (MqttBrokerageConfig_from_env
     [''BROKER_SAN_IPS'' \<mapsto> join_with (CHR '','') (map show_octets [[192, 168, 1, 50], [10, 0, 0, 7]])] ''config'') =
     map V4 [[192, 168, 1, 50], [10, 0, 0, 7]]"
proof -
  have d: "read_digits radix ''?'' = ([], ''?'')" for radix
    by (simp add: radix_digit_def char_digit_def hex_value_def to_ascii_lower_def)
  have n: "read_number radix m z b ''?'' = None" for radix m z b
    by (simp add: read_number_def d del: read_digits.simps)
  have four: "read_ipv4_addr ''?'' = None"
    using n by (simp add: read_ipv4_addr_def read_separator_def read_octets.simps(2) [of 3, simplified])
  then have "read_groups 8 0 ''?'' = ([], False, ''?'')"
    using n by (simp add: read_separator_def read_groups.simps(2) [of 7, simplified])
  then have "parse_ip ''?'' = None" using four by (simp add: parse_ip_def read_ipv6_addr_def)
  then have "parse_ip (trim ''?'') = None" by (simp add: trim_def is_ascii_ws_def)
  then show ?thesis
    using broker_san_ips_roundtrip [of "[[192, 168, 1, 50], [10, 0, 0, 7]]" "''?''"
        "[''BROKER_SAN_IPS'' \<mapsto> join_with (CHR '','') (map show_octets [[192, 168, 1, 50], [10, 0, 0, 7]])]"
        "[''BROKER_SAN_IPS'' \<mapsto> join_with (CHR '','') (''?'' # map show_octets [[192, 168, 1, 50], [10, 0, 0, 7]])]"
        "''config''"]
    by (simp del: join_with.simps list.map)
qed

end
