(* ===== verification/Ca.thy ===== *)
theory Ca
  imports Config
begin

text \<open>
  The certificate authority (\<^verbatim>\<open>src/infra/ca/operations.rs\<close>, \<^verbatim>\<open>src/infra/ca/ca_service.rs\<close> and the
  tables of \<^verbatim>\<open>migrations\<close>). The library \<^verbatim>\<open>rcgen\<close> is a parameter: keys and certificates are opaque,
  their PEM texts and the signing functions are the fields of a record. Each statement sent to the
  database may fail; a field of the environment says so. The lemmas give the life of a device
  certificate (issue, lookup, revocation, reissue), the stability of the node's own identity and of
  the root key across restarts, and the errors before initialisation.
\<close>

section \<open>Data\<close>

datatype SanType = IpAddress IpAddr | DnsName string

datatype key_usage = KeyCertSign | CrlSign

datatype extended_usage = ServerAuth | ClientAuth

record CertificateParams =
  cp_is_ca :: bool
  cp_key_usages :: "key_usage list"
  cp_common_name :: string
  cp_organization :: string
  cp_extended :: "extended_usage list"
  cp_sans :: "SanType list"

record ('k, 'c, 'r) rcgen =
  default_params :: CertificateParams
  key_from_pem :: "string \<Rightarrow> 'k result"
  key_pem :: "'k \<Rightarrow> string"
  params_from_ca_pem :: "string \<Rightarrow> CertificateParams result"
  self_signed :: "CertificateParams \<Rightarrow> 'k \<Rightarrow> 'c result"
  signed_by :: "CertificateParams \<Rightarrow> 'k \<Rightarrow> 'c \<Rightarrow> 'k \<Rightarrow> 'c result"
  cert_pem :: "'c \<Rightarrow> string"
  csr_from_pem :: "string \<Rightarrow> 'r result"
  csr_signed_by :: "'r \<Rightarrow> 'c \<Rightarrow> 'k \<Rightarrow> 'c result"
  ia5_string :: "string \<Rightarrow> bool"

record ('k, 'c) CaState =
  ca_subject_cn :: string
  ca_cert :: 'c
  ca_key_pair :: 'k

record device_row =
  dr_device_id :: string
  dr_cert_pem :: string
  dr_issued_at :: int
  dr_expires_at :: int
  dr_revoked :: int

record node_row =
  nr_cert_pem :: string
  nr_key_pem :: string
  nr_issued_at :: int
  nr_expires_at :: int

record ca_db =
  db_ca_keys :: "(string \<times> string) option"
  db_device_certs :: "device_row list"
  db_node_identity :: "node_row option"

record DeviceCertRecord =
  rec_device_id :: string
  rec_cert_pem :: string
  rec_issued_at :: int
  rec_expires_at :: int
  rec_revoked :: bool

text \<open>The answers of the database to a query and to a statement, the generated key, and the clock in
  seconds since the epoch.\<close>

record 'k ca_env =
  ce_query_err :: "string option"
  ce_exec_err :: "string option"
  ce_generated :: "'k result"
  ce_clock :: int
  ce_unique_msg :: string

definition CA_CN :: string where
  "CA_CN = ''PlaceNet Root CA''"

definition unix_secs :: "int \<Rightarrow> int" where
  "unix_secs clock = (if clock < 0 then 0 else wrap_i64 clock)"

definition year_later :: "int \<Rightarrow> int" where
  "year_later now = wrap_i64 (now + 365 * 24 * 60 * 60)"

section \<open>Operations on the CA\<close>

definition load_ca_from_db ::
  "('k, 'c, 'r) rcgen \<Rightarrow> 'k ca_env \<Rightarrow> ca_db \<Rightarrow> ('k, 'c) CaState option result" where
  "load_ca_from_db R env db =
     (case ce_query_err env of
        Some e \<Rightarrow> Err (''Failed to query CA from database: '' @ e)
      | None \<Rightarrow>
          (case db_ca_keys db of
             None \<Rightarrow> Ok None
           | Some (cpem, kpem) \<Rightarrow>
               (case key_from_pem R kpem of
                  Err e \<Rightarrow> Err (''Failed to parse CA private key: '' @ e)
                | Ok key \<Rightarrow>
                    (case params_from_ca_pem R cpem of
                       Err e \<Rightarrow> Err (''Failed to parse CA certificate: '' @ e)
                     | Ok params \<Rightarrow>
                         (case self_signed R params key of
                            Err e \<Rightarrow> Err (''Failed to reconstruct CA cert: '' @ e)
                          | Ok cert \<Rightarrow> Ok (Some \<lparr>ca_subject_cn = CA_CN, ca_cert = cert, ca_key_pair = key\<rparr>))))))"

definition ca_params :: "('k, 'c, 'r) rcgen \<Rightarrow> CertificateParams" where
  "ca_params R = (default_params R)\<lparr>cp_is_ca := True, cp_key_usages := [KeyCertSign, CrlSign],
     cp_common_name := CA_CN, cp_organization := ''PlaceNet''\<rparr>"

definition generate_and_persist_ca ::
  "('k, 'c, 'r) rcgen \<Rightarrow> 'k ca_env \<Rightarrow> ca_db \<Rightarrow> ('k, 'c) CaState result \<times> ca_db" where
  "generate_and_persist_ca R env db =
     (case ce_generated env of
        Err e \<Rightarrow> (Err (''Failed to generate CA key pair: '' @ e), db)
      | Ok key \<Rightarrow>
          (case self_signed R (ca_params R) key of
             Err e \<Rightarrow> (Err (''Failed to self-sign CA certificate: '' @ e), db)
           | Ok cert \<Rightarrow>
               (case (ce_exec_err env, db_ca_keys db) of
                  (Some e, _) \<Rightarrow> (Err (''Failed to persist CA to database: '' @ e), db)
                | (None, Some _) \<Rightarrow>
                    (Err (''Failed to persist CA to database: '' @ ce_unique_msg env), db)
                | (None, None) \<Rightarrow>
                    (Ok \<lparr>ca_subject_cn = CA_CN, ca_cert = cert, ca_key_pair = key\<rparr>,
                     db\<lparr>db_ca_keys := Some (cert_pem R cert, key_pem R key)\<rparr>))))"

definition load_or_generate_ca ::
  "('k, 'c, 'r) rcgen \<Rightarrow> 'k ca_env \<Rightarrow> ca_db \<Rightarrow> ('k, 'c) CaState result \<times> ca_db" where
  "load_or_generate_ca R env db =
     (case load_ca_from_db R env db of
        Err e \<Rightarrow> (Err e, db)
      | Ok (Some state) \<Rightarrow> (Ok state, db)
      | Ok None \<Rightarrow> generate_and_persist_ca R env db)"

definition generate_node_identity ::
  "('k, 'c, 'r) rcgen \<Rightarrow> 'k ca_env \<Rightarrow> ('k, 'c) CaState \<Rightarrow> (string \<times> string \<times> int \<times> int) result" where
  "generate_node_identity R env ca =
     (case ce_generated env of
        Err e \<Rightarrow> Err (''Failed to generate node identity key pair: '' @ e)
      | Ok key \<Rightarrow>
          (case signed_by R ((default_params R)\<lparr>cp_common_name := ''hamlet'', cp_organization := ''PlaceNet'',
                   cp_extended := [ClientAuth]\<rparr>) key (ca_cert ca) (ca_key_pair ca) of
             Err e \<Rightarrow> Err (''Failed to sign node identity certificate: '' @ e)
           | Ok cert \<Rightarrow>
               let now = unix_secs (ce_clock env)
               in Ok (cert_pem R cert, key_pem R key, now, year_later now)))"

definition broker_sans :: "('k, 'c, 'r) rcgen \<Rightarrow> IpAddr list \<Rightarrow> string list \<Rightarrow> SanType list" where
  "broker_sans R san_ips san_hostnames =
     map IpAddress san_ips @ map DnsName (filter (ia5_string R) san_hostnames)"

definition generate_broker_identity ::
  "('k, 'c, 'r) rcgen \<Rightarrow> 'k ca_env \<Rightarrow> ('k, 'c) CaState \<Rightarrow> IpAddr list \<Rightarrow> string list \<Rightarrow> (string \<times> string) result" where
  "generate_broker_identity R env ca san_ips san_hostnames =
     (case ce_generated env of
        Err e \<Rightarrow> Err (''Failed to generate broker key pair: '' @ e)
      | Ok key \<Rightarrow>
          (case signed_by R ((default_params R)\<lparr>cp_common_name := ''placenet-broker'', cp_organization := ''PlaceNet'',
                   cp_extended := [ServerAuth], cp_sans := broker_sans R san_ips san_hostnames\<rparr>)
                   key (ca_cert ca) (ca_key_pair ca) of
             Err e \<Rightarrow> Err (''Failed to sign broker certificate: '' @ e)
           | Ok cert \<Rightarrow> Ok (cert_pem R cert, key_pem R key)))"

definition operations_sign_csr ::
  "('k, 'c, 'r) rcgen \<Rightarrow> 'k ca_env \<Rightarrow> ('k, 'c) CaState \<Rightarrow> string \<Rightarrow> (string \<times> int \<times> int) result" where
  "operations_sign_csr R env ca csr_pem =
     (case csr_from_pem R csr_pem of
        Err e \<Rightarrow> Err (''Invalid CSR: '' @ e)
      | Ok csr \<Rightarrow>
          (case csr_signed_by R csr (ca_cert ca) (ca_key_pair ca) of
             Err e \<Rightarrow> Err (''Failed to sign CSR: '' @ e)
           | Ok cert \<Rightarrow>
               let now = unix_secs (ce_clock env) in Ok (cert_pem R cert, now, year_later now)))"

section \<open>The service\<close>

text \<open>The live state is empty until \<^verbatim>\<open>init\<close> has run; the database survives a restart.\<close>

record ('k, 'c) CaService =
  cas_state :: "('k, 'c) CaState option"
  cas_db :: ca_db

definition CaService_new :: "ca_db \<Rightarrow> ('k, 'c) CaService" where
  "CaService_new db = \<lparr>cas_state = None, cas_db = db\<rparr>"

definition CaService_init ::
  "('k, 'c, 'r) rcgen \<Rightarrow> string option \<Rightarrow> 'k ca_env \<Rightarrow> ('k, 'c) CaService \<Rightarrow> unit result \<times> ('k, 'c) CaService" where
  "CaService_init R migrate_err env s =
     (case migrate_err of
        Some e \<Rightarrow> (Err (''Failed to run CA migrations: '' @ e), s)
      | None \<Rightarrow>
          (case load_or_generate_ca R env (cas_db s) of
             (Err e, db) \<Rightarrow> (Err e, s\<lparr>cas_db := db\<rparr>)
           | (Ok state, db) \<Rightarrow> (Ok (), s\<lparr>cas_state := Some state, cas_db := db\<rparr>)))"

text \<open>\<open>options\<close> is the outcome of parsing the database URL and \<open>opened\<close> the database behind the pool.\<close>

definition CaService_register ::
  "('k, 'c, 'r) rcgen \<Rightarrow> unit result \<Rightarrow> ca_db result \<Rightarrow> string option \<Rightarrow> 'k ca_env \<Rightarrow> ('k, 'c) CaService result" where
  "CaService_register R options opened migrate_err env =
     (case options of
        Err e \<Rightarrow> Err (''Invalid database URL: '' @ e)
      | Ok _ \<Rightarrow>
          (case opened of
             Err e \<Rightarrow> Err (''Failed to open CA database: '' @ e)
           | Ok db \<Rightarrow>
               (case CaService_init R migrate_err env (CaService_new db) of
                  (Err e, s) \<Rightarrow> Err e
                | (Ok _, s) \<Rightarrow> Ok s)))"

fun upsert_device :: "device_row \<Rightarrow> device_row list \<Rightarrow> device_row list" where
  "upsert_device r [] = [r]"
| "upsert_device r (q # qs) =
     (if dr_device_id q = dr_device_id r then r # qs else q # upsert_device r qs)"

definition sign_csr ::
  "('k, 'c, 'r) rcgen \<Rightarrow> 'k ca_env \<Rightarrow> string \<Rightarrow> string \<Rightarrow> ('k, 'c) CaService \<Rightarrow> string result \<times> ('k, 'c) CaService" where
  "sign_csr R env device_id csr_pem s =
     (case cas_state s of
        None \<Rightarrow> (Err ''CA not initialised'', s)
      | Some ca \<Rightarrow>
          (case operations_sign_csr R env ca csr_pem of
             Err e \<Rightarrow> (Err e, s)
           | Ok (cert, issued_at, expires_at) \<Rightarrow>
               (case ce_exec_err env of
                  Some e \<Rightarrow> (Err (''Failed to persist device cert: '' @ e), s)
                | None \<Rightarrow>
                    (Ok cert,
                     s\<lparr>cas_db := (cas_db s)\<lparr>db_device_certs :=
                         upsert_device \<lparr>dr_device_id = device_id, dr_cert_pem = cert, dr_issued_at = issued_at,
                                        dr_expires_at = expires_at, dr_revoked = 0\<rparr>
                           (db_device_certs (cas_db s))\<rparr>\<rparr>))))"

definition find_device :: "string \<Rightarrow> ca_db \<Rightarrow> device_row option" where
  "find_device device_id db = find (\<lambda>r. dr_device_id r = device_id) (db_device_certs db)"

definition get_cert :: "'k ca_env \<Rightarrow> string \<Rightarrow> ('k, 'c) CaService \<Rightarrow> string option result" where
  "get_cert env device_id s =
     (case ce_query_err env of
        Some e \<Rightarrow> Err (''Failed to query device cert: '' @ e)
      | None \<Rightarrow> Ok (map_option dr_cert_pem (find_device device_id (cas_db s))))"

definition list_devices :: "'k ca_env \<Rightarrow> ('k, 'c) CaService \<Rightarrow> DeviceCertRecord list result" where
  "list_devices env s =
     (case ce_query_err env of
        Some e \<Rightarrow> Err (''Failed to list device certs: '' @ e)
      | None \<Rightarrow> Ok (map (\<lambda>r. \<lparr>rec_device_id = dr_device_id r, rec_cert_pem = dr_cert_pem r,
                  rec_issued_at = dr_issued_at r, rec_expires_at = dr_expires_at r,
                  rec_revoked = (dr_revoked r \<noteq> 0)\<rparr>) (db_device_certs (cas_db s))))"

definition revoke :: "'k ca_env \<Rightarrow> string \<Rightarrow> ('k, 'c) CaService \<Rightarrow> unit result \<times> ('k, 'c) CaService" where
  "revoke env device_id s =
     (case ce_exec_err env of
        Some e \<Rightarrow> (Err (''Failed to revoke device cert: '' @ e), s)
      | None \<Rightarrow>
          let rows = db_device_certs (cas_db s);
              rows_affected = length (filter (\<lambda>r. dr_device_id r = device_id) rows);
              s1 = s\<lparr>cas_db := (cas_db s)\<lparr>db_device_certs :=
                     map (\<lambda>r. if dr_device_id r = device_id then r\<lparr>dr_revoked := 1\<rparr> else r) rows\<rparr>\<rparr>
          in if rows_affected = 0 then (Err (''Unknown device: '' @ device_id), s1) else (Ok (), s1))"

definition is_revoked :: "'k ca_env \<Rightarrow> string \<Rightarrow> ('k, 'c) CaService \<Rightarrow> bool result" where
  "is_revoked env device_id s =
     (case ce_query_err env of
        Some e \<Rightarrow> Err (''Failed to query revocation status: '' @ e)
      | None \<Rightarrow> Ok (case find_device device_id (cas_db s) of Some r \<Rightarrow> dr_revoked r \<noteq> 0 | None \<Rightarrow> False))"

definition ca_cert_pem :: "('k, 'c, 'r) rcgen \<Rightarrow> ('k, 'c) CaService \<Rightarrow> string result" where
  "ca_cert_pem R s =
     (case cas_state s of None \<Rightarrow> Err ''CA not initialised'' | Some ca \<Rightarrow> Ok (cert_pem R (ca_cert ca)))"

definition generate_broker_cert ::
  "('k, 'c, 'r) rcgen \<Rightarrow> 'k ca_env \<Rightarrow> IpAddr list \<Rightarrow> string list \<Rightarrow> ('k, 'c) CaService \<Rightarrow> (string \<times> string) result" where
  "generate_broker_cert R env san_ips san_hostnames s =
     (case cas_state s of
        None \<Rightarrow> Err ''CA not initialised''
      | Some ca \<Rightarrow> generate_broker_identity R env ca san_ips san_hostnames)"

definition ensure_node_identity ::
  "('k, 'c, 'r) rcgen \<Rightarrow> 'k ca_env \<Rightarrow> ('k, 'c) CaService \<Rightarrow> (string \<times> string) result \<times> ('k, 'c) CaService" where
  "ensure_node_identity R env s =
     (case ce_query_err env of
        Some e \<Rightarrow> (Err (''Failed to query node identity: '' @ e), s)
      | None \<Rightarrow>
          (case db_node_identity (cas_db s) of
             Some row \<Rightarrow> (Ok (nr_cert_pem row, nr_key_pem row), s)
           | None \<Rightarrow>
               (case cas_state s of
                  None \<Rightarrow> (Err ''CA not initialised'', s)
                | Some ca \<Rightarrow>
                    (case generate_node_identity R env ca of
                       Err e \<Rightarrow> (Err e, s)
                     | Ok (cert, key, issued_at, expires_at) \<Rightarrow>
                         (case ce_exec_err env of
                            Some e \<Rightarrow> (Err (''Failed to persist node identity: '' @ e), s)
                          | None \<Rightarrow>
                              (Ok (cert, key),
                               s\<lparr>cas_db := (cas_db s)\<lparr>db_node_identity := Some \<lparr>nr_cert_pem = cert,
                                   nr_key_pem = key, nr_issued_at = issued_at, nr_expires_at = expires_at\<rparr>\<rparr>\<rparr>))))))"

section \<open>The device table\<close>

definition devices_inv :: "('k, 'c) CaService \<Rightarrow> bool" where
  "devices_inv s \<longleftrightarrow> distinct (map dr_device_id (db_device_certs (cas_db s)))"

lemma upsert_find:
  "find (\<lambda>q. dr_device_id q = d) (upsert_device r rows) =
     (if d = dr_device_id r then Some r else find (\<lambda>q. dr_device_id q = d) rows)"
  by (induction rows) auto

lemma upsert_ids: "dr_device_id ` set (upsert_device r rows) = insert (dr_device_id r) (dr_device_id ` set rows)"
  by (induction rows) auto

lemma upsert_distinct: "distinct (map dr_device_id rows) \<Longrightarrow> distinct (map dr_device_id (upsert_device r rows))"
  by (induction rows) (auto simp: upsert_ids)

lemma find_map_revoke:
  "find (\<lambda>q. dr_device_id q = d) (map (\<lambda>r. if dr_device_id r = e then r\<lparr>dr_revoked := 1\<rparr> else r) rows) =
     map_option (\<lambda>r. if d = e then r\<lparr>dr_revoked := 1\<rparr> else r) (find (\<lambda>q. dr_device_id q = d) rows)"
  by (induction rows) auto

lemma sign_csr_cases:
  obtains (failed) e where "sign_csr R env d csr s = (Err e, s)"
  | (signed) cert now where "sign_csr R env d csr s =
      (Ok cert, s\<lparr>cas_db := (cas_db s)\<lparr>db_device_certs :=
         upsert_device \<lparr>dr_device_id = d, dr_cert_pem = cert, dr_issued_at = now,
           dr_expires_at = year_later now, dr_revoked = 0\<rparr> (db_device_certs (cas_db s))\<rparr>\<rparr>)"
    "now = unix_secs (ce_clock env)"
proof (cases "cas_state s")
  case None
  then show ?thesis by (intro failed) (simp add: sign_csr_def)
next
  case (Some ca)
  show ?thesis
  proof (cases "operations_sign_csr R env ca csr")
    case (Inl e)
    with Some show ?thesis by (intro failed) (simp add: sign_csr_def)
  next
    case (Inr p)
    then obtain cert where p: "p = (cert, unix_secs (ce_clock env), year_later (unix_secs (ce_clock env)))"
      by (auto simp: operations_sign_csr_def Let_def split: sum.splits)
    show ?thesis
    proof (cases "ce_exec_err env")
      case None
      with Some Inr p show ?thesis by (intro signed [of cert]) (simp_all add: sign_csr_def)
    next
      case (Some e)
      with \<open>cas_state s = Some ca\<close> Inr p show ?thesis by (intro failed) (simp add: sign_csr_def)
    qed
  qed
qed

lemma devices_inv_sign: "devices_inv s \<Longrightarrow> devices_inv (snd (sign_csr R env d csr s))"
  by (cases rule: sign_csr_cases [of R env d csr s]) (auto simp: devices_inv_def upsert_distinct)

lemma devices_inv_revoke: "devices_inv s \<Longrightarrow> devices_inv (snd (revoke env d s))"
  by (auto simp: devices_inv_def revoke_def Let_def comp_def if_distrib [of dr_device_id] cong: if_cong
      split: option.splits)

lemma upsert_filter_same:
  "distinct (map dr_device_id rows) \<Longrightarrow>
   filter (\<lambda>q. dr_device_id q = dr_device_id r) (upsert_device r rows) = [r]"
  by (induction rows) (auto simp: filter_empty_conv image_iff)

lemma upsert_filter_other:
  "filter (\<lambda>q. dr_device_id q \<noteq> dr_device_id r) (upsert_device r rows) =
   filter (\<lambda>q. dr_device_id q \<noteq> dr_device_id r) rows"
  by (induction rows) auto

definition device_record :: "device_row \<Rightarrow> DeviceCertRecord" where
  "device_record r = \<lparr>rec_device_id = dr_device_id r, rec_cert_pem = dr_cert_pem r, rec_issued_at = dr_issued_at r,
     rec_expires_at = dr_expires_at r, rec_revoked = (dr_revoked r \<noteq> 0)\<rparr>"

definition ok_query :: "'k ca_env \<Rightarrow> bool" where
  "ok_query env \<longleftrightarrow> ce_query_err env = None"

section \<open>Any sequence of operations\<close>

text \<open>
  Everything that can happen to the service and its database: the operations that write, in any
  order and with any environment (so also failing ones), further initialisations, and restarts, after
  which a new service runs on the same database.
\<close>

datatype 'k ca_op =
    OpInit "string option" "'k ca_env"
  | OpSign "'k ca_env" string string
  | OpRevoke "'k ca_env" string
  | OpEnsureIdentity "'k ca_env"
  | OpRestart

fun ca_step :: "('k, 'c, 'r) rcgen \<Rightarrow> 'k ca_op \<Rightarrow> ('k, 'c) CaService \<Rightarrow> ('k, 'c) CaService" where
  "ca_step R (OpInit migrate_err env) s = snd (CaService_init R migrate_err env s)"
| "ca_step R (OpSign env device_id csr) s = snd (sign_csr R env device_id csr s)"
| "ca_step R (OpRevoke env device_id) s = snd (revoke env device_id s)"
| "ca_step R (OpEnsureIdentity env) s = snd (ensure_node_identity R env s)"
| "ca_step R OpRestart s = CaService_new (cas_db s)"

definition ca_run :: "('k, 'c, 'r) rcgen \<Rightarrow> 'k ca_op list \<Rightarrow> ('k, 'c) CaService \<Rightarrow> ('k, 'c) CaService" where
  "ca_run R ops s = fold (ca_step R) ops s"

lemma ca_run_invariant:
  assumes "\<And>op s. P s \<Longrightarrow> P (ca_step R op s)" and "P s"
  shows "P (ca_run R ops s)"
  using assms(2) unfolding ca_run_def by (induction ops arbitrary: s) (auto simp: assms(1))

lemma sign_csr_keeps:
  "cas_state (snd (sign_csr R env d csr s)) = cas_state s"
  "db_ca_keys (cas_db (snd (sign_csr R env d csr s))) = db_ca_keys (cas_db s)"
  "db_node_identity (cas_db (snd (sign_csr R env d csr s))) = db_node_identity (cas_db s)"
  by (cases rule: sign_csr_cases [of R env d csr s]; simp)+

lemma revoke_keeps:
  "cas_state (snd (revoke env d s)) = cas_state s"
  "db_ca_keys (cas_db (snd (revoke env d s))) = db_ca_keys (cas_db s)"
  "db_node_identity (cas_db (snd (revoke env d s))) = db_node_identity (cas_db s)"
  by (simp_all add: revoke_def Let_def split: option.splits)

lemma ensure_node_identity_keeps:
  "cas_state (snd (ensure_node_identity R env s)) = cas_state s"
  "db_ca_keys (cas_db (snd (ensure_node_identity R env s))) = db_ca_keys (cas_db s)"
  "db_node_identity (cas_db s) \<noteq> None \<Longrightarrow> snd (ensure_node_identity R env s) = s"
  by (auto simp: ensure_node_identity_def split: option.splits sum.splits)

lemma CaService_init_keeps:
  "db_node_identity (cas_db (snd (CaService_init R m env s))) = db_node_identity (cas_db s)"
  by (auto simp: CaService_init_def load_or_generate_ca_def generate_and_persist_ca_def
      split: option.splits sum.splits prod.splits)

lemma CaService_init_stored_key:
  assumes "db_ca_keys (cas_db s) = Some (cpem, key_pem R key)" and "key_from_pem R (key_pem R key) = Ok key"
    and "CaService_init R m env s = (r, s')"
  shows "cas_db s' = cas_db s" and "r = Ok () \<Longrightarrow> map_option ca_key_pair (cas_state s') = Some key"
    and "r \<noteq> Ok () \<Longrightarrow> s' = s"
  using assms
  by (auto simp: CaService_init_def load_or_generate_ca_def load_ca_from_db_def split: option.splits sum.splits prod.splits)

lemma node_identity_step:
  "db_node_identity (cas_db s) = Some row \<Longrightarrow> db_node_identity (cas_db (ca_step R op s)) = Some row"
  by (cases op) (simp_all add: sign_csr_keeps revoke_keeps ensure_node_identity_keeps CaService_init_keeps CaService_new_def)

lemma node_identity_run:
  "db_node_identity (cas_db s) = Some row \<Longrightarrow> db_node_identity (cas_db (ca_run R ops s)) = Some row"
  by (rule ca_run_invariant [where P = "\<lambda>s. db_node_identity (cas_db s) = Some row"]) (rule node_identity_step)

text \<open>The root key in the database, and the one in use if there is one, are this key.\<close>

definition runs_with_key :: "('k, 'c, 'r) rcgen \<Rightarrow> string \<Rightarrow> 'k \<Rightarrow> ('k, 'c) CaService \<Rightarrow> bool" where
  "runs_with_key R cpem key s \<longleftrightarrow> db_ca_keys (cas_db s) = Some (cpem, key_pem R key) \<and>
     map_option ca_key_pair (cas_state s) \<in> {None, Some key}"

lemma runs_with_key_step:
  assumes "key_from_pem R (key_pem R key) = Ok key" and "runs_with_key R cpem key s"
  shows "runs_with_key R cpem key (ca_step R op s)"
proof (cases op)
  case (OpInit m env)
  obtain r s' where i: "CaService_init R m env s = (r, s')" by fastforce
  have db: "db_ca_keys (cas_db s) = Some (cpem, key_pem R key)" using assms(2) by (simp add: runs_with_key_def)
  show ?thesis
    using CaService_init_stored_key [OF db assms(1) i] assms(2)
    by (cases "r = Ok ()") (simp_all add: OpInit i runs_with_key_def)
qed (use assms(2) in \<open>simp_all add: runs_with_key_def sign_csr_keeps revoke_keeps ensure_node_identity_keeps CaService_new_def\<close>)

section \<open>Properties\<close>

text \<open>Claim C15. A device that was issued a certificate finds exactly this certificate afterwards and is
  not revoked; the list of devices has one entry for it, with the certificate, a validity of 365 days
  from the clock of the signing and no revocation mark, and otherwise the entries it had before, in
  order. The lookups of all other devices are unchanged. If signing fails, nothing was stored.\<close>

theorem issued_cert_is_found:
  assumes "devices_inv s" and "sign_csr R env d csr s = (r, s')" and "ok_query env'"
    and "0 \<le> ce_clock env" and "ce_clock env < 2 ^ 62"
  shows "(case r of
      Ok cert \<Rightarrow> get_cert env' d s' = Ok (Some cert) \<and> is_revoked env' d s' = Ok False \<and>
        (\<exists>before after. list_devices env' s = Ok before \<and> list_devices env' s' = Ok after \<and>
          filter (\<lambda>q. rec_device_id q = d) after =
            [\<lparr>rec_device_id = d, rec_cert_pem = cert, rec_issued_at = ce_clock env,
              rec_expires_at = ce_clock env + 31536000, rec_revoked = False\<rparr>] \<and>
          filter (\<lambda>q. rec_device_id q \<noteq> d) after = filter (\<lambda>q. rec_device_id q \<noteq> d) before)
    | Err e \<Rightarrow> s' = s) \<and>
    devices_inv s' \<and> (\<forall>d'. d' \<noteq> d \<longrightarrow> find_device d' (cas_db s') = find_device d' (cas_db s))"
proof (cases rule: sign_csr_cases [of R env d csr s])
  case (failed e)
  with assms show ?thesis by auto
next
  case (signed cert now)
  let ?r = "\<lparr>dr_device_id = d, dr_cert_pem = cert, dr_issued_at = now, dr_expires_at = year_later now, dr_revoked = 0\<rparr>"
  let ?rows = "db_device_certs (cas_db s)"
  have now: "now = ce_clock env" "year_later now = ce_clock env + 31536000"
    using assms(4,5) signed(2) by (simp_all add: unix_secs_def year_later_def wrap_i64_id)
  have rows: "db_device_certs (cas_db s') = upsert_device ?r ?rows" and r: "r = Ok cert"
    using assms(2) signed(1) by auto
  have inv: "devices_inv s'" using devices_inv_sign [OF assms(1), of R env d csr] assms(2) by simp
  have f: "find_device d' (cas_db s') = (if d' = d then Some ?r else find_device d' (cas_db s))" for d'
    by (simp add: find_device_def rows upsert_find)
  have one: "filter (\<lambda>q. dr_device_id q = d) (upsert_device ?r ?rows) = [?r]"
    using upsert_filter_same [OF assms(1) [unfolded devices_inv_def], of ?r] by simp
  have rest: "filter (\<lambda>q. dr_device_id q \<noteq> d) (upsert_device ?r ?rows) = filter (\<lambda>q. dr_device_id q \<noteq> d) ?rows"
    using upsert_filter_other [of ?r ?rows] by simp
  have "list_devices env' u = Ok (map device_record (db_device_certs (cas_db u)))" for u :: "('a, 'b) CaService"
    using assms(3) by (simp add: list_devices_def ok_query_def device_record_def)
  moreover have "filter (\<lambda>q. rec_device_id q = d) (map device_record xs) = map device_record (filter (\<lambda>q. dr_device_id q = d) xs)"
    "filter (\<lambda>q. rec_device_id q \<noteq> d) (map device_record xs) = map device_record (filter (\<lambda>q. dr_device_id q \<noteq> d) xs)" for xs
    by (simp_all add: filter_map comp_def device_record_def)
  ultimately have "list_devices env' s = Ok (map device_record ?rows)"
    "list_devices env' s' = Ok (map device_record (upsert_device ?r ?rows))"
    "filter (\<lambda>q. rec_device_id q = d) (map device_record (upsert_device ?r ?rows)) = [device_record ?r]"
    "filter (\<lambda>q. rec_device_id q \<noteq> d) (map device_record (upsert_device ?r ?rows)) =
      filter (\<lambda>q. rec_device_id q \<noteq> d) (map device_record ?rows)"
    by (simp_all add: rows one rest)
  moreover have "device_record ?r = \<lparr>rec_device_id = d, rec_cert_pem = cert, rec_issued_at = ce_clock env,
      rec_expires_at = ce_clock env + 31536000, rec_revoked = False\<rparr>"
    unfolding device_record_def now(2) using now(1) by simp
  ultimately show ?thesis
    using f inv assms(3) by (simp add: r get_cert_def is_revoked_def ok_query_def)
qed

text \<open>A signing library whose certificates and keys are their own PEM texts, and an initialised service.\<close>

definition demo_rcgen :: "(string, string, string) rcgen" where
  "demo_rcgen = \<lparr>default_params = \<lparr>cp_is_ca = False, cp_key_usages = [], cp_common_name = [],
       cp_organization = [], cp_extended = [], cp_sans = []\<rparr>,
     key_from_pem = Ok, key_pem = id, params_from_ca_pem = (\<lambda>t. Ok \<lparr>cp_is_ca = True, cp_key_usages = [],
       cp_common_name = t, cp_organization = [], cp_extended = [], cp_sans = []\<rparr>),
     self_signed = (\<lambda>p k. Ok (cp_common_name p)), signed_by = (\<lambda>p k c ck. Ok (cp_common_name p)),
     cert_pem = id, csr_from_pem = Ok, csr_signed_by = (\<lambda>r c k. Ok (r @ '' signed'')), ia5_string = (\<lambda>_. True)\<rparr>"

definition demo_ca_env :: "int \<Rightarrow> string \<Rightarrow> string ca_env" where
  "demo_ca_env clock key = \<lparr>ce_query_err = None, ce_exec_err = None, ce_generated = Ok key, ce_clock = clock,
     ce_unique_msg = ''UNIQUE constraint failed: ca_keys.id''\<rparr>"

definition demo_ca :: "(string, string) CaService" where
  "demo_ca = \<lparr>cas_state = Some \<lparr>ca_subject_cn = CA_CN, ca_cert = ''root'', ca_key_pair = ''key''\<rparr>,
     cas_db = \<lparr>db_ca_keys = Some (''root'', ''key''), db_device_certs = [], db_node_identity = None\<rparr>\<rparr>"

lemmas demo_ca_defs = demo_rcgen_def demo_ca_env_def demo_ca_def

theorem issued_cert_is_found_witness:
  "\<exists>s'. sign_csr demo_rcgen (demo_ca_env 1000 []) ''beacon-1'' ''csr'' demo_ca = (Ok ''csr signed'', s') \<and>
     get_cert (demo_ca_env 2000 []) ''beacon-1'' s' = Ok (Some ''csr signed'')"
proof -
  obtain s' where run: "sign_csr demo_rcgen (demo_ca_env 1000 []) ''beacon-1'' ''csr'' demo_ca = (Ok ''csr signed'', s')"
    by (simp add: sign_csr_def operations_sign_csr_def demo_ca_defs Let_def)
  have "devices_inv demo_ca" "ok_query (demo_ca_env 2000 [])"
    by (simp_all add: devices_inv_def ok_query_def demo_ca_defs)
  with issued_cert_is_found [OF this(1) run this(2)] run show ?thesis by (simp add: demo_ca_env_def)
qed

text \<open>Claim C17. Revoking a known device marks it and only it, and keeps its certificate on record;
  revoking an unknown device is an error that changes nothing. A later signing request of the same
  device clears the mark: revocation does not outlive a new handshake.\<close>

theorem revocation_lifetime:
  assumes "devices_inv s" and "ok_query env'" and "ce_exec_err env = None"
    and "revoke env d s = (r, s1)" and "sign_csr R env2 d csr s1 = (Ok cert, s2)"
  shows "(case find_device d (cas_db s) of
      None \<Rightarrow> r = Err (''Unknown device: '' @ d) \<and> s1 = s
    | Some q \<Rightarrow> r = Ok () \<and> is_revoked env' d s1 = Ok True \<and> get_cert env' d s1 = Ok (Some (dr_cert_pem q))) \<and>
    (\<forall>d'. d' \<noteq> d \<longrightarrow> find_device d' (cas_db s1) = find_device d' (cas_db s)) \<and>
    is_revoked env' d s2 = Ok False"
proof -
  let ?rows = "db_device_certs (cas_db s)"
  have s1: "cas_db s1 = (cas_db s)\<lparr>db_device_certs :=
      map (\<lambda>r. if dr_device_id r = d then r\<lparr>dr_revoked := 1\<rparr> else r) ?rows\<rparr>" "cas_state s1 = cas_state s"
    and r: "r = (if filter (\<lambda>r. dr_device_id r = d) ?rows = [] then Err (''Unknown device: '' @ d) else Ok ())"
    using assms(3,4) by (auto simp: revoke_def Let_def split: if_splits)
  have f: "find_device d' (cas_db s1) =
      (if d' = d then map_option (\<lambda>r. r\<lparr>dr_revoked := 1\<rparr>) (find_device d' (cas_db s)) else find_device d' (cas_db s))" for d'
    by (simp add: find_device_def s1 find_map_revoke option.map_ident)
  have known: "find_device d (cas_db s) = None \<longleftrightarrow> filter (\<lambda>r. dr_device_id r = d) ?rows = []"
    by (auto simp: find_device_def find_None_iff filter_empty_conv)
  have "s1 = s" if "find_device d (cas_db s) = None"
  proof -
    have "map (\<lambda>r. if dr_device_id r = d then r\<lparr>dr_revoked := 1\<rparr> else r) ?rows = ?rows"
      using that by (intro map_idI) (auto simp: find_device_def find_None_iff)
    then show ?thesis using s1 by simp
  qed
  moreover have "is_revoked env' d s2 = Ok False"
    using assms(2,5) by (cases rule: sign_csr_cases [of R env2 d csr s1])
      (auto simp: is_revoked_def ok_query_def find_device_def upsert_find)
  ultimately show ?thesis
    using r known f assms(2) by (auto simp: is_revoked_def get_cert_def ok_query_def split: option.splits)
qed

theorem revocation_lifetime_witness:
  "\<exists>s0 s1 s2. sign_csr demo_rcgen (demo_ca_env 1000 []) ''beacon-1'' ''csr'' demo_ca = (Ok ''csr signed'', s0) \<and>
     revoke (demo_ca_env 1500 []) ''beacon-1'' s0 = (Ok (), s1) \<and> is_revoked (demo_ca_env 0 []) ''beacon-1'' s1 = Ok True \<and>
     sign_csr demo_rcgen (demo_ca_env 2000 []) ''beacon-1'' ''csr2'' s1 = (Ok ''csr2 signed'', s2) \<and>
     is_revoked (demo_ca_env 0 []) ''beacon-1'' s2 = Ok False"
proof -
  obtain s0 where s0: "sign_csr demo_rcgen (demo_ca_env 1000 []) ''beacon-1'' ''csr'' demo_ca = (Ok ''csr signed'', s0)"
    and st: "cas_state s0 = cas_state demo_ca" and row: "find_device ''beacon-1'' (cas_db s0) \<noteq> None"
    by (simp add: sign_csr_def operations_sign_csr_def demo_ca_defs Let_def find_device_def)
  obtain r s1 where s1: "revoke (demo_ca_env 1500 []) ''beacon-1'' s0 = (r, s1)" by fastforce
  then have "cas_state s1 = cas_state demo_ca"
    using st by (auto simp: revoke_def Let_def demo_ca_env_def split: if_splits)
  then obtain s2 where s2: "sign_csr demo_rcgen (demo_ca_env 2000 []) ''beacon-1'' ''csr2'' s1 = (Ok ''csr2 signed'', s2)"
    by (simp add: sign_csr_def operations_sign_csr_def demo_ca_defs Let_def)
  have "devices_inv demo_ca" by (simp add: devices_inv_def demo_ca_def)
  then have "devices_inv s0" using devices_inv_sign s0 by (metis snd_conv)
  moreover have "ok_query (demo_ca_env 0 [])" "ce_exec_err (demo_ca_env 1500 []) = None"
    by (simp_all add: ok_query_def demo_ca_env_def)
  ultimately show ?thesis using revocation_lifetime [OF _ _ _ s1 s2, of "demo_ca_env 0 []"] row s0 s1 s2
    by (auto split: option.splits)
qed

text \<open>Claim C8. The node's identity is stable: once \<^verbatim>\<open>ensure_node_identity\<close> has returned a certificate and
  key, whatever happens to the service and its database afterwards (certificates signed and revoked,
  initialisations, restarts, in any order and with any failures), every later call whose query works
  returns the same pair and changes nothing, whatever the clock, the key generator and the signing
  library do.\<close>

theorem node_identity_stable:
  assumes "ensure_node_identity R env s = (Ok pair, s')" and "t = ca_run R' ops s'" and "ok_query env'"
  shows "ensure_node_identity R'' env' t = (Ok pair, t)"
proof -
  have "map_option (\<lambda>row. (nr_cert_pem row, nr_key_pem row)) (db_node_identity (cas_db s')) = Some pair"
    using assms(1) by (auto simp: ensure_node_identity_def split: option.splits sum.splits)
  then obtain row where row: "db_node_identity (cas_db s') = Some row" "pair = (nr_cert_pem row, nr_key_pem row)"
    by auto
  with node_identity_run [OF row(1), of R' ops] assms(2,3) show ?thesis
    by (simp add: ensure_node_identity_def ok_query_def)
qed

theorem node_identity_stable_witness:
  "\<exists>pair s'. ensure_node_identity demo_rcgen (demo_ca_env 1000 ''k1'') demo_ca = (Ok pair, s') \<and>
     fst (ensure_node_identity demo_rcgen (demo_ca_env 9000 ''k2'')
       (ca_run demo_rcgen [OpSign (demo_ca_env 2000 []) ''b'' ''csr'', OpRestart] s')) = Ok pair"
proof -
  obtain pair s' where run: "ensure_node_identity demo_rcgen (demo_ca_env 1000 ''k1'') demo_ca = (Ok pair, s')"
    by (simp add: ensure_node_identity_def generate_node_identity_def demo_ca_defs Let_def)
  have "ok_query (demo_ca_env 9000 ''k2'')" by (simp add: ok_query_def demo_ca_env_def)
  from node_identity_stable [OF run refl this, of demo_rcgen demo_rcgen] run show ?thesis by (metis fst_conv)
qed

text \<open>Claim C16. The root key survives: a service initialised on an empty database stores its key, and
  whatever happens afterwards (signing, revoking, further initialisations, restarts, in any order and
  with any failures), the stored key stays, a service that is initialised runs with that key, and
  every initialisation that succeeds does so with that key, provided the library reads back
  the key it printed. Before initialisation the operations of the service that need the CA are
  refused and change nothing: signing a request, reading the CA certificate, generating a broker
  certificate, and creating a node identity where none is stored.\<close>

theorem root_key_survives_restart:
  assumes "db_ca_keys (cas_db s) = None" and "CaService_init R None env s = (Ok (), s1)"
    and "\<And>k. key_from_pem R (key_pem R k) = Ok k"
    and "t = ca_run R ops s1" and "ok_query env" and "db_node_identity db = None"
  shows "\<exists>key. map_option ca_key_pair (cas_state s1) = Some key \<and> db_ca_keys (cas_db t) = db_ca_keys (cas_db s1) \<and>
    (cas_state t = None \<or> map_option ca_key_pair (cas_state t) = Some key) \<and>
    (\<forall>m env' t'. CaService_init R m env' t = (Ok (), t') \<longrightarrow>
       map_option ca_key_pair (cas_state t') = Some key \<and> cas_db t' = cas_db t) \<and>
    sign_csr R env d csr (CaService_new db) = (Err ''CA not initialised'', CaService_new db) \<and>
    ca_cert_pem R (CaService_new db) = Err ''CA not initialised'' \<and>
    generate_broker_cert R env ips hosts (CaService_new db) = Err ''CA not initialised'' \<and>
    ensure_node_identity R env (CaService_new db) = (Err ''CA not initialised'', CaService_new db)"
proof -
  from assms(1,2) obtain key cert where k: "cas_state s1 = Some \<lparr>ca_subject_cn = CA_CN, ca_cert = cert, ca_key_pair = key\<rparr>"
    "db_ca_keys (cas_db s1) = Some (cert_pem R cert, key_pem R key)"
    by (auto simp: CaService_init_def load_or_generate_ca_def load_ca_from_db_def generate_and_persist_ca_def
        split: option.splits sum.splits prod.splits)
  then have "runs_with_key R (cert_pem R cert) key s1" by (simp add: runs_with_key_def)
  then have t: "runs_with_key R (cert_pem R cert) key t"
    unfolding assms(4) by (intro ca_run_invariant [where P = "runs_with_key R (cert_pem R cert) key"] runs_with_key_step assms(3))
  then have db: "db_ca_keys (cas_db t) = Some (cert_pem R cert, key_pem R key)" by (simp add: runs_with_key_def)
  have "map_option ca_key_pair (cas_state t') = Some key \<and> cas_db t' = cas_db t"
    if "CaService_init R m env' t = (Ok (), t')" for m env' t'
    using CaService_init_stored_key [OF db assms(3) that] by simp
  with t k db assms(5,6) show ?thesis
    by (auto simp: runs_with_key_def sign_csr_def ca_cert_pem_def generate_broker_cert_def ensure_node_identity_def
        CaService_new_def ok_query_def)
qed

theorem root_key_survives_restart_witness:
  "\<exists>s1 s2. CaService_init demo_rcgen None (demo_ca_env 0 ''secret'')
      (CaService_new \<lparr>db_ca_keys = None, db_device_certs = [], db_node_identity = None\<rparr>) = (Ok (), s1) \<and>
    s2 = ca_run demo_rcgen [OpSign (demo_ca_env 3 []) ''b'' ''csr'', OpRestart, OpInit None (demo_ca_env 5 ''other'')] s1 \<and>
    (cas_state s2 = None \<or> map_option ca_key_pair (cas_state s2) = map_option ca_key_pair (cas_state s1))"
proof -
  let ?db = "\<lparr>db_ca_keys = None, db_device_certs = [], db_node_identity = None\<rparr>"
  let ?s = "CaService_new ?db :: (string, string) CaService"
  obtain s1 where s1: "CaService_init demo_rcgen None (demo_ca_env 0 ''secret'') ?s = (Ok (), s1)"
    by (simp add: CaService_init_def CaService_new_def load_or_generate_ca_def load_ca_from_db_def
        generate_and_persist_ca_def ca_params_def demo_ca_defs)
  have "db_ca_keys (cas_db ?s) = None" "ok_query (demo_ca_env 0 ''secret'')" "db_node_identity ?db = None"
    by (simp_all add: CaService_new_def ok_query_def demo_ca_env_def)
  moreover have "key_from_pem demo_rcgen (key_pem demo_rcgen k) = Ok k" for k by (simp add: demo_rcgen_def)
  ultimately show ?thesis using root_key_survives_restart [OF _ s1 _ refl] s1 by metis
qed

end
