(* ===== verification/Registry.thy ===== *)
theory Registry
  imports Hamlet_Prelude
begin

text \<open>
  The beacon registry (\<^verbatim>\<open>src/services/beacon_management/registry.rs\<close>) with the topic channels of
  \<^verbatim>\<open>manager.rs\<close> and \<^verbatim>\<open>internals/types.rs\<close>. The state also records the requests made of the MQTT
  client and the shutdown senders that have been dropped, because dropping one closes the gateway
  connection it belongs to. \<^verbatim>\<open>check_timeouts\<close> runs as a branch of \<^verbatim>\<open>tokio::select!\<close> and may be dropped
  at any of its await points, so its model takes the number of awaits that complete first. The lemmas
  give the effect of a sweep that runs to its end as one simultaneous update, and the registry
  invariant every operation keeps.
\<close>

section \<open>Data\<close>

datatype QoS = AtMostOnce | AtLeastOnce | ExactlyOnce

datatype TopicType = Listen | Broadcast | Hybrid

record MqttTopicConfig =
  mt_topic :: string
  mt_qos :: u8

record TopicChannel =
  tc_beacon_id :: string
  tc_topic :: MqttTopicConfig
  tc_topic_type :: TopicType

text \<open>An instant is a number of nanoseconds; a shutdown sender is named by its connection.\<close>

type_synonym instant = nat
type_synonym conn_id = nat

record BeaconRecord =
  listen_topic :: string
  broadcast_topic :: string
  last_seen :: instant
  gateway_url :: "string option"
  gateway_shutdown_tx :: "conn_id option"

datatype mqtt_request = Subscribed string QoS | Unsubscribed string

record BeaconRegistry =
  records :: "(string, BeaconRecord) hmap"
  known_gateways :: "string set"
  broadcast_topics :: "string list"
  mqtt_log :: "mqtt_request list"
  dropped_txs :: "conn_id list"

definition BEACON_TIMEOUT :: instant where
  "BEACON_TIMEOUT = 120 * 1000000000"

section \<open>Operations\<close>

definition registry_new :: "string option \<Rightarrow> string list \<Rightarrow> BeaconRegistry" where
  "registry_new own_gateway_url topics =
     \<lparr>records = [],
      known_gateways = (case own_gateway_url of Some url \<Rightarrow> {url} | None \<Rightarrow> {}),
      broadcast_topics = topics, mqtt_log = [], dropped_txs = []\<rparr>"

definition qos_from_u8 :: "u8 \<Rightarrow> QoS" where
  "qos_from_u8 q = (if q = 0 then AtMostOnce else if q = 2 then ExactlyOnce else AtLeastOnce)"

definition blank_record :: "instant \<Rightarrow> BeaconRecord" where
  "blank_record now = \<lparr>listen_topic = [], broadcast_topic = [], last_seen = now,
     gateway_url = None, gateway_shutdown_tx = None\<rparr>"

definition ensure_record :: "string \<Rightarrow> instant \<Rightarrow> BeaconRegistry \<Rightarrow> BeaconRegistry" where
  "ensure_record i now reg =
     (case hm_get (records reg) i of
        Some _ \<Rightarrow> reg
      | None \<Rightarrow> reg\<lparr>records := hm_insert i (blank_record now) (records reg)\<rparr>)"

text \<open>\<open>sub\<close> is the answer of the MQTT client to the subscribe request, if one is made.\<close>

definition register_channel ::
  "unit result \<Rightarrow> instant \<Rightarrow> TopicChannel \<Rightarrow> BeaconRegistry \<Rightarrow> BeaconRegistry" where
  "register_channel sub now channel reg =
     (let topic = mt_topic (tc_topic channel);
          i = tc_beacon_id channel;
          reg1 = ensure_record i now reg
      in (case tc_topic_type channel of
            Listen \<Rightarrow>
              let reg2 = reg1\<lparr>mqtt_log := mqtt_log reg1 @ [Subscribed topic (qos_from_u8 (mt_qos (tc_topic channel)))]\<rparr>
              in (case sub of
                    Err _ \<Rightarrow> reg2
                  | Ok _ \<Rightarrow> reg2\<lparr>records := hm_adjust i (\<lambda>r. r\<lparr>listen_topic := topic\<rparr>) (records reg2)\<rparr>)
          | Broadcast \<Rightarrow>
              reg1\<lparr>broadcast_topics := broadcast_topics reg1 @ [topic],
                   records := hm_adjust i (\<lambda>r. r\<lparr>broadcast_topic := topic\<rparr>) (records reg1)\<rparr>
          | Hybrid \<Rightarrow>
              let reg2 = reg1\<lparr>mqtt_log := mqtt_log reg1 @ [Subscribed topic (qos_from_u8 (mt_qos (tc_topic channel)))]\<rparr>
              in (case sub of
                    Err _ \<Rightarrow> reg2
                  | Ok _ \<Rightarrow>
                      reg2\<lparr>broadcast_topics := broadcast_topics reg2 @ [topic],
                           records := hm_adjust i (\<lambda>r. r\<lparr>listen_topic := topic, broadcast_topic := topic\<rparr>)
                                        (records reg2)\<rparr>)))"

text \<open>
  A computation that awaits: it either finishes with the awaits left over, or is dropped in some
  state. \<open>unsubscribe_await\<close> makes two awaits (the command is sent, the reply comes back),
  \<open>retain_await\<close> one (the write lock of the topic list).
\<close>

datatype 's run = Finished nat 's | Cancelled 's

definition unsubscribe_await :: "string \<Rightarrow> nat \<Rightarrow> BeaconRegistry \<Rightarrow> BeaconRegistry run" where
  "unsubscribe_await topic n reg =
     (if n = 0 then Cancelled reg
      else let reg1 = reg\<lparr>mqtt_log := mqtt_log reg @ [Unsubscribed topic]\<rparr>
           in if n = 1 then Cancelled reg1 else Finished (n - 2) reg1)"

definition retain_await :: "string \<Rightarrow> nat \<Rightarrow> BeaconRegistry \<Rightarrow> BeaconRegistry run" where
  "retain_await topic n reg =
     (if n = 0 then Cancelled reg
      else Finished (n - 1) (reg\<lparr>broadcast_topics := filter (\<lambda>t. t \<noteq> topic) (broadcast_topics reg)\<rparr>))"

definition drop_record :: "BeaconRecord \<Rightarrow> BeaconRegistry \<Rightarrow> BeaconRegistry" where
  "drop_record r reg =
     (case gateway_shutdown_tx r of
        None \<Rightarrow> reg
      | Some tx \<Rightarrow> reg\<lparr>dropped_txs := dropped_txs reg @ [tx]\<rparr>)"

definition evict_gateway :: "BeaconRecord \<Rightarrow> BeaconRegistry \<Rightarrow> BeaconRegistry" where
  "evict_gateway r reg =
     (case gateway_url r of
        None \<Rightarrow> reg
      | Some url \<Rightarrow> reg\<lparr>known_gateways := known_gateways reg - {url}\<rparr>)"

definition deregister :: "nat \<Rightarrow> string \<Rightarrow> BeaconRegistry \<Rightarrow> BeaconRegistry run" where
  "deregister n i reg =
     (case hm_get (records reg) i of
        None \<Rightarrow> Finished n reg
      | Some r \<Rightarrow>
          (let reg1 = reg\<lparr>records := hm_remove i (records reg)\<rparr>
           in (case (if listen_topic r = [] then Finished n reg1
                     else unsubscribe_await (listen_topic r) n reg1) of
                 Cancelled reg2 \<Rightarrow> Cancelled (drop_record r reg2)
               | Finished n2 reg2 \<Rightarrow>
                   (case (if broadcast_topic r = [] then Finished n2 reg2
                          else retain_await (broadcast_topic r) n2 reg2) of
                      Cancelled reg3 \<Rightarrow> Cancelled (drop_record r reg3)
                    | Finished n3 reg3 \<Rightarrow> Finished n3 (drop_record r (evict_gateway r reg3))))))"

fun sweep_stale :: "nat \<Rightarrow> string list \<Rightarrow> BeaconRegistry \<Rightarrow> BeaconRegistry run" where
  "sweep_stale n [] reg = Finished n reg"
| "sweep_stale n (i # is) reg =
     (case deregister n i reg of
        Cancelled reg1 \<Rightarrow> Cancelled reg1
      | Finished n1 reg1 \<Rightarrow> sweep_stale n1 is reg1)"

definition is_stale :: "instant \<Rightarrow> BeaconRecord \<Rightarrow> bool" where
  "is_stale now r \<longleftrightarrow> BEACON_TIMEOUT < now - last_seen r"

definition stale_ids :: "instant \<Rightarrow> BeaconRegistry \<Rightarrow> string list" where
  "stale_ids now reg = map fst (filter (\<lambda>p. is_stale now (snd p)) (records reg))"

definition check_timeouts :: "nat \<Rightarrow> instant \<Rightarrow> BeaconRegistry \<Rightarrow> BeaconRegistry run" where
  "check_timeouts n now reg =
     (if n = 0 then Cancelled reg else sweep_stale (n - 1) (stale_ids now reg) reg)"

definition update_last_seen :: "string \<Rightarrow> instant \<Rightarrow> BeaconRegistry \<Rightarrow> BeaconRegistry" where
  "update_last_seen i now reg =
     reg\<lparr>records := hm_adjust i (\<lambda>r. r\<lparr>last_seen := now\<rparr>) (records reg)\<rparr>"

definition is_gateway_known :: "string \<Rightarrow> BeaconRegistry \<Rightarrow> bool" where
  "is_gateway_known url reg \<longleftrightarrow> url \<in> known_gateways reg"

definition insert_gateway :: "string \<Rightarrow> BeaconRegistry \<Rightarrow> BeaconRegistry" where
  "insert_gateway url reg = reg\<lparr>known_gateways := insert url (known_gateways reg)\<rparr>"

text \<open>Storing a sender drops the one it replaces; for an unregistered beacon the argument itself is
  dropped when the method returns.\<close>

definition associate_gateway :: "string \<Rightarrow> string \<Rightarrow> conn_id \<Rightarrow> BeaconRegistry \<Rightarrow> BeaconRegistry" where
  "associate_gateway i url tx reg =
     (case hm_get (records reg) i of
        None \<Rightarrow> reg\<lparr>dropped_txs := dropped_txs reg @ [tx]\<rparr>
      | Some r \<Rightarrow>
          (drop_record r reg)\<lparr>records :=
             hm_adjust i (\<lambda>r. r\<lparr>gateway_url := Some url, gateway_shutdown_tx := Some tx\<rparr>) (records reg)\<rparr>)"

section \<open>A completed sweep, all at once\<close>

lemma drop_record_frame [simp]:
  "records (drop_record r reg) = records reg" "known_gateways (drop_record r reg) = known_gateways reg"
  "broadcast_topics (drop_record r reg) = broadcast_topics reg"
  "mqtt_log (drop_record r reg) = mqtt_log reg"
  by (auto simp: drop_record_def split: option.splits)

lemma evict_gateway_frame [simp]:
  "records (evict_gateway r reg) = records reg"
  "broadcast_topics (evict_gateway r reg) = broadcast_topics reg"
  "mqtt_log (evict_gateway r reg) = mqtt_log reg" "dropped_txs (evict_gateway r reg) = dropped_txs reg"
  by (auto simp: evict_gateway_def split: option.splits)

lemma known_evict: "known_gateways (evict_gateway r reg) = known_gateways reg - set_option (gateway_url r)"
  by (auto simp: evict_gateway_def split: option.splits)

lemma dropped_drop_record:
  "dropped_txs (drop_record r reg) = dropped_txs reg @ (case gateway_shutdown_tx r of None \<Rightarrow> [] | Some tx \<Rightarrow> [tx])"
  by (auto simp: drop_record_def split: option.splits)

lemma deregister_enough:
  assumes "hm_get (records reg) i = Some r" and "3 \<le> n"
  shows "\<exists>n' reg'. deregister n i reg = Finished n' reg' \<and> n - 3 \<le> n' \<and>
    records reg' = hm_remove i (records reg) \<and>
    broadcast_topics reg' = filter (\<lambda>t. broadcast_topic r = [] \<or> t \<noteq> broadcast_topic r) (broadcast_topics reg) \<and>
    known_gateways reg' = known_gateways reg - set_option (gateway_url r) \<and>
    set (dropped_txs reg') = set (dropped_txs reg) \<union> set_option (gateway_shutdown_tx r)"
  using assms
  by (auto simp: deregister_def unsubscribe_await_def retain_await_def Let_def known_evict dropped_drop_record
      split: option.splits)

text \<open>The sweep of a set of beacons as one update of the registry.\<close>

definition swept :: "string set \<Rightarrow> BeaconRegistry \<Rightarrow> BeaconRegistry \<Rightarrow> bool" where
  "swept S reg reg' \<longleftrightarrow>
     records reg' = filter (\<lambda>p. fst p \<notin> S) (records reg) \<and>
     broadcast_topics reg' =
       filter (\<lambda>t. \<not> (\<exists>i\<in>S. \<exists>r. hm_get (records reg) i = Some r \<and> broadcast_topic r \<noteq> [] \<and> t = broadcast_topic r))
         (broadcast_topics reg) \<and>
     known_gateways reg' =
       known_gateways reg - {url. \<exists>i\<in>S. \<exists>r. hm_get (records reg) i = Some r \<and> gateway_url r = Some url} \<and>
     set (dropped_txs reg') =
       set (dropped_txs reg) \<union> {tx. \<exists>i\<in>S. \<exists>r. hm_get (records reg) i = Some r \<and> gateway_shutdown_tx r = Some tx}"

lemma sweep_stale_enough:
  assumes "distinct is" and "set is \<subseteq> dom (hm_get (records reg))" and "3 * length is \<le> n"
  shows "\<exists>n' reg'. sweep_stale n is reg = Finished n' reg' \<and> swept (set is) reg reg'"
  using assms
proof (induction "is" arbitrary: n reg)
  case Nil
  then show ?case by (auto simp: swept_def)
next
  case (Cons i "is")
  then obtain r where r: "hm_get (records reg) i = Some r" by auto
  with Cons.prems(3) obtain n1 reg1 where d: "deregister n i reg = Finished n1 reg1" "n - 3 \<le> n1"
    and rec: "records reg1 = hm_remove i (records reg)"
    and top: "broadcast_topics reg1 = filter (\<lambda>t. broadcast_topic r = [] \<or> t \<noteq> broadcast_topic r) (broadcast_topics reg)"
    and gw: "known_gateways reg1 = known_gateways reg - set_option (gateway_url r)"
    and tx: "set (dropped_txs reg1) = set (dropped_txs reg) \<union> set_option (gateway_shutdown_tx r)"
    using deregister_enough [of reg i r n] by auto
  have same: "j \<in> set is \<Longrightarrow> hm_get (records reg1) j = hm_get (records reg) j" for j
    using Cons.prems(1) by (auto simp: rec hmap_laws)
  have "set is \<subseteq> dom (hm_get (records reg1))" using Cons.prems(1,2) by (auto simp: rec hmap_laws)
  moreover have "3 * length is \<le> n1" using Cons.prems(3) d(2) by simp
  ultimately obtain n2 reg2 where s: "sweep_stale n1 is reg1 = Finished n2 reg2" "swept (set is) reg1 reg2"
    using Cons.IH [of reg1 n1] Cons.prems(1) by auto
  have "swept (set (i # is)) reg reg2"
    using s(2) r same unfolding swept_def rec top gw tx hm_remove_def
    by (auto simp: filter_filter conj_commute intro!: filter_cong)
  with d s show ?case by auto
qed

lemma stale_ids_iff:
  "hm_wf (records reg) \<Longrightarrow>
   i \<in> set (stale_ids now reg) \<longleftrightarrow> (\<exists>r. hm_get (records reg) i = Some r \<and> is_stale now r)"
  by (force simp: stale_ids_def hm_get_iff)

lemma distinct_stale_ids: "hm_wf (records reg) \<Longrightarrow> distinct (stale_ids now reg)"
  by (simp add: stale_ids_def hm_wf_def distinct_map_filter)

lemma check_timeouts_enough:
  assumes "hm_wf (records reg)" and "3 * length (stale_ids now reg) < n"
  shows "\<exists>n' reg'. check_timeouts n now reg = Finished n' reg' \<and> swept (set (stale_ids now reg)) reg reg'"
proof -
  have "set (stale_ids now reg) \<subseteq> dom (hm_get (records reg))"
    using stale_ids_iff [OF assms(1)] by blast
  with distinct_stale_ids [OF assms(1), of now] show ?thesis
    using sweep_stale_enough [of "stale_ids now reg" reg "n - 1"] assms(2)
    by (auto simp: check_timeouts_def)
qed

text \<open>What a finished sweep hands over, in order: the unsubscribe requests and the dropped senders.\<close>

definition unsubscribe_of :: "BeaconRecord \<Rightarrow> mqtt_request list" where
  "unsubscribe_of r = (if listen_topic r = [] then [] else [Unsubscribed (listen_topic r)])"

definition sender_of :: "BeaconRecord \<Rightarrow> conn_id list" where
  "sender_of r = (case gateway_shutdown_tx r of None \<Rightarrow> [] | Some tx \<Rightarrow> [tx])"

lemma deregister_logs:
  assumes "hm_get (records reg) i = Some r" and "deregister n i reg = Finished n' reg'"
  shows "mqtt_log reg' = mqtt_log reg @ unsubscribe_of r" and "dropped_txs reg' = dropped_txs reg @ sender_of r"
    and "records reg' = hm_remove i (records reg)"
  using assms
  by (auto simp: deregister_def unsubscribe_await_def retain_await_def unsubscribe_of_def sender_of_def
      dropped_drop_record Let_def split: if_splits run.splits)

lemma sweep_stale_logs:
  assumes "distinct is" and "set is \<subseteq> dom (hm_get (records reg))" and "sweep_stale n is reg = Finished n' reg'"
  shows "mqtt_log reg' = mqtt_log reg @ concat (map (\<lambda>i. unsubscribe_of (the (hm_get (records reg) i))) is) \<and>
    dropped_txs reg' = dropped_txs reg @ concat (map (\<lambda>i. sender_of (the (hm_get (records reg) i))) is)"
  using assms
proof (induction "is" arbitrary: n reg)
  case (Cons i "is")
  then obtain r where r: "hm_get (records reg) i = Some r" by auto
  from Cons.prems(3) obtain n1 reg1 where d: "deregister n i reg = Finished n1 reg1" "sweep_stale n1 is reg1 = Finished n' reg'"
    by (auto split: run.splits)
  note l = deregister_logs [OF r d(1)]
  have "hm_get (records reg1) j = hm_get (records reg) j" if "j \<in> set is" for j
    using Cons.prems(1) that by (auto simp: l(3) hmap_laws)
  then have same: "map (\<lambda>i. unsubscribe_of (the (hm_get (records reg1) i))) is =
      map (\<lambda>i. unsubscribe_of (the (hm_get (records reg) i))) is"
    "map (\<lambda>i. sender_of (the (hm_get (records reg1) i))) is = map (\<lambda>i. sender_of (the (hm_get (records reg) i))) is"
    by simp_all
  have "set is \<subseteq> dom (hm_get (records reg1))" using Cons.prems(1,2) by (auto simp: l(3) hmap_laws)
  with Cons.IH [OF _ _ d(2)] Cons.prems(1) show ?case
    by (simp add: l(1,2) r same)
qed simp

lemma stale_records:
  assumes "hm_wf (records reg)"
  shows "map (\<lambda>i. f (the (hm_get (records reg) i))) (stale_ids now reg) =
    map (\<lambda>p. f (snd p)) (filter (\<lambda>p. is_stale now (snd p)) (records reg))"
proof -
  have "hm_get (records reg) (fst p) = Some (snd p)" if "p \<in> set (records reg)" for p
    using that hm_get_iff [OF assms, of "fst p" "snd p"] by simp
  then show ?thesis by (auto simp: stale_ids_def)
qed

section \<open>The invariant\<close>

text \<open>What the rest of the program sees of a record's gateway: its URL and its sender.\<close>

definition gw_view :: "BeaconRegistry \<Rightarrow> string \<Rightarrow> (string option \<times> conn_id option) option" where
  "gw_view reg i = map_option (\<lambda>r. (gateway_url r, gateway_shutdown_tx r)) (hm_get (records reg) i)"

text \<open>
  The configured gateway stays known; a gateway some beacon holds is known, is not the configured
  one and is held by that beacon only; the sender of a held connection has not been dropped and
  belongs to that beacon only.
\<close>

definition reg_inv :: "string option \<Rightarrow> BeaconRegistry \<Rightarrow> bool" where
  "reg_inv own reg \<longleftrightarrow>
     hm_wf (records reg) \<and> set_option own \<subseteq> known_gateways reg \<and>
     (\<forall>i u t. gw_view reg i = Some (u, t) \<longrightarrow> (u = None \<longleftrightarrow> t = None)) \<and>
     (\<forall>i url t. gw_view reg i = Some (Some url, t) \<longrightarrow> url \<in> known_gateways reg \<and> own \<noteq> Some url) \<and>
     (\<forall>i j url t t'. gw_view reg i = Some (Some url, t) \<longrightarrow> gw_view reg j = Some (Some url, t') \<longrightarrow> j = i) \<and>
     (\<forall>i u tx. gw_view reg i = Some (u, Some tx) \<longrightarrow> tx \<notin> set (dropped_txs reg)) \<and>
     (\<forall>i j u u' tx. gw_view reg i = Some (u, Some tx) \<longrightarrow> gw_view reg j = Some (u', Some tx) \<longrightarrow> j = i)"

lemma reg_invD:
  assumes "reg_inv own reg"
  shows reg_inv_wf: "hm_wf (records reg)"
    and reg_inv_own: "set_option own \<subseteq> known_gateways reg"
    and reg_inv_pair: "gw_view reg i = Some (u, t) \<Longrightarrow> u = None \<longleftrightarrow> t = None"
    and reg_inv_known: "gw_view reg i = Some (Some url, t) \<Longrightarrow> url \<in> known_gateways reg"
    and reg_inv_not_own: "gw_view reg i = Some (Some url, t) \<Longrightarrow> own \<noteq> Some url"
    and reg_inv_unique: "gw_view reg i = Some (Some url, t) \<Longrightarrow> gw_view reg j = Some (Some url, t') \<Longrightarrow> j = i"
    and reg_inv_live: "gw_view reg i = Some (u, Some tx) \<Longrightarrow> tx \<notin> set (dropped_txs reg)"
    and reg_inv_tx_unique: "gw_view reg i = Some (u, Some tx) \<Longrightarrow> gw_view reg j = Some (u', Some tx) \<Longrightarrow> j = i"
  using assms unfolding reg_inv_def by blast+

lemma reg_invI:
  assumes "hm_wf (records reg)" and "set_option own \<subseteq> known_gateways reg"
    and "\<And>i u t. gw_view reg i = Some (u, t) \<Longrightarrow> u = None \<longleftrightarrow> t = None"
    and "\<And>i url t. gw_view reg i = Some (Some url, t) \<Longrightarrow> url \<in> known_gateways reg"
    and "\<And>i url t. gw_view reg i = Some (Some url, t) \<Longrightarrow> own \<noteq> Some url"
    and "\<And>i j url t t'. gw_view reg i = Some (Some url, t) \<Longrightarrow> gw_view reg j = Some (Some url, t') \<Longrightarrow> j = i"
    and "\<And>i u tx. gw_view reg i = Some (u, Some tx) \<Longrightarrow> tx \<notin> set (dropped_txs reg)"
    and "\<And>i j u u' tx. gw_view reg i = Some (u, Some tx) \<Longrightarrow> gw_view reg j = Some (u', Some tx) \<Longrightarrow> j = i"
  shows "reg_inv own reg"
  unfolding reg_inv_def by (intro conjI allI impI; rule assms; assumption?)

lemma reg_inv_cong:
  assumes inv: "reg_inv own reg" and "hm_wf (records reg')"
    and v: "\<And>i. gw_view reg' i = gw_view reg i \<or> gw_view reg' i = Some (None, None)"
    and "known_gateways reg' = known_gateways reg" and "dropped_txs reg' = dropped_txs reg"
  shows "reg_inv own reg'"
proof -
  have some: "gw_view reg' i = Some (Some url, t) \<Longrightarrow> gw_view reg i = Some (Some url, t)"
    "gw_view reg' i = Some (u, Some tx) \<Longrightarrow> gw_view reg i = Some (u, Some tx)"
    "gw_view reg' i = Some (u, t) \<Longrightarrow> gw_view reg i = Some (u, t) \<or> u = None \<and> t = None" for i url t u tx
    using v [of i] by auto
  show ?thesis
    by (rule reg_invI) (use assms some reg_invD [OF inv] in \<open>(simp; fail) | metis\<close>)+
qed

lemma gw_view_simps:
  "gw_view (reg\<lparr>records := rs\<rparr>) i = map_option (\<lambda>r. (gateway_url r, gateway_shutdown_tx r)) (hm_get rs i)"
  "gw_view (reg\<lparr>broadcast_topics := bs\<rparr>) i = gw_view reg i"
  "gw_view (reg\<lparr>mqtt_log := l\<rparr>) i = gw_view reg i"
  "gw_view (reg\<lparr>known_gateways := k\<rparr>) i = gw_view reg i"
  "gw_view (reg\<lparr>dropped_txs := d\<rparr>) i = gw_view reg i"
  by (simp_all add: gw_view_def)

lemma gw_view_adjust:
  assumes "\<And>r. gateway_url (f r) = gateway_url r" "\<And>r. gateway_shutdown_tx (f r) = gateway_shutdown_tx r"
  shows "map_option (\<lambda>r. (gateway_url r, gateway_shutdown_tx r)) (hm_get (hm_adjust k f (records reg)) i) =
    gw_view reg i"
  by (cases "hm_get (records reg) i") (auto simp: gw_view_def hmap_laws assms)

lemma reg_inv_new: "reg_inv own (registry_new own topics)"
  by (auto simp: reg_inv_def registry_new_def gw_view_def split: option.splits)

lemma ensure_record_frame [simp]:
  "known_gateways (ensure_record i now reg) = known_gateways reg"
  "dropped_txs (ensure_record i now reg) = dropped_txs reg"
  "broadcast_topics (ensure_record i now reg) = broadcast_topics reg"
  "mqtt_log (ensure_record i now reg) = mqtt_log reg"
  by (auto simp: ensure_record_def split: option.splits)

lemma ensure_record_get:
  "hm_get (records (ensure_record i now reg)) j =
     (if j = i \<and> hm_get (records reg) i = None then Some (blank_record now) else hm_get (records reg) j)"
  by (auto simp: ensure_record_def hmap_laws split: option.splits)

lemma ensure_record_wf [intro]: "hm_wf (records reg) \<Longrightarrow> hm_wf (records (ensure_record i now reg))"
  by (auto simp: ensure_record_def split: option.splits)

lemma register_channel_frame [simp]:
  "known_gateways (register_channel sub now ch reg) = known_gateways reg"
  "dropped_txs (register_channel sub now ch reg) = dropped_txs reg"
  by (auto simp: register_channel_def Let_def split: TopicType.splits sum.splits)

lemma register_channel_wf: "hm_wf (records reg) \<Longrightarrow> hm_wf (records (register_channel sub now ch reg))"
  by (auto simp: register_channel_def Let_def split: TopicType.splits sum.splits)

lemma register_channel_view:
  "gw_view (register_channel sub now ch reg) i = gw_view (ensure_record (tc_beacon_id ch) now reg) i"
  by (cases "hm_get (records (ensure_record (tc_beacon_id ch) now reg)) i")
    (auto simp: gw_view_def register_channel_def Let_def hmap_laws split: TopicType.splits sum.splits)

lemma ensure_record_view:
  "gw_view (ensure_record k now reg) i = gw_view reg i \<or> gw_view (ensure_record k now reg) i = Some (None, None)"
  by (simp add: gw_view_def ensure_record_get blank_record_def)

lemma reg_inv_register_channel:
  assumes "reg_inv own reg"
  shows "reg_inv own (register_channel sub now ch reg)"
  using assms
proof (rule reg_inv_cong)
  show "hm_wf (records (register_channel sub now ch reg))"
    by (rule register_channel_wf [OF reg_inv_wf [OF assms]])
qed (simp_all only: register_channel_view ensure_record_view register_channel_frame)

lemma reg_inv_update_last_seen:
  assumes "reg_inv own reg"
  shows "reg_inv own (update_last_seen i now reg)"
  using assms
proof (rule reg_inv_cong)
  show "hm_wf (records (update_last_seen i now reg))"
    using reg_inv_wf [OF assms] by (auto simp: update_last_seen_def)
qed (simp_all add: update_last_seen_def gw_view_simps gw_view_adjust)

text \<open>Removing a record, evicting its gateway or not, and dropping its sender.\<close>

lemma reg_inv_remove:
  assumes inv: "reg_inv own reg" and r: "hm_get (records reg) i = Some r"
    and rec: "records reg' = hm_remove i (records reg)"
    and kn: "known_gateways reg - set_option (gateway_url r) \<subseteq> known_gateways reg'"
      "known_gateways reg' \<subseteq> known_gateways reg"
    and dr: "set (dropped_txs reg') = set (dropped_txs reg) \<union> set_option (gateway_shutdown_tx r)"
  shows "reg_inv own reg'"
proof -
  have vi: "gw_view reg i = Some (gateway_url r, gateway_shutdown_tx r)" by (simp add: gw_view_def r)
  have v: "gw_view reg' j = Some p \<Longrightarrow> j \<noteq> i \<and> gw_view reg j = Some p" for j p
    by (auto simp: gw_view_def rec hmap_laws split: if_splits)
  have ne: "gateway_url r = Some url \<Longrightarrow> own \<noteq> Some url" for url
    using reg_inv_not_own [OF inv] vi by metis
  have url: "gw_view reg' j = Some (Some url, t) \<Longrightarrow> gateway_url r \<noteq> Some url" for j url t
    using reg_inv_unique [OF inv] vi v by metis
  have tx: "gw_view reg' j = Some (u, Some tx) \<Longrightarrow> gateway_shutdown_tx r \<noteq> Some tx" for j u tx
    using reg_inv_tx_unique [OF inv] vi v by metis
  show ?thesis
  proof (rule reg_invI)
    show "hm_wf (records reg')" using reg_inv_wf [OF inv] by (auto simp: rec)
    show "set_option own \<subseteq> known_gateways reg'"
      using reg_inv_own [OF inv] kn(1) ne by (cases own; cases "gateway_url r") auto
    show "gw_view reg' j = Some (u, t) \<Longrightarrow> u = None \<longleftrightarrow> t = None" for j u t
      using v reg_inv_pair [OF inv] by metis
    show "gw_view reg' j = Some (Some url, t) \<Longrightarrow> url \<in> known_gateways reg'" for j url t
      using v url reg_inv_known [OF inv] kn(1) by (metis DiffI elem_set subsetD)
    show "gw_view reg' j = Some (Some url, t) \<Longrightarrow> own \<noteq> Some url" for j url t
      using v reg_inv_not_own [OF inv] by metis
    show "gw_view reg' j = Some (Some url, t) \<Longrightarrow> gw_view reg' k = Some (Some url, t') \<Longrightarrow> k = j" for j k url t t'
      using v reg_inv_unique [OF inv] by metis
    show "gw_view reg' j = Some (u, Some tx') \<Longrightarrow> tx' \<notin> set (dropped_txs reg')" for j u tx'
      using v tx reg_inv_live [OF inv] unfolding dr by (metis UnE elem_set)
    show "gw_view reg' j = Some (u, Some tx') \<Longrightarrow> gw_view reg' k = Some (u', Some tx') \<Longrightarrow> k = j" for j k u u' tx'
      using v reg_inv_tx_unique [OF inv] by metis
  qed
qed

primrec run_state :: "'s run \<Rightarrow> 's" where
  "run_state (Finished n s) = s"
| "run_state (Cancelled s) = s"

lemma deregister_effect:
  assumes "hm_get (records reg) i = Some r"
  shows "records (run_state (deregister n i reg)) = hm_remove i (records reg)"
    and "known_gateways reg - set_option (gateway_url r) \<subseteq> known_gateways (run_state (deregister n i reg))"
    and "known_gateways (run_state (deregister n i reg)) \<subseteq> known_gateways reg"
    and "set (dropped_txs (run_state (deregister n i reg))) =
      set (dropped_txs reg) \<union> set_option (gateway_shutdown_tx r)"
  using assms
  by (auto simp: deregister_def unsubscribe_await_def retain_await_def Let_def known_evict dropped_drop_record
      split: option.splits)

lemma reg_inv_deregister: "reg_inv own reg \<Longrightarrow> reg_inv own (run_state (deregister n i reg))"
proof (cases "hm_get (records reg) i")
  case None
  then show "reg_inv own reg \<Longrightarrow> ?thesis" by (simp add: deregister_def)
next
  case (Some r)
  then show "reg_inv own reg \<Longrightarrow> ?thesis" using reg_inv_remove deregister_effect by metis
qed

lemma reg_inv_sweep: "reg_inv own reg \<Longrightarrow> reg_inv own (run_state (sweep_stale n is reg))"
proof (induction n "is" reg rule: sweep_stale.induct)
  case (2 n i "is" reg)
  then show ?case
    using reg_inv_deregister [OF "2.prems", of n i] by (auto split: run.splits)
qed simp

lemma reg_inv_check_timeouts: "reg_inv own reg \<Longrightarrow> reg_inv own (run_state (check_timeouts n now reg))"
  by (simp add: check_timeouts_def reg_inv_sweep)

text \<open>A fresh sender: not dropped, not held.\<close>

definition fresh_tx :: "conn_id \<Rightarrow> BeaconRegistry \<Rightarrow> bool" where
  "fresh_tx tx reg \<longleftrightarrow> tx \<notin> set (dropped_txs reg) \<and> (\<forall>i u. gw_view reg i \<noteq> Some (u, Some tx))"

lemma insert_gateway_simps [simp]:
  "records (insert_gateway url reg) = records reg"
  "known_gateways (insert_gateway url reg) = insert url (known_gateways reg)"
  "dropped_txs (insert_gateway url reg) = dropped_txs reg"
  "broadcast_topics (insert_gateway url reg) = broadcast_topics reg"
  "mqtt_log (insert_gateway url reg) = mqtt_log reg"
  "gw_view (insert_gateway url reg) i = gw_view reg i"
  by (simp_all add: insert_gateway_def gw_view_def)

text \<open>Knowing more gateways and dropping senders nobody holds keeps the invariant.\<close>

lemma reg_inv_weaken:
  assumes inv: "reg_inv own reg" and "records reg' = records reg"
    and "known_gateways reg \<subseteq> known_gateways reg'"
    and "\<And>i u tx. gw_view reg i = Some (u, Some tx) \<Longrightarrow> tx \<notin> set (dropped_txs reg')"
  shows "reg_inv own reg'"
proof -
  have v: "gw_view reg' = gw_view reg" by (rule ext) (simp add: gw_view_def assms(2))
  show ?thesis
  proof (rule reg_invI, unfold v assms(2))
    show "hm_wf (records reg)" "set_option own \<subseteq> known_gateways reg'"
      using reg_inv_wf [OF inv] reg_inv_own [OF inv] assms(3) by auto
    show "gw_view reg i = Some (Some url, t) \<Longrightarrow> url \<in> known_gateways reg'" for i url t
      using reg_inv_known [OF inv] assms(3) by blast
  qed (use reg_invD [OF inv] assms(4) in \<open>(simp; fail) | metis\<close>)+
qed

lemma reg_inv_insert_gateway: "reg_inv own reg \<Longrightarrow> reg_inv own (insert_gateway url reg)"
  by (rule reg_inv_weaken [of own reg]) (auto dest: reg_inv_live)

lemma associate_view:
  assumes "hm_get (records reg) i = Some r"
  shows "gw_view (associate_gateway i url tx reg) j =
    (if j = i then Some (Some url, Some tx) else gw_view reg j)"
  using assms by (auto simp: associate_gateway_def gw_view_def hmap_laws)

lemma associate_frame:
  "known_gateways (associate_gateway i url tx reg) = known_gateways reg"
  "broadcast_topics (associate_gateway i url tx reg) = broadcast_topics reg"
  by (auto simp: associate_gateway_def split: option.splits)

lemma associate_dropped:
  "hm_get (records reg) i = Some r \<Longrightarrow>
   set (dropped_txs (associate_gateway i url tx reg)) = set (dropped_txs reg) \<union> set_option (gateway_shutdown_tx r)"
  "hm_get (records reg) i = None \<Longrightarrow>
   dropped_txs (associate_gateway i url tx reg) = dropped_txs reg @ [tx]"
  by (auto simp: associate_gateway_def dropped_drop_record split: option.splits)

lemma reg_inv_associate:
  assumes inv: "reg_inv own reg" and new: "url \<notin> known_gateways reg" and fresh: "fresh_tx tx reg"
  shows "reg_inv own (associate_gateway i url tx (insert_gateway url reg))"
proof (cases "hm_get (records reg) i")
  case None
  show ?thesis
  proof (rule reg_inv_weaken [OF inv])
    show "gw_view reg j = Some (u, Some t) \<Longrightarrow>
        t \<notin> set (dropped_txs (associate_gateway i url tx (insert_gateway url reg)))" for j u t
      using fresh reg_inv_live [OF inv, of j u t] None by (auto simp: associate_dropped fresh_tx_def)
  qed (auto simp: associate_gateway_def None)
next
  case (Some r)
  let ?reg = "associate_gateway i url tx (insert_gateway url reg)"
  have vi: "gw_view reg i = Some (gateway_url r, gateway_shutdown_tx r)" by (simp add: gw_view_def Some)
  have v: "gw_view ?reg j = (if j = i then Some (Some url, Some tx) else gw_view reg j)" for j
    using associate_view [of "insert_gateway url reg" i r url tx j] Some by simp
  have dr: "set (dropped_txs ?reg) = set (dropped_txs reg) \<union> set_option (gateway_shutdown_tx r)"
    using associate_dropped(1) [of "insert_gateway url reg" i r url tx] Some by simp
  have kn: "known_gateways ?reg = insert url (known_gateways reg)"
    by (simp add: associate_frame)
  have url_new: "gw_view reg j \<noteq> Some (Some url, t)" for j t
    using reg_inv_known [OF inv] new by metis
  have tx_new: "gw_view reg j \<noteq> Some (u, Some tx)" for j u
    using fresh by (simp add: fresh_tx_def)
  have tx_live: "tx \<notin> set (dropped_txs ?reg)"
    using fresh vi unfolding fresh_tx_def dr by (metis UnE elem_set)
  have other: "t \<notin> set (dropped_txs ?reg)" if "gw_view reg j = Some (u, Some t)" "j \<noteq> i" for j u t
    using that vi reg_inv_live [OF inv] reg_inv_tx_unique [OF inv] unfolding dr by (metis UnE elem_set)
  show ?thesis
  proof (rule reg_invI)
    show "hm_wf (records ?reg)" using reg_inv_wf [OF inv] Some by (auto simp: associate_gateway_def)
    show "set_option own \<subseteq> known_gateways ?reg" using reg_inv_own [OF inv] by (auto simp: kn)
    show "gw_view ?reg j = Some (u, t) \<Longrightarrow> u = None \<longleftrightarrow> t = None" for j u t
      using reg_inv_pair [OF inv] by (auto simp: v split: if_splits)
    show "gw_view ?reg j = Some (Some url', t) \<Longrightarrow> url' \<in> known_gateways ?reg" for j url' t
      using reg_inv_known [OF inv] by (auto simp: v kn split: if_splits)
    show "gw_view ?reg j = Some (Some url', t) \<Longrightarrow> own \<noteq> Some url'" for j url' t
      using reg_inv_not_own [OF inv] reg_inv_own [OF inv] new by (auto simp: v split: if_splits)
    show "gw_view ?reg j = Some (Some url', t) \<Longrightarrow> gw_view ?reg k = Some (Some url', t') \<Longrightarrow> k = j"
      for j k url' t t'
      using reg_inv_unique [OF inv] url_new by (auto simp: v split: if_splits)
    show "gw_view ?reg j = Some (u, Some tx') \<Longrightarrow> tx' \<notin> set (dropped_txs ?reg)" for j u tx'
      using other tx_live by (auto simp: v split: if_splits)
    show "gw_view ?reg j = Some (u, Some tx') \<Longrightarrow> gw_view ?reg k = Some (u', Some tx') \<Longrightarrow> k = j"
      for j k u u' tx'
      using reg_inv_tx_unique [OF inv] tx_new by (auto simp: v split: if_splits)
  qed
qed

section \<open>What a dropped sweep leaves behind\<close>

definition leaked :: "string \<Rightarrow> string \<Rightarrow> BeaconRegistry \<Rightarrow> bool" where
  "leaked t url reg \<longleftrightarrow> t \<in> set (broadcast_topics reg) \<and> url \<in> known_gateways reg \<and>
     (\<forall>j q. hm_get (records reg) j = Some q \<longrightarrow> broadcast_topic q \<noteq> t \<and> gateway_url q \<noteq> Some url)"

lemma deregister_topics:
  "hm_get (records reg) i = Some r \<Longrightarrow> t \<noteq> broadcast_topic r \<Longrightarrow>
   t \<in> set (broadcast_topics (run_state (deregister n i reg))) \<longleftrightarrow> t \<in> set (broadcast_topics reg)"
  by (auto simp: deregister_def unsubscribe_await_def retain_await_def Let_def)

lemma leaked_deregister:
  assumes "leaked t url reg"
  shows "leaked t url (run_state (deregister n i reg))"
proof (cases "hm_get (records reg) i")
  case None
  with assms show ?thesis by (simp add: deregister_def)
next
  case (Some r)
  with assms have "t \<noteq> broadcast_topic r" "gateway_url r \<noteq> Some url" by (auto simp: leaked_def)
  moreover from this assms have "url \<in> known_gateways (run_state (deregister n i reg))"
    using deregister_effect(2) [OF Some, of n] by (auto simp: leaked_def)
  ultimately show ?thesis
    using assms deregister_topics [OF Some, of t n] deregister_effect(1) [OF Some, of n]
    by (auto simp: leaked_def hmap_laws split: if_splits)
qed

lemma leaked_sweep: "leaked t url reg \<Longrightarrow> leaked t url (run_state (sweep_stale n is reg))"
proof (induction n "is" reg rule: sweep_stale.induct)
  case (2 n i "is" reg)
  then show ?case using leaked_deregister [OF "2.prems", of n i] by (auto split: run.splits)
qed simp

lemma leaked_sweeps:
  "leaked t url reg \<Longrightarrow> leaked t url (fold (\<lambda>(n, now) rg. run_state (check_timeouts n now rg)) sweeps reg)"
proof (induction sweeps arbitrary: reg)
  case (Cons p sweeps)
  then show ?case by (cases p) (simp add: check_timeouts_def leaked_sweep)
qed simp

section \<open>Properties\<close>

text \<open>Claim C7. A sweep that is given its awaits (one tick and at most three per stale beacon) ends, and
  every field of the registry after it is determined. It leaves exactly the beacons heard of within
  \<^verbatim>\<open>BEACON_TIMEOUT\<close>, unchanged and in order; it asks the broker, in order, to unsubscribe from the listen
  topic of each stale beacon that has one, and makes no other request; it takes the stale beacons'
  topics off the broadcast list, keeping the order of the rest, forgets their gateways, and drops
  their senders, in order.\<close>

theorem check_timeouts_exact:
  assumes "reg_inv own reg" and "3 * length (stale_ids now reg) < n"
    and "stale = filter (\<lambda>p. BEACON_TIMEOUT < now - last_seen (snd p)) (records reg)"
  shows "\<exists>n' reg'. check_timeouts n now reg = Finished n' reg' \<and>
    records reg' = filter (\<lambda>p. now - last_seen (snd p) \<le> BEACON_TIMEOUT) (records reg) \<and>
    known_gateways reg' = known_gateways reg - {url. \<exists>p\<in>set stale. gateway_url (snd p) = Some url} \<and>
    broadcast_topics reg' =
      filter (\<lambda>t. \<not> (\<exists>p\<in>set stale. broadcast_topic (snd p) \<noteq> [] \<and> t = broadcast_topic (snd p))) (broadcast_topics reg) \<and>
    mqtt_log reg' = mqtt_log reg @
      concat (map (\<lambda>p. if listen_topic (snd p) = [] then [] else [Unsubscribed (listen_topic (snd p))]) stale) \<and>
    dropped_txs reg' = dropped_txs reg @
      concat (map (\<lambda>p. case gateway_shutdown_tx (snd p) of None \<Rightarrow> [] | Some tx \<Rightarrow> [tx]) stale)"
proof -
  note wf = reg_inv_wf [OF assms(1)]
  have stale: "stale = filter (\<lambda>p. is_stale now (snd p)) (records reg)" by (simp add: assms(3) is_stale_def)
  from check_timeouts_enough [OF wf assms(2)] obtain n' reg'
    where run: "check_timeouts n now reg = Finished n' reg'" and sw: "swept (set (stale_ids now reg)) reg reg'" by blast
  have "set (stale_ids now reg) \<subseteq> dom (hm_get (records reg))" using stale_ids_iff [OF wf] by blast
  note logs = sweep_stale_logs [OF distinct_stale_ids [OF wf] this, of "n - 1" n' reg',
      unfolded stale_records [OF wf, of unsubscribe_of] stale_records [OF wf, of sender_of], folded stale]
  have ids: "i \<in> set (stale_ids now reg) \<longleftrightarrow> (\<exists>p\<in>set stale. fst p = i)" for i
    by (force simp: stale_ids_def stale)
  have keep: "fst p \<notin> set (stale_ids now reg) \<longleftrightarrow> now - last_seen (snd p) \<le> BEACON_TIMEOUT" if "p \<in> set (records reg)" for p
    using that hm_get_iff [OF wf, of "fst p" "snd p"] stale_ids_iff [OF wf, of "fst p" now] by (auto simp: is_stale_def)
  have ex: "(\<exists>i\<in>set (stale_ids now reg). \<exists>r. hm_get (records reg) i = Some r \<and> Q r) \<longleftrightarrow> (\<exists>p\<in>set stale. Q (snd p))" for Q
  proof -
    have "hm_get (records reg) (fst p) = Some (snd p)" if "p \<in> set stale" for p
      using that hm_get_iff [OF wf, of "fst p" "snd p"] by (simp add: stale)
    then show ?thesis unfolding Bex_def ids by force
  qed
  have "filter (\<lambda>p. fst p \<notin> set (stale_ids now reg)) (records reg) =
      filter (\<lambda>p. now - last_seen (snd p) \<le> BEACON_TIMEOUT) (records reg)"
    by (rule filter_cong) (simp_all add: keep)
  then show ?thesis
    using run sw logs assms(2) unfolding swept_def ex
    by (intro exI [of _ n'] exI [of _ reg']) (auto simp: check_timeouts_def unsubscribe_of_def sender_of_def split: if_splits)
qed

text \<open>A registry with one silent beacon that holds a gateway.\<close>

definition demo_registry :: BeaconRegistry where
  "demo_registry =
     \<lparr>records = [(''b'', \<lparr>listen_topic = ''b/rec'', broadcast_topic = ''b/cast'', last_seen = 0,
        gateway_url = Some ''https://g'', gateway_shutdown_tx = Some 0\<rparr>)],
      known_gateways = {''https://g''}, broadcast_topics = [''b/cast''], mqtt_log = [], dropped_txs = []\<rparr>"

lemma demo_registry_inv: "reg_inv None demo_registry"
  by (simp add: reg_inv_def demo_registry_def gw_view_def hm_wf_def split: if_splits)

lemma demo_stale: "stale_ids 121000000000 demo_registry = [''b'']"
  by (simp add: stale_ids_def is_stale_def demo_registry_def BEACON_TIMEOUT_def)

theorem check_timeouts_exact_witness:
  "\<exists>n' reg'. check_timeouts 4 121000000000 demo_registry = Finished n' reg' \<and>
     records reg' = [] \<and> broadcast_topics reg' = [] \<and> known_gateways reg' = {} \<and>
     mqtt_log reg' = [Unsubscribed ''b/rec''] \<and> dropped_txs reg' = [0]"
proof -
  have "3 * length (stale_ids 121000000000 demo_registry) < 4" by (simp add: demo_stale)
  from check_timeouts_exact [OF demo_registry_inv this refl] show ?thesis
    by (auto simp: demo_registry_def BEACON_TIMEOUT_def)
qed

text \<open>Claim C19. A sweep that is dropped at the first await of a stale beacon's clean-up (another branch
  of the \<^verbatim>\<open>select!\<close> became ready) has already forgotten the beacon and dropped its sender, but has
  neither taken its topic off the broadcast list nor released its gateway. With the record gone no
  number of later sweeps, complete or not, cleans them up.\<close>

theorem dropped_sweep_leaks:
  assumes "stale_ids now reg = i # is" and "hm_get (records reg) i = Some r"
    and "listen_topic r \<noteq> []" and "broadcast_topic r \<in> set (broadcast_topics reg)"
    and "gateway_url r = Some url" and "url \<in> known_gateways reg"
    and "\<And>j q. hm_get (records reg) j = Some q \<Longrightarrow> j \<noteq> i \<Longrightarrow>
      broadcast_topic q \<noteq> broadcast_topic r \<and> gateway_url q \<noteq> Some url"
  shows "\<exists>reg'. check_timeouts 1 now reg = Cancelled reg' \<and> hm_get (records reg') i = None \<and>
    set (dropped_txs reg') = set (dropped_txs reg) \<union> set_option (gateway_shutdown_tx r) \<and>
    (\<forall>sweeps. let reg2 = fold (\<lambda>(n, now) rg. run_state (check_timeouts n now rg)) sweeps reg'
       in broadcast_topic r \<in> set (broadcast_topics reg2) \<and> url \<in> known_gateways reg2)"
proof -
  let ?reg = "drop_record r (reg\<lparr>records := hm_remove i (records reg)\<rparr>)"
  have run: "check_timeouts 1 now reg = Cancelled ?reg"
    using assms(2,3) by (simp add: check_timeouts_def assms(1) deregister_def unsubscribe_await_def Let_def)
  have "leaked (broadcast_topic r) url ?reg"
    using assms(4,6,7) by (auto simp: leaked_def hmap_laws split: if_splits)
  from leaked_sweeps [OF this]
  have "\<forall>sweeps. let reg2 = fold (\<lambda>(n, now) rg. run_state (check_timeouts n now rg)) sweeps ?reg
       in broadcast_topic r \<in> set (broadcast_topics reg2) \<and> url \<in> known_gateways reg2"
    by (simp add: leaked_def Let_def)
  then show ?thesis
    using run by (intro exI [of _ ?reg]) (auto simp: hmap_laws dropped_drop_record split: option.splits)
qed

theorem dropped_sweep_leaks_witness:
  "\<exists>reg'. check_timeouts 1 121000000000 demo_registry = Cancelled reg' \<and> hm_get (records reg') ''b'' = None \<and>
     ''b/cast'' \<in> set (broadcast_topics (run_state (check_timeouts 4 999000000000 reg')))"
proof -
  obtain r where r: "hm_get (records demo_registry) ''b'' = Some r" and p: "listen_topic r \<noteq> []"
    "broadcast_topic r = ''b/cast''" "gateway_url r = Some ''https://g''"
    by (simp add: demo_registry_def)
  have "broadcast_topic r \<in> set (broadcast_topics demo_registry)" "''https://g'' \<in> known_gateways demo_registry"
    by (simp_all add: p(2) demo_registry_def)
  moreover have "hm_get (records demo_registry) j = Some q \<Longrightarrow> j \<noteq> ''b'' \<Longrightarrow>
      broadcast_topic q \<noteq> broadcast_topic r \<and> gateway_url q \<noteq> Some ''https://g''" for j q
    by (simp add: demo_registry_def)
  ultimately obtain reg' where "check_timeouts 1 121000000000 demo_registry = Cancelled reg'"
    "hm_get (records reg') ''b'' = None"
    and l: "\<forall>sweeps. let reg2 = fold (\<lambda>(n, now) rg. run_state (check_timeouts n now rg)) sweeps reg'
       in broadcast_topic r \<in> set (broadcast_topics reg2) \<and> ''https://g'' \<in> known_gateways reg2"
    using dropped_sweep_leaks [OF demo_stale r p(1) _ p(3)] by blast
  moreover have "''b/cast'' \<in> set (broadcast_topics (run_state (check_timeouts 4 999000000000 reg')))"
    using l [rule_format, of "[(4, 999000000000)]"] p(2) by (simp add: Let_def)
  ultimately show ?thesis by blast
qed

end
