(* ===== verification/Mqtt_Client.thy ===== *)
theory Mqtt_Client
  imports Config Registry
begin

text \<open>
  The MQTT client (\<^verbatim>\<open>src/services/mqtt_client\<close>): the request side \<^verbatim>\<open>MqttClientHandle\<close>, the
  connection options built from a configuration, and the two tasks a started client runs, each as a
  step function over the events its \<^verbatim>\<open>select!\<close> can take. Reading PEM files, the certificate store of
  rustls and the broker are parameters. The lemmas show which credentials go over which transport,
  that inbound messages reach the queue in order, that readiness is signalled at most once, and how
  far \<^verbatim>\<open>subscribe_all\<close> gets.
\<close>

section \<open>Connection options\<close>

text \<open>What the third-party TLS code answers: the certificates of a PEM text, and whether the root store
  accepts one.\<close>

record tls_lib =
  pem_certs :: "string \<Rightarrow> string result list"
  root_add :: "string \<Rightarrow> unit result"

datatype roots = WebpkiRoots | PinnedRoots "string list"

datatype transport = PlainTcp | ServerTls roots | MutualTls string string string

record MqttOptions =
  mo_client_id :: string
  mo_host :: string
  mo_port :: u16
  mo_keep_alive :: nat
  mo_credentials :: "(string \<times> string) option"
  mo_transport :: transport

fun add_roots :: "tls_lib \<Rightarrow> string result list \<Rightarrow> string list \<Rightarrow> string list result" where
  "add_roots L [] acc = Ok acc"
| "add_roots L (c # cs) acc =
     (case c of
        Err e \<Rightarrow> Err (''Failed to parse gateway CA: '' @ e)
      | Ok cert \<Rightarrow>
          (case root_add L cert of
             Err e \<Rightarrow> Err (''Failed to add gateway CA: '' @ e)
           | Ok _ \<Rightarrow> add_roots L cs (acc @ [cert])))"

definition build_server_tls :: "tls_lib \<Rightarrow> (path \<Rightarrow> string result) \<Rightarrow> path option \<Rightarrow> roots result" where
  "build_server_tls L read cafile =
     (case cafile of
        None \<Rightarrow> Ok WebpkiRoots
      | Some p \<Rightarrow>
          (case read p of
             Err e \<Rightarrow> Err (''Failed to read gateway CA '' @ (CHR 0x27 # p @ [CHR 0x27]) @ '': '' @ e)
           | Ok pem \<Rightarrow>
               (case add_roots L (pem_certs L pem) [] of
                  Err e \<Rightarrow> Err e
                | Ok certs \<Rightarrow> Ok (PinnedRoots certs))))"

definition read_pem :: "(path \<Rightarrow> string result) \<Rightarrow> string \<Rightarrow> path \<Rightarrow> string result" where
  "read_pem read what f =
     map_sum (\<lambda>e. ''Failed to read '' @ what @ '' '' @ (CHR 0x27 # f @ [CHR 0x27]) @ '': '' @ e) id (read f)"

text \<open>In the mutual mode the three paths are demanded before any file is read.\<close>

definition build_mqtt_opts ::
  "tls_lib \<Rightarrow> (path \<Rightarrow> string result) \<Rightarrow> MqttClientConfig \<Rightarrow> MqttOptions result" where
  "build_mqtt_opts L read cfg =
     (let opts = \<lparr>mo_client_id = mc_client_id cfg, mo_host = mc_host cfg, mo_port = mc_port cfg,
                  mo_keep_alive = 30, mo_credentials = None, mo_transport = PlainTcp\<rparr>;
          creds = Some (mc_username cfg, mc_password cfg)
      in (case mc_tls_mode cfg of
            TlsNone \<Rightarrow> Ok (opts\<lparr>mo_credentials := creds\<rparr>)
          | ServerOnly \<Rightarrow>
              (case build_server_tls L read (mc_cafile cfg) of
                 Err e \<Rightarrow> Err e
               | Ok tls \<Rightarrow> Ok (opts\<lparr>mo_transport := ServerTls tls, mo_credentials := creds\<rparr>))
          | Mutual \<Rightarrow>
              (case mc_cafile cfg of
                 None \<Rightarrow> Err ''Mutual TLS requires a CA file''
               | Some cafile \<Rightarrow>
              (case mc_certfile cfg of
                 None \<Rightarrow> Err ''Mutual TLS requires a client cert''
               | Some certfile \<Rightarrow>
              (case mc_keyfile cfg of
                 None \<Rightarrow> Err ''Mutual TLS requires a client key''
               | Some keyfile \<Rightarrow>
              (case read_pem read ''CA cert'' cafile of
                 Err e \<Rightarrow> Err e
               | Ok ca \<Rightarrow>
              (case read_pem read ''client cert'' certfile of
                 Err e \<Rightarrow> Err e
               | Ok cert \<Rightarrow>
              (case read_pem read ''client key'' keyfile of
                 Err e \<Rightarrow> Err e
               | Ok key \<Rightarrow> Ok (opts\<lparr>mo_transport := MutualTls ca cert key\<rparr>)))))))))"

section \<open>The handle\<close>

datatype MqttCommand = SubscribeCmd string QoS | UnsubscribeCmd string | PublishCmd string QoS bytes

text \<open>A request: whether the command was accepted by the channel, and the reply if one came.\<close>

definition mqtt_request :: "bool \<Rightarrow> unit result option \<Rightarrow> unit result" where
  "mqtt_request sent answer =
     (if \<not> sent then Err ''mqtt client channel closed''
      else (case answer of None \<Rightarrow> Err ''mqtt client dropped reply'' | Some r \<Rightarrow> r))"

record TopicSubscription =
  ts_topic :: string
  ts_qos :: QoS

text \<open>\<open>ask\<close> answers the request for one command; the commands issued are returned with the result.\<close>

fun subscribe_all ::
  "(MqttCommand \<Rightarrow> unit result) \<Rightarrow> TopicSubscription list \<Rightarrow> unit result \<times> MqttCommand list" where
  "subscribe_all ask [] = (Ok (), [])"
| "subscribe_all ask (s # ss) =
     (let cmd = SubscribeCmd (ts_topic s) (ts_qos s)
      in (case ask cmd of
            Err e \<Rightarrow> (Err e, [cmd])
          | Ok _ \<Rightarrow> (case subscribe_all ask ss of (r, cmds) \<Rightarrow> (r, cmd # cmds))))"

definition required_subscriptions :: "TopicSubscription list" where
  "required_subscriptions =
     [\<lparr>ts_topic = ''registration'', ts_qos = AtLeastOnce\<rparr>, \<lparr>ts_topic = ''key-bridge'', ts_qos = AtLeastOnce\<rparr>]"

section \<open>The event loop task\<close>

record MqttMessage =
  msg_topic :: string
  msg_payload :: bytes

datatype poll_result = PollPublish MqttMessage | PollConnAck | PollDisconnect | PollOther | PollError string

datatype eventloop_event =
    ElShutdown
  | ElOutbound MqttMessage
  | ElPoll poll_result

text \<open>\<open>el_connected_tx\<close> tells whether the readiness signal is still to be sent, \<open>el_ready\<close> counts the
  signals sent, \<open>el_inbox\<close> is what went into the inbound channel while its receiver lives,
  \<open>el_published\<close> holds the messages whose publication was requested of the library (a refusal is only
  logged), and \<open>el_pauses\<close> counts the five-second pauses. The events are those the loop gets to
  see: while the inbound channel is full, the task waits inside its send and sees no event at all, not even
  the shutdown, until the receiver has taken a message.\<close>

record eventloop_state =
  el_running :: bool
  el_connected_tx :: bool
  el_ready :: nat
  el_inbox :: "MqttMessage list"
  el_published :: "MqttMessage list"
  el_pauses :: nat

definition spawn_eventloop_task :: eventloop_state where
  "spawn_eventloop_task = \<lparr>el_running = True, el_connected_tx = True, el_ready = 0, el_inbox = [],
     el_published = [], el_pauses = 0\<rparr>"

fun eventloop_step :: "bool \<Rightarrow> eventloop_event \<Rightarrow> eventloop_state \<Rightarrow> eventloop_state" where
  "eventloop_step open ElShutdown s = s\<lparr>el_running := False\<rparr>"
| "eventloop_step open (ElOutbound m) s = s\<lparr>el_published := el_published s @ [m]\<rparr>"
| "eventloop_step open (ElPoll p) s =
     (case p of
        PollPublish m \<Rightarrow> if open then s\<lparr>el_inbox := el_inbox s @ [m]\<rparr> else s
      | PollConnAck \<Rightarrow>
          if el_connected_tx s then s\<lparr>el_connected_tx := False, el_ready := Suc (el_ready s)\<rparr> else s
      | PollDisconnect \<Rightarrow> s
      | PollOther \<Rightarrow> s
      | PollError e \<Rightarrow> s\<lparr>el_pauses := Suc (el_pauses s)\<rparr>)"

fun eventloop_run :: "(bool \<times> eventloop_event) list \<Rightarrow> eventloop_state \<Rightarrow> eventloop_state" where
  "eventloop_run [] s = s"
| "eventloop_run ((open, e) # es) s =
     (if el_running s then eventloop_run es (eventloop_step open e s) else s)"

section \<open>The command task\<close>

text \<open>\<open>client\<close> is the answer of the MQTT library to a command.\<close>

fun command_reply :: "(MqttCommand \<Rightarrow> unit result) \<Rightarrow> MqttCommand \<Rightarrow> unit result" where
  "command_reply client (SubscribeCmd t q) =
     map_sum (\<lambda>e. ''subscribe failed: '' @ e) id (client (SubscribeCmd t q))"
| "command_reply client (UnsubscribeCmd t) =
     map_sum (\<lambda>e. ''unsubscribe failed: '' @ e) id (client (UnsubscribeCmd t))"
| "command_reply client (PublishCmd t q p) =
     map_sum (\<lambda>e. ''publish failed: '' @ e) id (client (PublishCmd t q p))"

datatype command_event = CmdShutdown | CmdReceived MqttCommand | CmdClosed

fun command_task :: "(MqttCommand \<Rightarrow> unit result) \<Rightarrow> command_event list \<Rightarrow> (MqttCommand \<times> unit result) list" where
  "command_task client [] = []"
| "command_task client (CmdShutdown # es) = []"
| "command_task client (CmdClosed # es) = []"
| "command_task client (CmdReceived c # es) = (c, command_reply client c) # command_task client es"

section \<open>Lemmas\<close>

lemma add_roots_Ok: "add_roots L cs acc = Ok certs \<Longrightarrow> \<exists>ds. cs = map Ok ds \<and> certs = acc @ ds"
proof (induction cs arbitrary: acc)
  case (Cons c cs)
  then obtain d where d: "c = Ok d" "add_roots L cs (acc @ [d]) = Ok certs"
    by (auto split: sum.splits)
  from Cons.IH [OF d(2)] obtain ds where "cs = map Ok ds" "certs = (acc @ [d]) @ ds" by blast
  with d(1) show ?case by (intro exI [of _ "d # ds"]) simp
qed simp

text \<open>The events a run consumes: up to and including a shutdown.\<close>

fun until_shutdown :: "(bool \<times> eventloop_event) list \<Rightarrow> (bool \<times> eventloop_event) list" where
  "until_shutdown [] = []"
| "until_shutdown (e # es) = (if snd e = ElShutdown then [] else e # until_shutdown es)"

lemma eventloop_run_stopped: "\<not> el_running s \<Longrightarrow> eventloop_run es s = s"
  by (cases es) auto

lemma eventloop_step_running: "e \<noteq> ElShutdown \<Longrightarrow> el_running (eventloop_step b e s) = el_running s"
  by (cases e) (auto split: poll_result.splits)

lemma eventloop_run_inbox:
  "el_running s \<Longrightarrow>
   el_inbox (eventloop_run es s) =
     el_inbox s @ concat (map (\<lambda>(open, e). case e of ElPoll (PollPublish m) \<Rightarrow> if open then [m] else [] | _ \<Rightarrow> [])
       (until_shutdown es))"
proof (induction es s rule: eventloop_run.induct)
  case (2 b e es s)
  show ?case
  proof (cases "e = ElShutdown")
    case True
    with 2 show ?thesis by (simp add: eventloop_run_stopped)
  next
    case False
    with 2 eventloop_step_running [OF False, of b s] show ?thesis
      by (cases e) (auto split: poll_result.splits if_splits)
  qed
qed simp

lemma eventloop_run_ready:
  "el_running s \<Longrightarrow>
   el_ready (eventloop_run es s) =
     el_ready s + (if el_connected_tx s \<and> (\<exists>b. (b, ElPoll PollConnAck) \<in> set (until_shutdown es)) then 1 else 0)"
proof (induction es s rule: eventloop_run.induct)
  case (2 b e es s)
  show ?case
  proof (cases "e = ElShutdown")
    case True
    with 2 show ?thesis by (simp add: eventloop_run_stopped)
  next
    case False
    with 2 eventloop_step_running [OF False, of b s] show ?thesis
      by (cases e) (auto split: poll_result.splits if_splits)
  qed
qed simp

section \<open>Properties\<close>

text \<open>The connection options keep transport and credentials apart as the modes promise: a
  password is sent exactly in the modes without a client certificate, plaintext is used exactly in
  the mode without TLS, a pinned CA file gives exactly the certificates it contains as roots, and the
  mutual mode presents the contents of the three configured files and no password.\<close>

theorem build_mqtt_opts_modes:
  assumes "build_mqtt_opts L read cfg = Ok opts"
  shows "(mo_credentials opts = (if mc_tls_mode cfg = Mutual then None else Some (mc_username cfg, mc_password cfg))) \<and>
    (mo_transport opts = PlainTcp \<longleftrightarrow> mc_tls_mode cfg = TlsNone) \<and>
    (mc_tls_mode cfg = ServerOnly \<longrightarrow>
      (case mc_cafile cfg of
         None \<Rightarrow> mo_transport opts = ServerTls WebpkiRoots
       | Some f \<Rightarrow> \<exists>pem ds. read f = Ok pem \<and> pem_certs L pem = map Ok ds \<and>
                       mo_transport opts = ServerTls (PinnedRoots ds))) \<and>
    (mc_tls_mode cfg = Mutual \<longrightarrow>
      (\<exists>f g h ca cert key. mc_cafile cfg = Some f \<and> mc_certfile cfg = Some g \<and> mc_keyfile cfg = Some h \<and>
         read f = Ok ca \<and> read g = Ok cert \<and> read h = Ok key \<and> mo_transport opts = MutualTls ca cert key)) \<and>
    mo_host opts = mc_host cfg \<and> mo_port opts = mc_port cfg"
proof (cases "mc_tls_mode cfg")
  case TlsNone
  with assms show ?thesis by (auto simp: build_mqtt_opts_def)
next
  case ServerOnly
  with assms show ?thesis
    by (auto simp: build_mqtt_opts_def build_server_tls_def split: option.splits sum.splits dest!: add_roots_Ok)
next
  case Mutual
  have rp: "read_pem read w f = Ok t \<longleftrightarrow> read f = Ok t" for w f t
    by (cases "read f") (simp_all add: read_pem_def)
  from Mutual assms show ?thesis
    by (auto simp: build_mqtt_opts_def rp split: option.splits sum.splits)
qed

theorem build_mqtt_opts_modes_witness:
  "\<exists>opts. build_mqtt_opts \<lparr>pem_certs = (\<lambda>t. [Ok t]), root_add = (\<lambda>_. Ok ())\<rparr> (\<lambda>p. Ok p)
     (MqttClientConfig_from_env [''MQTT_TLS_ENABLED'' \<mapsto> ''true''] ''/c'') = Ok opts \<and> mo_credentials opts = None"
proof -
  let ?cfg = "MqttClientConfig_from_env [''MQTT_TLS_ENABLED'' \<mapsto> ''true''] ''/c''"
  let ?L = "\<lparr>pem_certs = (\<lambda>t. [Ok t]), root_add = (\<lambda>_. Ok ())\<rparr> :: tls_lib"
  have m: "mc_tls_mode ?cfg = Mutual"
    by (simp add: MqttClientConfig_from_env_def is_true_def env_or_def eq_ignore_ascii_case_def to_ascii_lower_def
        trim_def is_ascii_ws_def Let_def)
  have "mc_cafile ?cfg \<noteq> None" "mc_certfile ?cfg \<noteq> None" "mc_keyfile ?cfg \<noteq> None"
    by (simp_all add: MqttClientConfig_from_env_def Let_def)
  with m obtain opts where "build_mqtt_opts ?L (\<lambda>p. Ok p) ?cfg = Ok opts"
    by (auto simp: build_mqtt_opts_def read_pem_def)
  with build_mqtt_opts_modes [OF this] m show ?thesis by auto
qed

text \<open>Claim C30. Until it is told to shut down, the event loop task forwards every published message to the
  inbound queue, in the order of arrival and only while the queue's receiver exists, and signals
  readiness exactly once, at the first acknowledged connection, however often it reconnects.\<close>

theorem eventloop_forwards_in_order:
  "el_inbox (eventloop_run es spawn_eventloop_task) =
     concat (map (\<lambda>(open, e). case e of ElPoll (PollPublish m) \<Rightarrow> if open then [m] else [] | _ \<Rightarrow> [])
       (until_shutdown es)) \<and>
   el_ready (eventloop_run es spawn_eventloop_task) =
     (if \<exists>b. (b, ElPoll PollConnAck) \<in> set (until_shutdown es) then 1 else 0)"
proof -
  have "el_running spawn_eventloop_task" "el_connected_tx spawn_eventloop_task"
    "el_inbox spawn_eventloop_task = []" "el_ready spawn_eventloop_task = 0"
    by (simp_all add: spawn_eventloop_task_def)
  then show ?thesis by (simp add: eventloop_run_inbox eventloop_run_ready)
qed

text \<open>Subscribing to a list of topics issues the requests in order and stops at the first
  refusal, whose error it returns; it succeeds exactly when every request was granted. The required
  subscriptions are the registration and key-bridge topics.\<close>

theorem subscribe_all_first_error:
  assumes "subscribe_all ask ss = (r, cmds)"
  shows "\<exists>k. k \<le> length ss \<and> cmds = map (\<lambda>s. SubscribeCmd (ts_topic s) (ts_qos s)) (take k ss) \<and>
    (r = Ok () \<and> k = length ss \<and> (\<forall>c\<in>set cmds. ask c = Ok ()) \<or>
     (\<exists>e. r = Err e \<and> 0 < k \<and> ask (last cmds) = Err e \<and> (\<forall>c\<in>set (butlast cmds). ask c = Ok ())))"
  using assms
proof (induction ss arbitrary: r cmds)
  case (Cons s ss)
  let ?c = "SubscribeCmd (ts_topic s) (ts_qos s)"
  show ?case
  proof (cases "ask ?c")
    case (Inl e)
    with Cons.prems have "r = Err e" "cmds = [?c]" by (auto simp: Let_def)
    with Inl show ?thesis by (intro exI [of _ 1]) simp
  next
    case (Inr u)
    obtain r1 cmds1 where rec: "subscribe_all ask ss = (r1, cmds1)" by fastforce
    with Inr Cons.prems have "r = r1" "cmds = ?c # cmds1" by (auto simp: Let_def)
    moreover from Cons.IH [OF rec] obtain k where k: "k \<le> length ss"
      "cmds1 = map (\<lambda>s. SubscribeCmd (ts_topic s) (ts_qos s)) (take k ss)"
      "r1 = Ok () \<and> k = length ss \<and> (\<forall>c\<in>set cmds1. ask c = Ok ()) \<or>
       (\<exists>e. r1 = Err e \<and> 0 < k \<and> ask (last cmds1) = Err e \<and> (\<forall>c\<in>set (butlast cmds1). ask c = Ok ()))" by blast
    moreover from k(1,2) have "0 < k \<Longrightarrow> cmds1 \<noteq> []" by auto
    ultimately show ?thesis using Inr by (intro exI [of _ "Suc k"]) auto
  qed
qed simp

theorem subscribe_all_first_error_witness:
  "\<exists>k\<le>2. snd (subscribe_all (\<lambda>c. if c = SubscribeCmd ''key-bridge'' AtLeastOnce then Err ''refused'' else Ok ())
       required_subscriptions) =
     map (\<lambda>s. SubscribeCmd (ts_topic s) (ts_qos s)) (take k required_subscriptions) \<and> 0 < k"
proof -
  let ?ask = "\<lambda>c. if c = SubscribeCmd ''key-bridge'' AtLeastOnce then Err ''refused'' else Ok ()"
  have "subscribe_all ?ask required_subscriptions =
      (Err ''refused'', [SubscribeCmd ''registration'' AtLeastOnce, SubscribeCmd ''key-bridge'' AtLeastOnce])"
    by (simp add: required_subscriptions_def Let_def)
  from subscribe_all_first_error [OF this] this show ?thesis
    by (auto simp: required_subscriptions_def)
qed

end
