(* ===== verification/Gateway_Url.thy ===== *)
theory Gateway_Url
  imports Hamlet_Prelude
begin

text \<open>
  The URL handling of the gateway clients: \<^verbatim>\<open>Url::parse\<close> and the login path of
  \<^verbatim>\<open>src/services/gateway_mqtt/login.rs\<close>, \<^verbatim>\<open>compute_ws_url\<close> of
  \<^verbatim>\<open>src/services/cloud_gateway/cloud_gateway_service.rs\<close>, and the host extraction of
  \<^verbatim>\<open>src/services/beacon_management/internals/requests.rs\<close>. The lemmas give the round trip of a
  printed URL, its error branches, and the normal form of WebSocket URLs.
\<close>

section \<open>Definitions\<close>

text \<open>\<^verbatim>\<open>str::replacen(p, t, 1)\<close> and a quoted string of an error message.\<close>

definition replace_first :: "string \<Rightarrow> string \<Rightarrow> string \<Rightarrow> string" where
  "replace_first s p t = (case split_once p s of Some (a, b) \<Rightarrow> a @ t @ b | None \<Rightarrow> s)"

definition quoted :: "string \<Rightarrow> string" where
  "quoted s = CHR 0x27 # s @ [CHR 0x27]"

definition compute_ws_url :: "string \<Rightarrow> string" where
  "compute_ws_url gateway_url =
     (let base = trim_end_matches (CHR ''/'') gateway_url;
          base1 = (if starts_with base ''https://'' then replace_first base ''https://'' ''wss://''
                   else if starts_with base ''http://'' then replace_first base ''http://'' ''ws://''
                   else base)
      in if ends_with base1 ''/ws'' then base1 else base1 @ ''/ws'')"

record Url =
  url_tls :: bool
  url_host :: string
  url_port :: u16
  url_path :: string

definition Url_parse :: "string \<Rightarrow> Url result" where
  "Url_parse input =
     (case split_once ''://'' input of
        None \<Rightarrow> Err (''invalid gateway url '' @ quoted input)
      | Some (scheme, rest) \<Rightarrow>
          (case (if scheme = ''https'' then Some True else if scheme = ''http'' then Some False else None) of
             None \<Rightarrow> Err (''unsupported gateway scheme '' @ quoted scheme)
           | Some tls \<Rightarrow>
               (let (authority, path) =
                      (case find_split (CHR ''/'') rest of Some (a, p) \<Rightarrow> (a, p) | None \<Rightarrow> (rest, ''/''))
                in (case rsplit_once (CHR '':'') authority of
                      Some (h, p) \<Rightarrow>
                        if h \<noteq> []
                        then (case parse_u16 p of
                                Some port \<Rightarrow> Ok \<lparr>url_tls = tls, url_host = h, url_port = port, url_path = path\<rparr>
                              | None \<Rightarrow> Err (''invalid port in '' @ quoted input))
                        else Ok \<lparr>url_tls = tls, url_host = authority,
                                 url_port = (if tls then 443 else 80), url_path = path\<rparr>
                    | None \<Rightarrow> Ok \<lparr>url_tls = tls, url_host = authority,
                                  url_port = (if tls then 443 else 80), url_path = path\<rparr>))))"

text \<open>The path of the login request.\<close>

definition login_path :: "Url \<Rightarrow> string" where
  "login_path url = trim_end_matches (CHR ''/'') (url_path url) @ ''/api/login''"

text \<open>The broker host announced to a device: the request's \<^verbatim>\<open>Host\<close> header without its port.\<close>

definition strip_port :: "string \<Rightarrow> string" where
  "strip_port h =
     (case rsplit_once (CHR '':'') h of
        Some (a, _) \<Rightarrow> if starts_with h ''['' then h else a
      | None \<Rightarrow> h)"

section \<open>Lemmas\<close>

lemma replace_first_prefix: "p \<noteq> [] \<Longrightarrow> replace_first (p @ r) p t = t @ r"
  by (simp add: replace_first_def split_once_here)

lemma starts_with_append [simp]: "starts_with (p @ r) p"
  by (simp add: starts_with_def)

lemma ends_with_append [simp]: "ends_with (r @ p) p"
  by (simp add: ends_with_def)

text \<open>The scheme part of \<^const>\<open>compute_ws_url\<close> alone.\<close>

definition ws_base :: "string \<Rightarrow> string" where
  "ws_base base =
     (if starts_with base ''https://'' then replace_first base ''https://'' ''wss://''
      else if starts_with base ''http://'' then replace_first base ''http://'' ''ws://''
      else base)"

lemma compute_ws_url_alt:
  "compute_ws_url u =
     (let b = ws_base (trim_end_matches (CHR ''/'') u) in if ends_with b ''/ws'' then b else b @ ''/ws'')"
  by (simp add: compute_ws_url_def ws_base_def Let_def)

lemma ws_base_cases:
  obtains r where "b = ''https://'' @ r" "ws_base b = ''wss://'' @ r"
  | r where "b = ''http://'' @ r" "ws_base b = ''ws://'' @ r"
  | "\<not> starts_with b ''https://''" "\<not> starts_with b ''http://''" "ws_base b = b"
proof -
  consider r where "b = ''https://'' @ r" | r where "b = ''http://'' @ r"
    | "\<not> starts_with b ''https://''" "\<not> starts_with b ''http://''"
    by (auto simp: starts_with_iff)
  then show ?thesis
  proof cases
    case (1 r)
    then show ?thesis
      using that(1) [of r] replace_first_prefix [of "''https://''" r "''wss://''"]
      by (simp add: ws_base_def starts_with_iff)
  next
    case (2 r)
    moreover have "\<not> starts_with b ''https://''" by (simp add: 2 starts_with_iff)
    ultimately show ?thesis
      using that(2) [of r] replace_first_prefix [of "''http://''" r "''ws://''"]
      by (simp add: ws_base_def starts_with_iff)
  next
    case 3
    then show ?thesis using that(3) by (simp add: ws_base_def)
  qed
qed

lemma ws_base_scheme:
  "\<not> starts_with (ws_base b) ''https://''" "\<not> starts_with (ws_base b) ''http://''"
  by (cases rule: ws_base_cases [of b]; simp add: starts_with_iff)+

lemma ends_with_cases: "ends_with s p \<longleftrightarrow> (\<exists>r. s = r @ p)"
  by (rule ends_with_iff)

lemma compute_ws_url_ends: "\<exists>r. compute_ws_url u = r @ ''/ws''"
  by (auto simp: compute_ws_url_alt Let_def ends_with_iff)

text \<open>A base without a trailing slash cannot acquire a scheme when \<^verbatim>\<open>/ws\<close> is appended.\<close>

lemma starts_with_appendD:
  "starts_with (b @ e) p \<Longrightarrow> \<not> starts_with b p \<Longrightarrow> \<exists>q s. p = b @ q \<and> e = q @ s"
  by (auto simp: starts_with_iff append_eq_append_conv2)

lemma append_ws_scheme:
  assumes "\<not> starts_with b (p @ ''//'')" and "\<And>t. b \<noteq> t @ ''/''"
  shows "\<not> starts_with (b @ ''/ws'') (p @ ''//'')"
proof
  assume "starts_with (b @ ''/ws'') (p @ ''//'')"
  from starts_with_appendD [OF this assms(1)] obtain q r where q: "p @ ''//'' = b @ q" "''/ws'' = q @ r"
    by blast
  have "q \<noteq> []" using assms(1) q(1) by (auto simp: starts_with_iff)
  then have "last q = CHR ''/''" using q(1) by (metis last_appendR last_ConsL last_ConsR list.discI)
  with q(2) \<open>q \<noteq> []\<close> have "q = ''/''" by (auto simp: Cons_eq_append_conv)
  with q(1) have "b = p @ ''/''" by (metis append.assoc append_Cons append_Nil append_same_eq)
  with assms(2) show False by blast
qed

lemma ws_base_no_slash:
  "starts_with (ws_base (trim_end_matches (CHR ''/'') u)) ''w'' \<or>
   (\<forall>t. ws_base (trim_end_matches (CHR ''/'') u) \<noteq> t @ ''/'')"
  by (cases rule: ws_base_cases [of "trim_end_matches (CHR ''/'') u"])
    (auto simp: starts_with_iff trim_end_matches_no_end)

lemma compute_ws_url_scheme:
  "\<not> starts_with (compute_ws_url u) ''https://''" "\<not> starts_with (compute_ws_url u) ''http://''"
proof -
  let ?b = "ws_base (trim_end_matches (CHR ''/'') u)"
  have w: "starts_with ?b ''w'' \<Longrightarrow> starts_with (?b @ ''/ws'') ''w''" by (auto simp: starts_with_iff)
  have "\<not> starts_with (?b @ ''/ws'') ''https://''" "\<not> starts_with (?b @ ''/ws'') ''http://''"
    using ws_base_no_slash [of u] w append_ws_scheme [of ?b "''https:''"] append_ws_scheme [of ?b "''http:''"]
      ws_base_scheme [of "trim_end_matches (CHR ''/'') u"]
    by (auto simp: starts_with_iff)
  then show "\<not> starts_with (compute_ws_url u) ''https://''" "\<not> starts_with (compute_ws_url u) ''http://''"
    using ws_base_scheme by (simp_all add: compute_ws_url_alt Let_def)
qed

lemma trim_end_matches_replicate:
  "s = [] \<or> last s \<noteq> c \<Longrightarrow> trim_end_matches c (s @ replicate n c) = s"
proof (induction n)
  case (Suc n)
  then show ?case using trim_end_matches_idle [of c "s @ replicate n c" c]
    by (simp add: replicate_append_same [symmetric])
qed (simp add: trim_end_matches_fix)

text \<open>Trailing slashes never matter.\<close>

lemma compute_ws_url_slashes: "compute_ws_url (u @ replicate n (CHR ''/'')) = compute_ws_url u"
proof -
  have "trim_end_matches c (u @ replicate n c) = trim_end_matches c u" for c
  proof (induction n)
    case (Suc n)
    then show ?case using trim_end_matches_idle [of c "u @ replicate n c" c]
      by (simp add: replicate_append_same [symmetric])
  qed simp
  then show ?thesis by (simp add: compute_ws_url_alt)
qed

text \<open>Whether a URL ends in \<^verbatim>\<open>/ws\<close> is decided by what follows its scheme.\<close>

lemma ends_with_ws_after_scheme:
  assumes "r \<noteq> []"
  shows "ends_with (p @ ''://'' @ r) ''/ws'' \<longleftrightarrow> ends_with (''/'' @ r) ''/ws''"
proof -
  obtain t c where t: "r = t @ [c]" using assms by (cases r rule: rev_cases) auto
  show ?thesis
  proof (cases t rule: rev_cases)
    case (snoc t' d)
    show ?thesis by (cases t' rule: rev_cases) (auto simp: t snoc ends_with_iff)
  qed (auto simp: t ends_with_iff Cons_eq_append_conv)
qed

lemma ws_base_scheme_pairs:
  assumes "(s, s') \<in> {(''https'', ''wss''), (''http'', ''ws''), (''wss'', ''wss''), (''ws'', ''ws'')}"
  shows "ws_base (s @ ''://'' @ r) = s' @ ''://'' @ r"
  using assms replace_first_prefix [of "''https://''" r "''wss://''"] replace_first_prefix [of "''http://''" r "''ws://''"]
  by (auto simp: ws_base_def starts_with_iff)

section \<open>Properties\<close>

text \<open>Claim C37. The WebSocket URL of a gateway keeps what follows the scheme: \<^verbatim>\<open>https\<close> becomes \<^verbatim>\<open>wss\<close>,
  \<^verbatim>\<open>http\<close> becomes \<^verbatim>\<open>ws\<close>, a WebSocket scheme stays; any number of trailing slashes is dropped; and
  \<^verbatim>\<open>/ws\<close> is appended unless the rest is or ends in that last path segment (a host that is named
  \<^verbatim>\<open>ws\<close> counts as one). Computing the URL of a computed URL changes nothing.\<close>

theorem compute_ws_url_normal_form:
  assumes "(s, s') \<in> {(''https'', ''wss''), (''http'', ''ws''), (''wss'', ''wss''), (''ws'', ''ws'')}"
    and "r \<noteq> []" and "last r \<noteq> CHR ''/''"
  shows "compute_ws_url (s @ ''://'' @ r @ replicate n (CHR ''/'')) =
      s' @ ''://'' @ r @ (if ends_with (''/'' @ r) ''/ws'' then [] else ''/ws'') \<and>
    compute_ws_url (compute_ws_url u) = compute_ws_url u"
proof -
  have "trim_end_matches (CHR ''/'') ((s @ ''://'' @ r) @ replicate n (CHR ''/'')) = s @ ''://'' @ r"
    by (rule trim_end_matches_replicate) (use assms(2,3) in simp)
  then have form: "compute_ws_url (s @ ''://'' @ r @ replicate n (CHR ''/'')) =
      s' @ ''://'' @ r @ (if ends_with (''/'' @ r) ''/ws'' then [] else ''/ws'')"
    using ws_base_scheme_pairs [OF assms(1), of r] ends_with_ws_after_scheme [OF assms(2), of s']
    by (simp add: compute_ws_url_alt)
  obtain q where q: "compute_ws_url u = q @ ''/ws''" using compute_ws_url_ends by blast
  have "trim_end_matches (CHR ''/'') (compute_ws_url u) = compute_ws_url u"
    by (rule trim_end_matches_fix) (simp add: q)
  moreover have "ws_base (compute_ws_url u) = compute_ws_url u"
    using compute_ws_url_scheme by (simp add: ws_base_def)
  ultimately have "compute_ws_url (compute_ws_url u) = compute_ws_url u"
    unfolding compute_ws_url_alt [of "compute_ws_url u"] by (simp add: q)
  with form show ?thesis by blast
qed

theorem compute_ws_url_normal_form_witness:
  "compute_ws_url ''https://g.example/ws//'' = ''wss://g.example/ws'' \<and> compute_ws_url ''ws://g:80'' = ''ws://g:80/ws''"
  using compute_ws_url_normal_form [of "''https''" "''wss''" "''g.example/ws''" 2]
    compute_ws_url_normal_form [of "''ws''" "''ws''" "''g:80''" 0]
  by (simp add: ends_with_def strip_suffix_def numeral_2_eq_2)

text \<open>Claim C38. The gateway URL parser reads back every URL of the form scheme, host, port and path: the
  scheme decides TLS, the last colon of the authority separates the port, the path starts at the
  first slash. Without a port the scheme's default is used.\<close>

theorem Url_parse_print:
  assumes "host \<noteq> []" and "CHR ''/'' \<notin> set host"
  shows "Url_parse ((if tls then ''https'' else ''http'') @ ''://'' @ host @ '':'' @ show_u16 port @ ''/'' @ path)
      = Ok \<lparr>url_tls = tls, url_host = host, url_port = port, url_path = ''/'' @ path\<rparr> \<and>
    (CHR '':'' \<notin> set host \<longrightarrow>
      Url_parse ((if tls then ''https'' else ''http'') @ ''://'' @ host)
      = Ok \<lparr>url_tls = tls, url_host = host, url_port = (if tls then 443 else 80), url_path = ''/''\<rparr>)"
proof -
  have sp: "split_once ''://'' ((if tls then ''https'' else ''http'') @ ''://'' @ rest)
      = Some (if tls then ''https'' else ''http'', rest)" for rest
    by simp
  have fs: "find_split (CHR ''/'') (host @ '':'' @ show_u16 port @ ''/'' @ path)
      = Some (host @ '':'' @ show_u16 port, ''/'' @ path)"
    unfolding find_split_Some using assms(2) show_u16_not(2) [of port] by simp
  have rs: "rsplit_once (CHR '':'') (host @ '':'' @ show_u16 port) = Some (host, show_u16 port)"
    unfolding rsplit_once_Some using show_u16_not(1) [of port] by simp
  have "Url_parse ((if tls then ''https'' else ''http'') @ ''://'' @ host @ '':'' @ show_u16 port @ ''/'' @ path)
      = Ok \<lparr>url_tls = tls, url_host = host, url_port = port, url_path = ''/'' @ path\<rparr>"
    unfolding Url_parse_def sp using assms(1) fs rs by simp
  moreover have "Url_parse ((if tls then ''https'' else ''http'') @ ''://'' @ host)
      = Ok \<lparr>url_tls = tls, url_host = host, url_port = (if tls then 443 else 80), url_path = ''/''\<rparr>"
    if "CHR '':'' \<notin> set host"
  proof -
    have "find_split (CHR ''/'') host = None" "rsplit_once (CHR '':'') host = None"
      using assms(2) that by (simp_all add: find_split_None rsplit_once_None)
    then show ?thesis unfolding Url_parse_def sp by simp
  qed
  ultimately show ?thesis by blast
qed

theorem Url_parse_print_witness:
  "Url_parse ''https://gateway.example.com:8443/base''
     = Ok \<lparr>url_tls = True, url_host = ''gateway.example.com'', url_port = 8443, url_path = ''/base''\<rparr> \<and>
   Url_parse ''https://gateway.example.com''
     = Ok \<lparr>url_tls = True, url_host = ''gateway.example.com'', url_port = 443, url_path = ''/''\<rparr>"
proof -
  have "show_u16 8443 = ''8443''"
    by (simp add: show_u16_def show_nat.simps digit_char_eval)
  then show ?thesis
    using Url_parse_print [of "''gateway.example.com''" True 8443 "''base''"] by simp
qed

text \<open>Claim C39. A bracketed IPv6 address is only understood with an explicit port by the gateway URL
  parser, and keeps its port in the broker host that is announced to devices, while every other host
  loses exactly its port.\<close>

theorem bracketed_hosts:
  assumes "CHR '':'' \<in> set addr" and "CHR ''/'' \<notin> set addr"
  shows "(\<exists>e. Url_parse (''https://['' @ addr @ '']'') = Err e) \<and>
    strip_port (''['' @ addr @ '']:'' @ show_u16 port) = ''['' @ addr @ '']:'' @ show_u16 port \<and>
    (\<forall>host. \<not> starts_with host ''['' \<longrightarrow> host \<noteq> [] \<longrightarrow> strip_port (host @ '':'' @ show_u16 port) = host)"
proof -
  have strip: "strip_port (host @ '':'' @ show_u16 port) = host" if "\<not> starts_with host ''[''" "host \<noteq> []" for host
  proof -
    have "rsplit_once (CHR '':'') (host @ '':'' @ show_u16 port) = Some (host, show_u16 port)"
      unfolding rsplit_once_Some using show_u16_not(1) [of port] by simp
    moreover have "\<not> starts_with (host @ '':'' @ show_u16 port) ''[''"
      using that by (cases host) (auto simp: starts_with_iff)
    ultimately show ?thesis by (simp add: strip_port_def)
  qed
  have fs: "find_split (CHR ''/'') (''['' @ addr @ '']'') = None"
    using assms(2) by (simp add: find_split_def)
  obtain a b where ab: "addr = a @ CHR '':'' # b" "CHR '':'' \<notin> set b"
    using assms(1) split_list_last by metis
  then have rs: "rsplit_once (CHR '':'') (''['' @ addr @ '']'') = Some (''['' @ a, b @ '']'')"
    unfolding rsplit_once_Some by simp
  have bad: "char_digit (CHR '']'') = None" by (simp add: char_digit_def)
  have dv: "digits_value n (b @ '']'') = None" for n
    by (induction b arbitrary: n) (auto simp: bad split: option.splits)
  have "parse_u16 (b @ '']'') = None"
    using dv by (cases b) (simp_all add: parse_u16_def parse_uint_def bad digits_value_append
      split: option.splits)
  moreover have sp: "split_once ''://'' (''https://['' @ addr @ '']'') = Some (''https'', ''['' @ addr @ '']'')"
    by simp
  ultimately have "\<exists>e. Url_parse (''https://['' @ addr @ '']'') = Err e"
    unfolding Url_parse_def sp using fs rs by simp
  with strip show ?thesis
    by (auto simp: strip_port_def starts_with_iff split: option.splits)
qed

theorem bracketed_hosts_witness:
  "(\<exists>e. Url_parse ''https://[::1]'' = Err e) \<and> strip_port ''[::1]:8080'' = ''[::1]:8080'' \<and>
   strip_port ''192.168.2.39:8080'' = ''192.168.2.39''"
proof -
  have "show_u16 8080 = ''8080''"
    by (simp add: show_u16_def show_nat.simps digit_char_eval)
  moreover have "\<not> starts_with ''192.168.2.39'' ''[''" by (simp add: starts_with_def)
  ultimately show ?thesis
    using bracketed_hosts [of "''::1''" 8080] by (auto dest: spec [of _ "''192.168.2.39''"])
qed

end
