(* ===== verification/Gateway_Messages.thy ===== *)
theory Gateway_Messages
  imports Hamlet_Prelude
begin

text \<open>
  The wire messages: \<^verbatim>\<open>GatewayMessage\<close> (\<^verbatim>\<open>src/services/cloud_gateway/messages.rs\<close>) and the
  login and envelope types of \<^verbatim>\<open>src/services/gateway_mqtt/protocol.rs\<close>, with the JSON values their
  derived serialisers produce and their derived deserialisers accept. The textual syntax of JSON is
  the business of \<^verbatim>\<open>serde_json\<close> and a parameter wherever text is read. The lemmas give the round trip
  of every message and which inbound frames are acted upon.
\<close>

section \<open>JSON values\<close>

datatype json_number = JInt int | JFloat string

datatype json = JNull | JBool bool | JNumber json_number | JString string
  | JArray "json list" | JObject "(string \<times> json) list"

text \<open>\<^verbatim>\<open>Value::as_object\<close>, \<^verbatim>\<open>Map::get\<close> and \<^verbatim>\<open>Value::as_str\<close>.\<close>

fun as_object :: "json \<Rightarrow> (string \<times> json) list option" where
  "as_object (JObject kvs) = Some kvs"
| "as_object _ = None"

fun as_str :: "json \<Rightarrow> string option" where
  "as_str (JString s) = Some s"
| "as_str _ = None"

fun as_bool :: "json \<Rightarrow> bool option" where
  "as_bool (JBool b) = Some b"
| "as_bool _ = None"

fun as_u16 :: "json \<Rightarrow> u16 option" where
  "as_u16 (JNumber (JInt n)) = (if 0 \<le> n \<and> n < 2 ^ 16 then Some (of_int n) else None)"
| "as_u16 _ = None"

text \<open>
  What a derived reader takes the fields of a structure from: an object in which none of the
  structure's own fields occurs twice (other fields are skipped), or an array with exactly one element
  per field, in the order of the declaration.
\<close>

definition not_twice :: "(string \<times> json) list \<Rightarrow> string \<Rightarrow> bool" where
  "not_twice kvs k \<longleftrightarrow> length (filter (\<lambda>p. fst p = k) kvs) \<le> 1"

fun struct_fields :: "string list \<Rightarrow> json \<Rightarrow> (string \<times> json) list option" where
  "struct_fields names (JObject kvs) = (if list_all (not_twice kvs) names then Some kvs else None)"
| "struct_fields names (JArray vs) = (if length vs = length names then Some (zip names vs) else None)"
| "struct_fields names _ = None"

text \<open>The reader of an internally tagged enumeration first splits off the tag: the one field
  \<^verbatim>\<open>type\<close> of an object, or the first element of an array. The rest is read as the variant's fields.\<close>

fun split_tag :: "json \<Rightarrow> (string \<times> json) option" where
  "split_tag (JObject kvs) =
     (case filter (\<lambda>p. fst p = ''type'') kvs of
        [(_, JString tag)] \<Rightarrow> Some (tag, JObject (filter (\<lambda>p. fst p \<noteq> ''type'') kvs))
      | _ \<Rightarrow> None)"
| "split_tag (JArray (JString tag # vs)) = Some (tag, JArray vs)"
| "split_tag _ = None"

text \<open>A required field of a derived structure, and an optional string, which may be missing or null. A
  field that is itself a JSON value is taken over as it stands.\<close>

definition field :: "(json \<Rightarrow> 'a option) \<Rightarrow> (string \<times> json) list \<Rightarrow> string \<Rightarrow> 'a option" where
  "field f o1 k = Option.bind (map_of o1 k) f"

definition opt_str_field :: "(string \<times> json) list \<Rightarrow> string \<Rightarrow> string option option" where
  "opt_str_field o1 k =
     (case map_of o1 k of
        None \<Rightarrow> Some None
      | Some JNull \<Rightarrow> Some None
      | Some (JString s) \<Rightarrow> Some (Some s)
      | Some _ \<Rightarrow> None)"

section \<open>Frames of the WebSocket gateway\<close>

datatype GatewayMessage =
    Register string
  | Connect string
  | ConnectRequest string
  | BeaconRegistration string json
  | Relay string string json
  | Ack bool "string option"

fun GatewayMessage_to_json :: "GatewayMessage \<Rightarrow> json" where
  "GatewayMessage_to_json (Register u) = JObject [(''type'', JString ''register''), (''server_url'', JString u)]"
| "GatewayMessage_to_json (Connect t) = JObject [(''type'', JString ''connect''), (''target'', JString t)]"
| "GatewayMessage_to_json (ConnectRequest f) =
     JObject [(''type'', JString ''connect_request''), (''from'', JString f)]"
| "GatewayMessage_to_json (BeaconRegistration u p) =
     JObject [(''type'', JString ''beacon_registration''), (''server_url'', JString u), (''payload'', p)]"
| "GatewayMessage_to_json (Relay f t p) =
     JObject [(''type'', JString ''relay''), (''from'', JString f), (''to'', JString t), (''payload'', p)]"
| "GatewayMessage_to_json (Ack b m) =
     JObject ([(''type'', JString ''ack''), (''ok'', JBool b)] @
              (case m of None \<Rightarrow> [] | Some s \<Rightarrow> [(''message'', JString s)]))"

definition GatewayMessage_of_fields :: "string \<Rightarrow> json \<Rightarrow> GatewayMessage option" where
  "GatewayMessage_of_fields tag v =
     (if tag = ''register'' then
        Option.bind (struct_fields [''server_url''] v) (\<lambda>o1. map_option Register (field as_str o1 ''server_url''))
      else if tag = ''connect'' then
        Option.bind (struct_fields [''target''] v) (\<lambda>o1. map_option Connect (field as_str o1 ''target''))
      else if tag = ''connect_request'' then
        Option.bind (struct_fields [''from''] v) (\<lambda>o1. map_option ConnectRequest (field as_str o1 ''from''))
      else if tag = ''beacon_registration'' then
        Option.bind (struct_fields [''server_url'', ''payload''] v) (\<lambda>o1.
          Option.bind (field as_str o1 ''server_url'') (\<lambda>u. map_option (BeaconRegistration u) (map_of o1 ''payload'')))
      else if tag = ''relay'' then
        Option.bind (struct_fields [''from'', ''to'', ''payload''] v) (\<lambda>o1.
          Option.bind (field as_str o1 ''from'') (\<lambda>f. Option.bind (field as_str o1 ''to'') (\<lambda>t.
            map_option (Relay f t) (map_of o1 ''payload''))))
      else if tag = ''ack'' then
        Option.bind (struct_fields [''ok'', ''message''] v) (\<lambda>o1.
          Option.bind (field as_bool o1 ''ok'') (\<lambda>b. map_option (Ack b) (opt_str_field o1 ''message'')))
      else None)"

definition GatewayMessage_from_json :: "json \<Rightarrow> GatewayMessage option" where
  "GatewayMessage_from_json v = Option.bind (split_tag v) (\<lambda>(tag, w). GatewayMessage_of_fields tag w)"

text \<open>What an inbound frame is logged as; \<open>parse\<close> is \<^verbatim>\<open>serde_json\<close>'s reader.\<close>

datatype inbound_log = PeerRequest string | PeerRelay string | AckOk | AckError "string option"
  | Unexpected GatewayMessage | Unparsed string

definition handle_inbound :: "(string \<Rightarrow> json option) \<Rightarrow> string \<Rightarrow> inbound_log" where
  "handle_inbound parse text =
     (case Option.bind (parse text) GatewayMessage_from_json of
        Some (ConnectRequest from) \<Rightarrow> PeerRequest from
      | Some (Relay from _ _) \<Rightarrow> PeerRelay from
      | Some (Ack ok message) \<Rightarrow> if ok then AckOk else AckError message
      | Some other \<Rightarrow> Unexpected other
      | None \<Rightarrow> Unparsed text)"

section \<open>The login protocol\<close>

record LoginRequest =
  lq_username :: string
  lq_password :: string

record BrokerInfo =
  br_host :: string
  br_port :: u16

record DeviceTopics =
  dt_cmds :: string
  dt_connect :: string
  dt_notify :: string

record LoginResponse =
  lr_protocol_version :: string
  lr_device_id :: string
  lr_mqtt_username :: string
  lr_mqtt_password :: string
  lr_broker :: BrokerInfo
  lr_topics :: DeviceTopics

datatype Envelope = Alive string

definition LoginRequest_to_json :: "LoginRequest \<Rightarrow> json" where
  "LoginRequest_to_json r =
     JObject [(''username'', JString (lq_username r)), (''password'', JString (lq_password r))]"

definition BrokerInfo_from_json :: "json \<Rightarrow> BrokerInfo option" where
  "BrokerInfo_from_json v =
     Option.bind (struct_fields [''host'', ''port''] v) (\<lambda>o1. Option.bind (field as_str o1 ''host'') (\<lambda>h.
       map_option (\<lambda>p. \<lparr>br_host = h, br_port = p\<rparr>) (field as_u16 o1 ''port'')))"

definition DeviceTopics_from_json :: "json \<Rightarrow> DeviceTopics option" where
  "DeviceTopics_from_json v =
     Option.bind (struct_fields [''cmds'', ''connect'', ''notify''] v) (\<lambda>o1. Option.bind (field as_str o1 ''cmds'') (\<lambda>c.
       Option.bind (field as_str o1 ''connect'') (\<lambda>n.
         map_option (\<lambda>y. \<lparr>dt_cmds = c, dt_connect = n, dt_notify = y\<rparr>) (field as_str o1 ''notify''))))"

definition LoginResponse_from_json :: "json \<Rightarrow> LoginResponse option" where
  "LoginResponse_from_json v =
     Option.bind (struct_fields [''protocol_version'', ''device_id'', ''mqtt_username'', ''mqtt_password'',
       ''broker'', ''topics''] v) (\<lambda>o1.
     Option.bind (field as_str o1 ''protocol_version'') (\<lambda>pv.
     Option.bind (field as_str o1 ''device_id'') (\<lambda>d.
     Option.bind (field as_str o1 ''mqtt_username'') (\<lambda>u.
     Option.bind (field as_str o1 ''mqtt_password'') (\<lambda>p.
     Option.bind (field BrokerInfo_from_json o1 ''broker'') (\<lambda>b.
     map_option (\<lambda>t. \<lparr>lr_protocol_version = pv, lr_device_id = d, lr_mqtt_username = u, lr_mqtt_password = p,
                      lr_broker = b, lr_topics = t\<rparr>)
       (field DeviceTopics_from_json o1 ''topics'')))))))"

fun Envelope_to_json :: "Envelope \<Rightarrow> json" where
  "Envelope_to_json (Alive d) = JObject [(''type'', JString ''alive''), (''device_id'', JString d)]"

definition Envelope_from_json :: "json \<Rightarrow> Envelope option" where
  "Envelope_from_json v =
     Option.bind (split_tag v) (\<lambda>(tag, w).
       if tag = ''alive'' then
         Option.bind (struct_fields [''device_id''] w) (\<lambda>o1. map_option Alive (field as_str o1 ''device_id''))
       else None)"

section \<open>Lemmas\<close>

text \<open>The rule \<^verbatim>\<open>rename_all = "snake_case"\<close>: an underscore before every capital but the first letter, all in
  lower case; and the names of the variants it is applied to.\<close>

definition snake_case :: "string \<Rightarrow> string" where
  "snake_case name = concat (map (\<lambda>(i, c).
     (if 0 < i \<and> c \<in> set ''ABCDEFGHIJKLMNOPQRSTUVWXYZ'' then ''_'' else []) @ [to_ascii_lower c]) (enumerate 0 name))"

fun variant_name :: "GatewayMessage \<Rightarrow> string" where
  "variant_name (Register _) = ''Register''"
| "variant_name (Connect _) = ''Connect''"
| "variant_name (ConnectRequest _) = ''ConnectRequest''"
| "variant_name (BeaconRegistration _ _) = ''BeaconRegistration''"
| "variant_name (Relay _ _ _) = ''Relay''"
| "variant_name (Ack _ _) = ''Ack''"

lemma snake_case_names:
  "snake_case ''Register'' = ''register''" "snake_case ''Connect'' = ''connect''"
  "snake_case ''ConnectRequest'' = ''connect_request''"
  "snake_case ''BeaconRegistration'' = ''beacon_registration''"
  "snake_case ''Relay'' = ''relay''" "snake_case ''Ack'' = ''ack''"
  by code_simp+

lemmas reader_defs = GatewayMessage_from_json_def GatewayMessage_of_fields_def field_def opt_str_field_def not_twice_def

text \<open>Reading back a serialised frame to which fields that no frame has were added.\<close>

definition frame_fields :: "string set" where
  "frame_fields = {''type'', ''server_url'', ''target'', ''from'', ''to'', ''payload'', ''ok'', ''message''}"

lemma filter_foreign:
  assumes "fst ` set extra \<inter> frame_fields = {}" and "k \<in> frame_fields"
  shows "filter (\<lambda>p. fst p = k) extra = []" and "map_of extra k = None"
  using assms by (auto simp: filter_empty_conv map_of_eq_None_iff)

lemma GatewayMessage_roundtrip:
  assumes "fst ` set extra \<inter> frame_fields = {}"
  shows "Option.bind (as_object (GatewayMessage_to_json m)) (\<lambda>o1. GatewayMessage_from_json (JObject (o1 @ extra))) = Some m"
proof -
  have f: "filter (\<lambda>p. fst p \<noteq> ''type'' \<and> fst p = k) extra = []"
    "map_of (filter (\<lambda>p. fst p \<noteq> ''type'') extra) k = None" "filter (\<lambda>p. fst p = k) extra = []"
    if "k \<in> {''type'', ''server_url'', ''target'', ''from'', ''to'', ''payload'', ''ok'', ''message''}" for k
    using that filter_foreign [OF assms, of k]
    by (auto simp: frame_fields_def filter_empty_conv map_of_eq_None_iff)
  show ?thesis
    by (cases m) (simp_all add: reader_defs f split: option.splits)
qed

lemma GatewayMessage_roundtrip_exact: "GatewayMessage_from_json (GatewayMessage_to_json m) = Some m"
  using GatewayMessage_roundtrip [of "[]" m] by (cases m) simp_all

lemma Envelope_roundtrip: "Envelope_from_json (Envelope_to_json e) = Some e"
  by (cases e) (simp add: Envelope_from_json_def field_def not_twice_def)

lemma from_json_tag:
  assumes "GatewayMessage_from_json v = Some m"
  shows "\<exists>w. split_tag v = Some (snake_case (variant_name m), w)"
  using assms
  by (auto simp: GatewayMessage_from_json_def GatewayMessage_of_fields_def bind_eq_Some_conv snake_case_names split: if_splits)

section \<open>Properties\<close>

text \<open>Claim C40. Every frame is read back from the JSON object it is serialised to, also when fields that
  no frame has were added to it, and so is every envelope. The object starts with the tag, which is
  the variant's name in snake case, and a value that is read carries the tag of what it is read as. An
  inbound frame is logged as a peer's request, as a relay, or as a positive or negative
  acknowledgement exactly when its text reads as that message, as unexpected exactly when it reads as
  a frame this server only ever sends, and as unparsed exactly when it does not read as a frame.\<close>

theorem wire_roundtrip:
  "(\<forall>extra. fst ` set extra \<inter> frame_fields = {} \<longrightarrow>
     Option.bind (as_object (GatewayMessage_to_json m)) (\<lambda>o1. GatewayMessage_from_json (JObject (o1 @ extra))) = Some m) \<and>
   Envelope_from_json (Envelope_to_json e) = Some e \<and>
   (\<exists>o1. GatewayMessage_to_json m = JObject ((''type'', JString (snake_case (variant_name m))) # o1)) \<and>
   (\<forall>v. GatewayMessage_from_json v = Some m \<longrightarrow> (\<exists>w. split_tag v = Some (snake_case (variant_name m), w))) \<and>
   (\<forall>f. handle_inbound parse text = PeerRequest f \<longleftrightarrow>
     (\<exists>v. parse text = Some v \<and> GatewayMessage_from_json v = Some (ConnectRequest f))) \<and>
   (\<forall>f. handle_inbound parse text = PeerRelay f \<longleftrightarrow>
     (\<exists>v to p. parse text = Some v \<and> GatewayMessage_from_json v = Some (Relay f to p))) \<and>
   (handle_inbound parse text = AckOk \<longleftrightarrow>
     (\<exists>v msg. parse text = Some v \<and> GatewayMessage_from_json v = Some (Ack True msg))) \<and>
   (\<forall>msg. handle_inbound parse text = AckError msg \<longleftrightarrow>
     (\<exists>v. parse text = Some v \<and> GatewayMessage_from_json v = Some (Ack False msg))) \<and>
   (\<forall>other. handle_inbound parse text = Unexpected other \<longleftrightarrow>
     (\<exists>v. parse text = Some v \<and> GatewayMessage_from_json v = Some other) \<and>
     variant_name other \<in> {''Register'', ''Connect'', ''BeaconRegistration''}) \<and>
   (\<forall>t. handle_inbound parse text = Unparsed t \<longleftrightarrow> t = text \<and> Option.bind (parse text) GatewayMessage_from_json = None)"
proof -
  have tag: "\<exists>o1. GatewayMessage_to_json m = JObject ((''type'', JString (snake_case (variant_name m))) # o1)"
    by (cases m) (simp_all add: snake_case_names)
  note inbound = handle_inbound_def bind_eq_Some_conv
  show ?thesis
    using GatewayMessage_roundtrip [of _ m] Envelope_roundtrip [of e] tag from_json_tag [of _ m]
    by (intro conjI allI impI) (auto simp: inbound split: option.splits GatewayMessage.splits if_splits)
qed

theorem wire_roundtrip_witness:
  "GatewayMessage_from_json (JObject [(''type'', JString ''connect_request''), (''from'', JString ''p''), (''v'', JNull)]) =
     Some (ConnectRequest ''p'')"
proof -
  have "fst ` set [(''v'', JNull)] \<inter> frame_fields = {}" by (simp add: frame_fields_def)
  from wire_roundtrip [of "ConnectRequest ''p''" "Alive []" "\<lambda>_. None" "[]", THEN conjunct1, rule_format, OF this]
  have "Option.bind (as_object (GatewayMessage_to_json (ConnectRequest ''p'')))
      (\<lambda>o1. GatewayMessage_from_json (JObject (o1 @ [(''v'', JNull)]))) = Some (ConnectRequest ''p'')" .
  then show ?thesis by simp
qed

end
