(* ===== verification/Beacon_Loop.thy ===== *)
theory Beacon_Loop
  imports Mqtt_Client Gateway_Url Gateway_Messages
begin

text \<open>
  The beacon message loop (\<^verbatim>\<open>App::run_beacon_message_loop\<close> of \<^verbatim>\<open>src/app.rs\<close>) over the registry, with
  \<^verbatim>\<open>connect_to_gateway\<close> of \<^verbatim>\<open>src/services/cloud_gateway/cloud_gateway_service.rs\<close>. One turn of the loop
  takes one event: a topic channel from a handshake, a run of the timeout sweep (dropped after some
  number of awaits when another branch of the \<^verbatim>\<open>select!\<close> wins), or an inbound message. A connection is
  named by its position in the list of connections opened so far. The lemmas give the invariant of
  every run, what each kind of advertisement does, and what becomes of a gateway whose connection was
  not associated with a beacon.
\<close>

section \<open>Data\<close>

text \<open>The reader of \<^verbatim>\<open>serde_json\<close> and the lossy conversion of bytes to text.\<close>

record json_lib =
  from_slice :: "bytes \<Rightarrow> json option"
  from_utf8_lossy :: "bytes \<Rightarrow> string"

text \<open>
  A connection as the task that serves it sees it: the server URL, the WebSocket URL and the queue of
  outbound messages. \<open>cn_gateway_url\<close> is a ghost field that nothing reads: it records the text the
  connection was opened for, which the program keeps in the beacon's record only.
\<close>

record connection =
  cn_server_url :: string
  cn_ws_url :: string
  cn_gateway_url :: string
  cn_queue :: "GatewayMessage list"

record app_state =
  reg :: BeaconRegistry
  conns :: "connection list"

datatype loop_event =
    NewChannel "unit result" instant TopicChannel
  | CheckTimeouts nat instant
  | Inbound instant MqttMessage

section \<open>Operations\<close>

definition connect_to_gateway :: "string \<Rightarrow> string \<Rightarrow> connection" where
  "connect_to_gateway server_url gw_url =
     \<lparr>cn_server_url = server_url, cn_ws_url = compute_ws_url gw_url, cn_gateway_url = gw_url, cn_queue = []\<rparr>"

definition OUTBOUND_CAPACITY :: nat where
  "OUTBOUND_CAPACITY = 64"

text \<open>A completed send. On a full queue the caller waits until the task has taken a message; the loop
  sends one message on a connection it has just opened, whose queue has room.\<close>

definition gateway_send :: "GatewayMessage \<Rightarrow> connection \<Rightarrow> connection" where
  "gateway_send m c = c\<lparr>cn_queue := cn_queue c @ [m]\<rparr>"

lemma new_connection_has_room: "length (cn_queue (connect_to_gateway server_url gw_url)) < OUTBOUND_CAPACITY"
  by (simp add: connect_to_gateway_def OUTBOUND_CAPACITY_def)

definition beacon_payload :: "json_lib \<Rightarrow> MqttMessage \<Rightarrow> json" where
  "beacon_payload J msg =
     (case from_slice J (msg_payload msg) of
        Some v \<Rightarrow> v
      | None \<Rightarrow> JString (from_utf8_lossy J (msg_payload msg)))"

definition beacon_gateway_url :: "json \<Rightarrow> string option" where
  "beacon_gateway_url v =
     Option.bind (as_object v) (\<lambda>obj. Option.bind (map_of obj ''gateway_url'') as_str)"

definition handle_message :: "json_lib \<Rightarrow> string \<Rightarrow> instant \<Rightarrow> MqttMessage \<Rightarrow> app_state \<Rightarrow> app_state" where
  "handle_message J server_url now msg st =
     (let reg1 = (case strip_suffix (msg_topic msg) ''/rec'' of
                    Some beacon_id \<Rightarrow> update_last_seen beacon_id now (reg st)
                  | None \<Rightarrow> reg st);
          payload = beacon_payload J msg
      in (case beacon_gateway_url payload of
            None \<Rightarrow> st\<lparr>reg := reg1\<rparr>
          | Some gw_url \<Rightarrow>
              if is_gateway_known gw_url reg1 then st\<lparr>reg := reg1\<rparr>
              else
                let reg2 = insert_gateway gw_url reg1;
                    tx = length (conns st);
                    conn = gateway_send (BeaconRegistration server_url payload)
                             (connect_to_gateway server_url gw_url)
                in st\<lparr>conns := conns st @ [conn],
                      reg := (case strip_suffix (msg_topic msg) ''/rec'' of
                                Some bid \<Rightarrow> associate_gateway bid gw_url tx reg2
                              | None \<Rightarrow> reg2\<lparr>dropped_txs := dropped_txs reg2 @ [tx]\<rparr>)\<rparr>))"

fun loop_step :: "json_lib \<Rightarrow> string \<Rightarrow> loop_event \<Rightarrow> app_state \<Rightarrow> app_state" where
  "loop_step J server_url (NewChannel sub now channel) st =
     st\<lparr>reg := register_channel sub now channel (reg st)\<rparr>"
| "loop_step J server_url (CheckTimeouts n now) st = st\<lparr>reg := run_state (check_timeouts n now (reg st))\<rparr>"
| "loop_step J server_url (Inbound now msg) st = handle_message J server_url now msg st"

definition run_beacon_message_loop ::
  "json_lib \<Rightarrow> string \<Rightarrow> string option \<Rightarrow> string list \<Rightarrow> loop_event list \<Rightarrow> app_state" where
  "run_beacon_message_loop J server_url own topics events =
     fold (loop_step J server_url) events \<lparr>reg = registry_new own topics, conns = []\<rparr>"

section \<open>The invariant of the loop\<close>

definition conn_live :: "app_state \<Rightarrow> conn_id \<Rightarrow> bool" where
  "conn_live st c \<longleftrightarrow> c < length (conns st) \<and> c \<notin> set (dropped_txs (reg st))"

text \<open>Besides the registry's invariant: a held sender belongs to a connection to the held gateway, only
  opened connections have been dropped, and every live connection is held by some beacon.\<close>

definition app_inv :: "string option \<Rightarrow> app_state \<Rightarrow> bool" where
  "app_inv own st \<longleftrightarrow>
     reg_inv own (reg st) \<and>
     (\<forall>i u c. gw_view (reg st) i = Some (u, Some c) \<longrightarrow>
        c < length (conns st) \<and> u = Some (cn_gateway_url (conns st ! c))) \<and>
     (\<forall>c\<in>set (dropped_txs (reg st)). c < length (conns st)) \<and>
     (\<forall>c. conn_live st c \<longrightarrow> (\<exists>i u. gw_view (reg st) i = Some (u, Some c)))"

lemma app_invD:
  assumes "app_inv own st"
  shows app_inv_reg: "reg_inv own (reg st)"
    and app_inv_url: "gw_view (reg st) i = Some (u, Some c) \<Longrightarrow> u = Some (cn_gateway_url (conns st ! c))"
    and app_inv_held_opened: "gw_view (reg st) i = Some (u, Some c) \<Longrightarrow> c < length (conns st)"
    and app_inv_opened: "c \<in> set (dropped_txs (reg st)) \<Longrightarrow> c < length (conns st)"
    and app_inv_held: "conn_live st c \<Longrightarrow> \<exists>i u. gw_view (reg st) i = Some (u, Some c)"
  using assms unfolding app_inv_def by blast+

lemma app_inv_init: "app_inv own \<lparr>reg = registry_new own topics, conns = []\<rparr>"
  using reg_inv_new [of own topics]
  by (simp add: app_inv_def conn_live_def) (simp add: registry_new_def gw_view_def)

text \<open>A step that opens no connection, keeps the invariant of the registry and changes views only by
  dropping senders.\<close>

lemma app_inv_reg_step:
  assumes inv: "app_inv own st" and "reg_inv own reg'"
    and views: "\<And>i u c. gw_view reg' i = Some (u, Some c) \<Longrightarrow> gw_view (reg st) i = Some (u, Some c)"
    and dropped: "set (dropped_txs reg') \<subseteq>
      set (dropped_txs (reg st)) \<union> {c. \<exists>i u. gw_view (reg st) i = Some (u, Some c)}"
    and kept: "\<And>i u c. gw_view (reg st) i = Some (u, Some c) \<Longrightarrow>
      c \<in> set (dropped_txs reg') \<or> gw_view reg' i = Some (u, Some c)"
    and mono: "set (dropped_txs (reg st)) \<subseteq> set (dropped_txs reg')"
  shows "app_inv own (st\<lparr>reg := reg'\<rparr>)"
proof -
  have "\<exists>i u. gw_view reg' i = Some (u, Some c)" if "conn_live (st\<lparr>reg := reg'\<rparr>) c" for c
  proof -
    from that mono have "conn_live st c" and n: "c \<notin> set (dropped_txs reg')" by (auto simp: conn_live_def)
    then show ?thesis using app_inv_held [OF inv] kept by blast
  qed
  moreover have "c < length (conns st)" if "c \<in> set (dropped_txs reg')" for c
    using that dropped app_inv_opened [OF inv] app_inv_held_opened [OF inv] by blast
  moreover have "c < length (conns st) \<and> u = Some (cn_gateway_url (conns st ! c))"
    if "gw_view reg' i = Some (u, Some c)" for i u c
    using views [OF that] app_inv_held_opened [OF inv] app_inv_url [OF inv] by blast
  ultimately show ?thesis
    using assms(2) unfolding app_inv_def by (simp add: conn_live_def)
qed

text \<open>The registry operations of the three branches, seen through their views.\<close>

lemma register_channel_tx_view:
  "gw_view (register_channel sub now ch rg) i = Some (u, Some c) \<longleftrightarrow> gw_view rg i = Some (u, Some c)"
  unfolding register_channel_view
  by (auto simp: gw_view_def ensure_record_get blank_record_def split: if_splits)

lemma app_inv_register:
  "app_inv own st \<Longrightarrow> app_inv own (st\<lparr>reg := register_channel sub now ch (reg st)\<rparr>)"
  by (rule app_inv_reg_step)
    (auto simp: register_channel_tx_view intro: reg_inv_register_channel app_inv_reg)

lemma update_last_seen_views [simp]:
  "gw_view (update_last_seen i now rg) j = gw_view rg j"
  "dropped_txs (update_last_seen i now rg) = dropped_txs rg"
  "known_gateways (update_last_seen i now rg) = known_gateways rg"
  "broadcast_topics (update_last_seen i now rg) = broadcast_topics rg"
  by (simp_all add: update_last_seen_def gw_view_simps gw_view_adjust)

definition touched :: "MqttMessage \<Rightarrow> instant \<Rightarrow> BeaconRegistry \<Rightarrow> BeaconRegistry" where
  "touched msg now rg =
     (case strip_suffix (msg_topic msg) ''/rec'' of Some i \<Rightarrow> update_last_seen i now rg | None \<Rightarrow> rg)"

lemma touched_views [simp]:
  "gw_view (touched msg now rg) j = gw_view rg j"
  "dropped_txs (touched msg now rg) = dropped_txs rg"
  "known_gateways (touched msg now rg) = known_gateways rg"
  "broadcast_topics (touched msg now rg) = broadcast_topics rg"
  by (simp_all add: touched_def split: option.splits)

lemma app_inv_touched: "app_inv own st \<Longrightarrow> app_inv own (st\<lparr>reg := touched msg now (reg st)\<rparr>)"
  by (rule app_inv_reg_step)
    (auto simp: touched_def reg_inv_update_last_seen app_inv_reg split: option.splits)

text \<open>The sweep drops exactly the senders of the records it removes, however far it gets.\<close>

lemma deregister_views:
  "gw_view (run_state (deregister n k rg)) i = Some p \<Longrightarrow> gw_view rg i = Some p"
  "gw_view rg i = Some (u, Some c) \<Longrightarrow>
     c \<in> set (dropped_txs (run_state (deregister n k rg))) \<or> gw_view (run_state (deregister n k rg)) i = Some (u, Some c)"
  "set (dropped_txs (run_state (deregister n k rg))) \<subseteq>
     set (dropped_txs rg) \<union> {c. \<exists>i u. gw_view rg i = Some (u, Some c)}"
  "set (dropped_txs rg) \<subseteq> set (dropped_txs (run_state (deregister n k rg)))"
  "known_gateways (run_state (deregister n k rg)) \<subseteq> known_gateways rg"
proof -
  consider "hm_get (records rg) k = None" | r where "hm_get (records rg) k = Some r" by fastforce
  note cases = this
  note eff = deregister_effect [of rg k _ n]
  show "gw_view (run_state (deregister n k rg)) i = Some p \<Longrightarrow> gw_view rg i = Some p"
    by (cases rule: cases) (simp add: deregister_def, auto simp: gw_view_def eff hmap_laws split: if_splits)
  show "gw_view rg i = Some (u, Some c) \<Longrightarrow>
     c \<in> set (dropped_txs (run_state (deregister n k rg))) \<or> gw_view (run_state (deregister n k rg)) i = Some (u, Some c)"
    by (cases rule: cases) (simp add: deregister_def, cases "i = k", auto simp: gw_view_def eff hmap_laws)
  show "set (dropped_txs (run_state (deregister n k rg))) \<subseteq>
     set (dropped_txs rg) \<union> {c. \<exists>i u. gw_view rg i = Some (u, Some c)}"
    by (cases rule: cases) (simp add: deregister_def, fastforce simp: eff gw_view_def)
  show "set (dropped_txs rg) \<subseteq> set (dropped_txs (run_state (deregister n k rg)))"
    by (cases rule: cases) (simp add: deregister_def, auto simp: eff)
  show "known_gateways (run_state (deregister n k rg)) \<subseteq> known_gateways rg"
    by (cases rule: cases) (simp add: deregister_def, auto dest: eff(3))
qed

lemma app_inv_deregister:
  assumes "app_inv own st"
  shows "app_inv own (st\<lparr>reg := run_state (deregister n k (reg st))\<rparr>)"
proof (rule app_inv_reg_step [OF assms reg_inv_deregister [OF app_inv_reg [OF assms]]])
qed (fact deregister_views)+

lemma app_inv_sweep: "app_inv own st \<Longrightarrow> app_inv own (st\<lparr>reg := run_state (sweep_stale n is (reg st))\<rparr>)"
proof (induction "is" arbitrary: n st)
  case (Cons i "is")
  let ?st = "st\<lparr>reg := run_state (deregister n i (reg st))\<rparr>"
  have inv: "app_inv own ?st" by (rule app_inv_deregister [OF Cons.prems])
  show ?case
  proof (cases "deregister n i (reg st)")
    case (Finished n1 reg1)
    then show ?thesis using Cons.IH [OF inv, of n1] by simp
  qed (use inv in simp)
qed simp

lemma app_inv_check_timeouts:
  "app_inv own st \<Longrightarrow> app_inv own (st\<lparr>reg := run_state (check_timeouts n now (reg st))\<rparr>)"
  using app_inv_sweep [of own st] by (simp add: check_timeouts_def)

text \<open>Opening a connection: its sender is either handed to a registered beacon or dropped at once.\<close>

definition drop_new :: "string \<Rightarrow> app_state \<Rightarrow> BeaconRegistry" where
  "drop_new url st = (insert_gateway url (reg st))\<lparr>dropped_txs := dropped_txs (reg st) @ [length (conns st)]\<rparr>"

lemma fresh_conn: "app_inv own st \<Longrightarrow> fresh_tx (length (conns st)) (reg st)"
  unfolding fresh_tx_def using app_inv_opened app_inv_held_opened by blast

lemma app_inv_open_dropped:
  assumes inv: "app_inv own st" 
  shows "app_inv own (st\<lparr>conns := conns st @ [conn], reg := drop_new url st\<rparr>)"
proof -
  have v [simp]: "gw_view (drop_new url st) i = gw_view (reg st) i" for i
    by (simp add: drop_new_def gw_view_simps)
  have "reg_inv own (drop_new url st)"
  proof (rule reg_inv_weaken [OF app_inv_reg [OF inv]])
    show "gw_view (reg st) i = Some (u, Some tx) \<Longrightarrow> tx \<notin> set (dropped_txs (drop_new url st))" for i u tx
      using reg_inv_live [OF app_inv_reg [OF inv], of i u tx] app_inv_held_opened [OF inv, of i u tx]
      by (auto simp: drop_new_def)
  qed (auto simp: drop_new_def)
  moreover have "conn_live (st\<lparr>conns := conns st @ [conn], reg := drop_new url st\<rparr>) c \<Longrightarrow> conn_live st c" for c
    by (auto simp: conn_live_def drop_new_def less_Suc_eq)
  moreover have "\<forall>c\<in>set (dropped_txs (drop_new url st)). c < Suc (length (conns st))"
    using app_inv_opened [OF inv] by (auto simp: drop_new_def less_Suc_eq)
  moreover have "c < Suc (length (conns st)) \<and> u = Some (cn_gateway_url ((conns st @ [conn]) ! c))"
    if "gw_view (reg st) i = Some (u, Some c)" for i u c
    using app_inv_held_opened [OF inv that] app_inv_url [OF inv that] by (simp add: nth_append)
  ultimately show ?thesis
    using app_inv_held [OF inv] unfolding app_inv_def by (simp add: conn_live_def)
qed

lemma app_inv_open_held:
  assumes inv: "app_inv own st" and new: "url \<notin> known_gateways (reg st)"
    and r: "hm_get (records (reg st)) i = Some r" and conn: "cn_gateway_url conn = url"
  shows "app_inv own (st\<lparr>conns := conns st @ [conn],
    reg := associate_gateway i url (length (conns st)) (insert_gateway url (reg st))\<rparr>)"
proof -
  let ?tx = "length (conns st)"
  let ?rg = "associate_gateway i url ?tx (insert_gateway url (reg st))"
  have rinv: "reg_inv own ?rg"
    by (rule reg_inv_associate [OF app_inv_reg [OF inv] new fresh_conn [OF inv]])
  have v: "gw_view ?rg j = (if j = i then Some (Some url, Some ?tx) else gw_view (reg st) j)" for j
    using associate_view [of "insert_gateway url (reg st)" i r url ?tx j] r by simp
  have dr: "set (dropped_txs ?rg) = set (dropped_txs (reg st)) \<union> set_option (gateway_shutdown_tx r)"
    using associate_dropped(1) [of "insert_gateway url (reg st)" i r url ?tx] r by simp
  have vi: "gw_view (reg st) i = Some (gateway_url r, gateway_shutdown_tx r)" by (simp add: gw_view_def r)
  have "c < Suc ?tx \<and> u = Some (cn_gateway_url ((conns st @ [conn]) ! c))"
    if "gw_view ?rg j = Some (u, Some c)" for j u c
    using that app_inv_held_opened [OF inv, of j u c] app_inv_url [OF inv, of j u c] conn
    by (auto simp: v nth_append split: if_splits)
  moreover have "c < Suc ?tx" if "c \<in> set (dropped_txs ?rg)" for c
    using that app_inv_opened [OF inv, of c] app_inv_held_opened [OF inv, of i _ c] vi
    by (fastforce simp: dr)
  moreover have "\<exists>j u. gw_view ?rg j = Some (u, Some c)"
    if live: "c < Suc ?tx" "c \<notin> set (dropped_txs ?rg)" for c
  proof (cases "c = ?tx")
    case True
    then show ?thesis using v [of i] by auto
  next
    case False
    with live have "conn_live st c" by (auto simp: conn_live_def dr)
    then obtain j u where j: "gw_view (reg st) j = Some (u, Some c)" using app_inv_held [OF inv] by blast
    with live(2) vi have "j \<noteq> i" by (auto simp: dr)
    with j v [of j] show ?thesis by auto
  qed
  ultimately show ?thesis using rinv unfolding app_inv_def by (simp add: conn_live_def)
qed

lemma handle_message_eq:
  "handle_message J server_url now msg st =
     (let st1 = st\<lparr>reg := touched msg now (reg st)\<rparr>; payload = beacon_payload J msg
      in (case beacon_gateway_url payload of
            None \<Rightarrow> st1
          | Some url \<Rightarrow>
              if url \<in> known_gateways (reg st) then st1
              else let conn = gateway_send (BeaconRegistration server_url payload) (connect_to_gateway server_url url)
                   in st1\<lparr>conns := conns st1 @ [conn],
                         reg := (case strip_suffix (msg_topic msg) ''/rec'' of
                                   Some bid \<Rightarrow>
                                     (case hm_get (records (reg st1)) bid of
                                        None \<Rightarrow> drop_new url st1
                                      | Some _ \<Rightarrow> associate_gateway bid url (length (conns st1)) (insert_gateway url (reg st1)))
                                 | None \<Rightarrow> drop_new url st1)\<rparr>))"
  by (auto simp: handle_message_def touched_def Let_def is_gateway_known_def drop_new_def associate_gateway_def
      split: option.splits)

lemma new_conn_url [simp]: "cn_gateway_url (gateway_send m (connect_to_gateway s url)) = url"
  by (simp add: gateway_send_def connect_to_gateway_def)

lemma app_inv_handle_message:
  assumes "app_inv own st"
  shows "app_inv own (handle_message J server_url now msg st)"
proof -
  have inv: "app_inv own (st\<lparr>reg := touched msg now (reg st)\<rparr>)" by (rule app_inv_touched [OF assms])
  show ?thesis
    using app_inv_open_dropped [OF inv] app_inv_open_held [OF inv] inv
    by (auto simp: handle_message_eq Let_def split: option.splits)
qed

lemma app_inv_step: "app_inv own st \<Longrightarrow> app_inv own (loop_step J server_url e st)"
  by (cases e) (auto simp: app_inv_register app_inv_check_timeouts app_inv_handle_message)

lemma app_inv_run: "app_inv own (run_beacon_message_loop J server_url own topics events)"
proof -
  have "app_inv own st \<Longrightarrow> app_inv own (fold (loop_step J server_url) events st)" for st
    by (induction events arbitrary: st) (auto simp: app_inv_step)
  then show ?thesis unfolding run_beacon_message_loop_def using app_inv_init by blast
qed

text \<open>Every connection goes to the WebSocket URL of the text it was opened for.\<close>

lemma ws_urls_step:
  assumes "\<forall>c\<in>set (conns st). cn_ws_url c = compute_ws_url (cn_gateway_url c)"
  shows "\<forall>c\<in>set (conns (loop_step J server_url e st)). cn_ws_url c = compute_ws_url (cn_gateway_url c)"
  using assms
  by (cases e) (auto simp: handle_message_def gateway_send_def connect_to_gateway_def Let_def split: option.splits)

lemma ws_urls_run:
  assumes "c < length (conns (run_beacon_message_loop J server_url own topics events))"
  shows "cn_ws_url (conns (run_beacon_message_loop J server_url own topics events) ! c) =
    compute_ws_url (cn_gateway_url (conns (run_beacon_message_loop J server_url own topics events) ! c))"
proof -
  have "\<forall>c\<in>set (conns (fold (loop_step J server_url) events st)). cn_ws_url c = compute_ws_url (cn_gateway_url c)"
    if "\<forall>c\<in>set (conns st). cn_ws_url c = compute_ws_url (cn_gateway_url c)" for st
    using that
  proof (induction events arbitrary: st)
    case (Cons e events)
    show ?case unfolding fold_Cons o_apply by (rule Cons.IH [OF ws_urls_step [OF Cons.prems]])
  qed simp
  from this [of "\<lparr>reg = registry_new own topics, conns = []\<rparr>"] show ?thesis
    using assms nth_mem unfolding run_beacon_message_loop_def by fastforce
qed

section \<open>Gateways nobody holds\<close>

text \<open>A URL that is known while no beacon holds it is never released.\<close>

definition orphaned :: "string \<Rightarrow> BeaconRegistry \<Rightarrow> bool" where
  "orphaned url rg \<longleftrightarrow> url \<in> known_gateways rg \<and> (\<forall>i t. gw_view rg i \<noteq> Some (Some url, t))"

lemma register_channel_url_view:
  "gw_view (register_channel sub now ch rg) i = Some (Some u, t) \<longleftrightarrow> gw_view rg i = Some (Some u, t)"
  unfolding register_channel_view
  by (auto simp: gw_view_def ensure_record_get blank_record_def split: if_splits)

lemma orphaned_register: "orphaned url (register_channel sub now ch rg) = orphaned url rg"
  by (simp add: orphaned_def register_channel_url_view)

lemma orphaned_touched [simp]: "orphaned url (touched msg now rg) = orphaned url rg"
  by (simp add: orphaned_def)

lemma orphaned_deregister:
  assumes "orphaned url rg"
  shows "orphaned url (run_state (deregister n k rg))"
proof (cases "hm_get (records rg) k")
  case None
  with assms show ?thesis by (simp add: deregister_def)
next
  case (Some r)
  with assms have "gateway_url r \<noteq> Some url" by (auto simp: orphaned_def gw_view_def)
  with deregister_effect(2) [OF Some, of n] assms have "url \<in> known_gateways (run_state (deregister n k rg))"
    by (auto simp: orphaned_def)
  with assms deregister_views(1) show ?thesis unfolding orphaned_def by metis
qed

lemma orphaned_sweep: "orphaned url rg \<Longrightarrow> orphaned url (run_state (sweep_stale n is rg))"
proof (induction n "is" rg rule: sweep_stale.induct)
  case (2 n i "is" rg)
  then show ?case using orphaned_deregister [OF "2.prems", of n i] by (auto split: run.splits)
qed simp

lemma orphaned_associate:
  "orphaned url rg \<Longrightarrow> url' \<noteq> url \<Longrightarrow> orphaned url (associate_gateway i url' tx (insert_gateway url' rg))"
  by (cases "hm_get (records rg) i")
    (auto simp: orphaned_def associate_frame associate_view, auto simp: associate_gateway_def gw_view_simps)

lemma orphaned_drop_new: "orphaned url (reg st) \<Longrightarrow> orphaned url (drop_new url' st)"
  by (auto simp: orphaned_def drop_new_def gw_view_simps)

definition conns_to :: "string \<Rightarrow> app_state \<Rightarrow> connection list" where
  "conns_to url st = filter (\<lambda>c. cn_gateway_url c = url) (conns st)"

lemma orphaned_step:
  assumes "orphaned url (reg st)"
  shows "orphaned url (reg (loop_step J s e st)) \<and> conns_to url (loop_step J s e st) = conns_to url st"
proof (cases e)
  case (NewChannel sub now ch)
  with assms show ?thesis by (simp add: orphaned_register conns_to_def)
next
  case (CheckTimeouts n now)
  with assms show ?thesis by (simp add: check_timeouts_def orphaned_sweep conns_to_def)
next
  case (Inbound now msg)
  have k: "url \<in> known_gateways (reg st)" using assms by (simp add: orphaned_def)
  have o: "orphaned url (touched msg now (reg st))" using assms by simp
  show ?thesis
    unfolding Inbound loop_step.simps handle_message_eq
    using assms k orphaned_associate [OF o] orphaned_drop_new [of url "st\<lparr>reg := touched msg now (reg st)\<rparr>"]
    by (auto simp: Let_def conns_to_def split: option.splits)
qed

lemma orphaned_fold:
  "orphaned url (reg st) \<Longrightarrow>
   orphaned url (reg (fold (loop_step J s) events st)) \<and>
   conns_to url (fold (loop_step J s) events st) = conns_to url st"
  by (induction events arbitrary: st) (auto simp: orphaned_step)

lemma orphaned_no_live:
  assumes "app_inv own st" and "orphaned url (reg st)" and "conn_live st c"
  shows "cn_gateway_url (conns st ! c) \<noteq> url"
proof -
  from app_inv_held [OF assms(1,3)] obtain i u where "gw_view (reg st) i = Some (u, Some c)" by blast
  with app_inv_url [OF assms(1) this] assms(2) show ?thesis by (auto simp: orphaned_def)
qed

section \<open>Broadcast topics of registered beacons\<close>

definition channel_ok :: "TopicChannel \<Rightarrow> bool" where
  "channel_ok ch \<longleftrightarrow>
     (case tc_topic_type ch of
        Listen \<Rightarrow> mt_topic (tc_topic ch) = tc_beacon_id ch @ ''/rec''
      | Broadcast \<Rightarrow> mt_topic (tc_topic ch) = tc_beacon_id ch @ ''/cast''
      | Hybrid \<Rightarrow> False)"

text \<open>Channels as the handshake makes them, and sweeps that have not begun or run to their end.\<close>

fun orderly :: "json_lib \<Rightarrow> string \<Rightarrow> loop_event list \<Rightarrow> app_state \<Rightarrow> bool" where
  "orderly J s [] st = True"
| "orderly J s (e # es) st =
     ((case e of
         NewChannel _ _ ch \<Rightarrow> channel_ok ch
       | CheckTimeouts n now \<Rightarrow> n = 0 \<or> 3 * length (stale_ids now (reg st)) < n
       | Inbound _ _ \<Rightarrow> True) \<and> orderly J s es (loop_step J s e st))"

definition casts_of :: "BeaconRegistry \<Rightarrow> string set" where
  "casts_of rg = {i @ ''/cast'' | i. \<exists>r. hm_get (records rg) i = Some r \<and> broadcast_topic r \<noteq> []}"

definition cast_inv :: "BeaconRegistry \<Rightarrow> bool" where
  "cast_inv rg \<longleftrightarrow> hm_wf (records rg) \<and>
     (\<forall>i r. hm_get (records rg) i = Some r \<longrightarrow> broadcast_topic r \<in> {[], i @ ''/cast''}) \<and>
     set (broadcast_topics rg) = casts_of rg"

text \<open>Only which records there are and their broadcast topics matter.\<close>

definition cast_view :: "BeaconRegistry \<Rightarrow> string \<Rightarrow> string option" where
  "cast_view rg i = map_option broadcast_topic (hm_get (records rg) i)"

lemma cast_inv_alt:
  "cast_inv rg \<longleftrightarrow> hm_wf (records rg) \<and>
     (\<forall>i t. cast_view rg i = Some t \<longrightarrow> t \<in> {[], i @ ''/cast''}) \<and>
     set (broadcast_topics rg) = {t. t \<noteq> [] \<and> (\<exists>i. cast_view rg i = Some t)}"
  unfolding cast_inv_def casts_of_def cast_view_def by auto blast+

lemma cast_inv_cong:
  "cast_inv rg \<Longrightarrow> hm_wf (records rg') \<Longrightarrow> cast_view rg' = cast_view rg \<Longrightarrow>
   broadcast_topics rg' = broadcast_topics rg \<Longrightarrow> cast_inv rg'"
  by (simp add: cast_inv_alt)

lemma cast_view_register:
  assumes "channel_ok ch"
  shows "cast_view (register_channel sub now ch rg) i =
      (if i = tc_beacon_id ch
       then (if tc_topic_type ch = Broadcast then Some (i @ ''/cast'')
             else Some (case cast_view rg i of None \<Rightarrow> [] | Some t \<Rightarrow> t))
       else cast_view rg i)"
    and "set (broadcast_topics (register_channel sub now ch rg)) =
      set (broadcast_topics rg) \<union>
      (if tc_topic_type ch = Broadcast then {tc_beacon_id ch @ ''/cast''} else {})"
  using assms
  by (auto simp: cast_view_def register_channel_def channel_ok_def Let_def hmap_laws ensure_record_get
      blank_record_def split: TopicType.splits sum.splits option.splits)

lemma cast_inv_register:
  assumes "cast_inv rg" and "channel_ok ch"
  shows "cast_inv (register_channel sub now ch rg)"
proof -
  let ?rg = "register_channel sub now ch rg" and ?i = "tc_beacon_id ch"
  from assms(1) have wf: "hm_wf (records rg)" and sh: "\<And>i t. cast_view rg i = Some t \<Longrightarrow> t \<in> {[], i @ ''/cast''}"
    and top: "set (broadcast_topics rg) = {t. t \<noteq> [] \<and> (\<exists>i. cast_view rg i = Some t)}"
    by (simp_all add: cast_inv_alt)
  have "t \<in> {[], i @ ''/cast''}" if "cast_view ?rg i = Some t" for i t
    using that sh [of i] by (auto simp: cast_view_register(1) [OF assms(2)] split: if_splits option.splits)
  moreover have "cast_view ?rg i = Some t \<longleftrightarrow>
      cast_view rg i = Some t \<or> tc_topic_type ch = Broadcast \<and> i = ?i \<and> t = ?i @ ''/cast''"
    if "t \<noteq> []" for i t
    using that sh [of i t] by (simp add: cast_view_register(1) [OF assms(2)] split: option.splits) auto
  then have "set (broadcast_topics ?rg) = {t. t \<noteq> [] \<and> (\<exists>i. cast_view ?rg i = Some t)}"
    unfolding cast_view_register(2) [OF assms(2)] top by (auto split: if_splits)
  ultimately show ?thesis
    using register_channel_wf [OF wf] by (simp add: cast_inv_alt)
qed

lemma cast_inv_update: "cast_inv rg \<Longrightarrow> cast_inv (update_last_seen i now rg)"
proof (rule cast_inv_cong)
  show "cast_inv rg \<Longrightarrow> hm_wf (records (update_last_seen i now rg))"
    by (auto simp: cast_inv_def update_last_seen_def)
qed (auto simp: cast_view_def update_last_seen_def hmap_laws option.map_comp comp_def fun_eq_iff)

lemma cast_inv_swept:
  assumes inv: "cast_inv rg" and sw: "swept S rg rg'"
  shows "cast_inv rg'"
proof -
  from inv have wf: "hm_wf (records rg)" and sh: "\<And>i t. cast_view rg i = Some t \<Longrightarrow> t \<in> {[], i @ ''/cast''}"
    and top: "set (broadcast_topics rg) = {t. t \<noteq> [] \<and> (\<exists>i. cast_view rg i = Some t)}"
    by (simp_all add: cast_inv_alt)
  have get: "hm_get (records rg') i = (if i \<in> S then None else hm_get (records rg) i)" for i
    using map_of_filter_keys [of "\<lambda>k. k \<notin> S" "records rg" i] sw by (simp add: swept_def)
  then have v: "cast_view rg' i = (if i \<in> S then None else cast_view rg i)" for i
    by (simp add: cast_view_def)
  have wf': "hm_wf (records rg')" using sw wf by (simp add: swept_def hm_wf_def distinct_map_filter)
  have "set (broadcast_topics rg') =
      {t \<in> set (broadcast_topics rg). \<not> (\<exists>i\<in>S. cast_view rg i = Some t \<and> t \<noteq> [])}"
    using sw unfolding swept_def cast_view_def by auto
  also have "\<dots> = {t. t \<noteq> [] \<and> (\<exists>i. cast_view rg' i = Some t)}"
    unfolding top v using sh by (auto split: if_splits)
  finally show ?thesis using wf' sh v by (auto simp: cast_inv_alt split: if_splits)
qed

lemma cast_inv_step:
  assumes inv: "cast_inv (reg st)"
    and ok: "case e of NewChannel _ _ ch \<Rightarrow> channel_ok ch
       | CheckTimeouts n now \<Rightarrow> n = 0 \<or> 3 * length (stale_ids now (reg st)) < n
       | Inbound _ _ \<Rightarrow> True"
  shows "cast_inv (reg (loop_step J s e st))"
proof (cases e)
  case (NewChannel sub now ch)
  with inv ok show ?thesis by (simp add: cast_inv_register)
next
  case (CheckTimeouts n now)
  show ?thesis
  proof (cases "n = 0")
    case True
    with inv CheckTimeouts show ?thesis by (simp add: check_timeouts_def)
  next
    case False
    with ok CheckTimeouts have "3 * length (stale_ids now (reg st)) < n" by simp
    moreover have "hm_wf (records (reg st))" using inv by (simp add: cast_inv_def)
    ultimately obtain n' reg' where "check_timeouts n now (reg st) = Finished n' reg'"
      "swept (set (stale_ids now (reg st))) (reg st) reg'"
      using check_timeouts_enough by blast
    with inv CheckTimeouts show ?thesis by (simp add: cast_inv_swept)
  qed
next
  case (Inbound now msg)
  have t: "cast_inv (touched msg now (reg st))"
    using inv by (simp add: touched_def cast_inv_update split: option.splits)
  have d: "cast_inv (drop_new url (st\<lparr>reg := touched msg now (reg st)\<rparr>))" for url
    using t by (simp add: cast_inv_alt drop_new_def cast_view_def)
  have a: "cast_inv (associate_gateway i url tx (insert_gateway url rg))" if "cast_inv rg" for i url tx rg
  proof (rule cast_inv_cong [OF that])
    show "hm_wf (records (associate_gateway i url tx (insert_gateway url rg)))"
      using that by (auto simp: cast_inv_def associate_gateway_def split: option.splits)
  qed (auto simp: cast_view_def associate_gateway_def hmap_laws associate_frame fun_eq_iff split: option.splits)
  show ?thesis
    unfolding Inbound loop_step.simps handle_message_eq
    using t d a [OF t] by (simp add: Let_def split: option.splits)
qed

lemma cast_inv_fold: "cast_inv (reg st) \<Longrightarrow> orderly J s events st \<Longrightarrow> cast_inv (reg (fold (loop_step J s) events st))"
proof (induction events arbitrary: st)
  case (Cons e events)
  then show ?case using cast_inv_step [of st e J s] by simp
qed simp

text \<open>A beacon keeps its broadcast topic while it is registered and not announced again.\<close>

lemma cast_view_swept: "swept S rg rg' \<Longrightarrow> cast_view rg' i = (if i \<in> S then None else cast_view rg i)"
  using map_of_filter_keys [of "\<lambda>k. k \<notin> S" "records rg" i] by (simp add: swept_def cast_view_def)

lemma cast_view_message: "cast_view (reg (handle_message J s now msg st)) i = cast_view (reg st) i"
  by (auto simp: handle_message_eq cast_view_def touched_def update_last_seen_def drop_new_def associate_gateway_def
      hmap_laws associate_frame option.map_comp comp_def Let_def split: option.splits)

lemma cast_view_step:
  assumes "hm_wf (records (reg st))"
    and "case e of NewChannel _ _ ch \<Rightarrow> channel_ok ch
       | CheckTimeouts n now \<Rightarrow> n = 0 \<or> 3 * length (stale_ids now (reg st)) < n
       | Inbound _ _ \<Rightarrow> True"
    and "\<And>sub now ch. e = NewChannel sub now ch \<Longrightarrow> tc_beacon_id ch \<noteq> i"
  shows "cast_view (reg (loop_step J s e st)) i \<in> {None, cast_view (reg st) i}"
proof (cases e)
  case (NewChannel sub now ch)
  with assms(2,3) show ?thesis by (auto simp: cast_view_register(1))
next
  case (CheckTimeouts n now)
  show ?thesis
  proof (cases "n = 0")
    case True
    with CheckTimeouts show ?thesis by (simp add: check_timeouts_def)
  next
    case False
    with assms(2) CheckTimeouts have "3 * length (stale_ids now (reg st)) < n" by simp
    with assms(1) obtain n' reg' where "check_timeouts n now (reg st) = Finished n' reg'"
      "swept (set (stale_ids now (reg st))) (reg st) reg'"
      using check_timeouts_enough by blast
    with CheckTimeouts show ?thesis by (simp add: cast_view_swept)
  qed
qed (simp add: cast_view_message)

lemma cast_view_fold:
  "cast_inv (reg st) \<Longrightarrow> orderly J s events st \<Longrightarrow> \<forall>sub now ch. NewChannel sub now ch \<in> set events \<longrightarrow> tc_beacon_id ch \<noteq> i \<Longrightarrow>
   cast_view (reg (fold (loop_step J s) events st)) i \<in> {None, cast_view (reg st) i}"
proof (induction events arbitrary: st)
  case (Cons e events)
  let ?st1 = "loop_step J s e st"
  have ok: "case e of NewChannel _ _ ch \<Rightarrow> channel_ok ch
       | CheckTimeouts n now \<Rightarrow> n = 0 \<or> 3 * length (stale_ids now (reg st)) < n
       | Inbound _ _ \<Rightarrow> True" and o: "orderly J s events ?st1" using Cons.prems(2) by simp_all
  have inv: "cast_inv (reg ?st1)" by (rule cast_inv_step [OF Cons.prems(1) ok])
  have "hm_wf (records (reg st))" using Cons.prems(1) by (simp add: cast_inv_def)
  from cast_view_step [OF this ok, of i J s] have "cast_view (reg ?st1) i \<in> {None, cast_view (reg st) i}"
    using Cons.prems(3) by auto
  with Cons.IH [OF inv o] Cons.prems(3) show ?case by auto
qed simp

lemma orderly_append:
  "orderly J s (xs @ ys) st \<longleftrightarrow> orderly J s xs st \<and> orderly J s ys (fold (loop_step J s) xs st)"
  by (induction xs arbitrary: st) auto

lemma cast_inv_run:
  assumes "orderly J s events \<lparr>reg = registry_new own [], conns = []\<rparr>"
  shows "cast_inv (reg (run_beacon_message_loop J s own [] events))"
proof -
  have "cast_inv (registry_new own [])" by (simp add: cast_inv_def casts_of_def registry_new_def)
  then show ?thesis using cast_inv_fold [OF _ assms] by (simp add: run_beacon_message_loop_def)
qed

text \<open>As long as no sweep is dropped half way, the shared list of broadcast topics holds exactly the topics
  of the registered beacons.\<close>

lemma broadcast_list_exact:
  assumes "orderly J server_url events \<lparr>reg = registry_new own [], conns = []\<rparr>"
  shows "set (broadcast_topics (reg (run_beacon_message_loop J server_url own [] events))) =
    {i @ ''/cast'' | i. \<exists>r. hm_get (records (reg (run_beacon_message_loop J server_url own [] events))) i = Some r \<and>
      broadcast_topic r = i @ ''/cast''}"
proof -
  let ?rg = "reg (run_beacon_message_loop J server_url own [] events)"
  have inv: "cast_inv ?rg" by (rule cast_inv_run [OF assms])
  then have "broadcast_topic r \<noteq> [] \<longleftrightarrow> broadcast_topic r = i @ ''/cast''" if "hm_get (records ?rg) i = Some r" for i r
    using that by (auto simp: cast_inv_def)
  with inv show ?thesis unfolding cast_inv_def casts_of_def by (simp cong: conj_cong)
qed

section \<open>Opening a connection\<close>

lemma opened_connection:
  assumes "app_inv own st" and "hm_get (records (reg st)) bid = Some r"
    and "msg_topic msg = bid @ ''/rec''" and "beacon_gateway_url (beacon_payload J msg) = Some url"
    and "url \<notin> known_gateways (reg st)"
  shows "conns (handle_message J server_url now msg st) = conns st @
      [gateway_send (BeaconRegistration server_url (beacon_payload J msg)) (connect_to_gateway server_url url)]"
    and "hm_get (records (reg (handle_message J server_url now msg st))) bid =
      Some (r\<lparr>last_seen := now, gateway_url := Some url, gateway_shutdown_tx := Some (length (conns st))\<rparr>)"
    and "conn_live (handle_message J server_url now msg st) (length (conns st))"
    and "set (dropped_txs (reg (handle_message J server_url now msg st))) =
      set (dropped_txs (reg st)) \<union> set_option (gateway_shutdown_tx r)"
    and "gateway_shutdown_tx r = Some c \<Longrightarrow> conn_live st c \<and> \<not> conn_live (handle_message J server_url now msg st) c"
proof -
  let ?st' = "handle_message J server_url now msg st" and ?n = "length (conns st)"
  have inv': "app_inv own ?st'" by (rule app_inv_handle_message [OF assms(1)])
  have rec: "hm_get (records (touched msg now (reg st))) bid = Some (r\<lparr>last_seen := now\<rparr>)"
    by (simp add: touched_def assms(2,3) update_last_seen_def hmap_laws)
  have eq: "?st' = st\<lparr>conns := conns st @
        [gateway_send (BeaconRegistration server_url (beacon_payload J msg)) (connect_to_gateway server_url url)],
      reg := associate_gateway bid url ?n (insert_gateway url (touched msg now (reg st)))\<rparr>"
    by (simp add: handle_message_eq Let_def assms(3-5) rec)
  show get: "hm_get (records (reg ?st')) bid =
      Some (r\<lparr>last_seen := now, gateway_url := Some url, gateway_shutdown_tx := Some ?n\<rparr>)"
    unfolding eq using rec by (simp add: associate_gateway_def hmap_laws)
  show dr: "set (dropped_txs (reg ?st')) = set (dropped_txs (reg st)) \<union> set_option (gateway_shutdown_tx r)"
    unfolding eq using rec associate_dropped(1) [of "insert_gateway url (touched msg now (reg st))" bid] by simp
  have vi: "gw_view (reg st) bid = Some (gateway_url r, gateway_shutdown_tx r)" by (simp add: gw_view_def assms(2))
  have new: "gw_view (reg ?st') bid = Some (Some url, Some ?n)" by (simp add: gw_view_def get)
  show "conn_live ?st' ?n"
    using reg_inv_live [OF app_inv_reg [OF inv'] new] app_inv_held_opened [OF inv' new] by (simp add: conn_live_def)
  show "conn_live st c \<and> \<not> conn_live ?st' c" if "gateway_shutdown_tx r = Some c"
    using that vi reg_inv_live [OF app_inv_reg [OF assms(1)], of bid _ c] app_inv_held_opened [OF assms(1), of bid _ c]
    by (simp add: conn_live_def dr)
  show "conns ?st' = conns st @
      [gateway_send (BeaconRegistration server_url (beacon_payload J msg)) (connect_to_gateway server_url url)]"
    by (simp add: eq)
qed

lemma sent_connection [simp]:
  "cn_ws_url (gateway_send m (connect_to_gateway server_url url)) = compute_ws_url url"
  "cn_queue (gateway_send m (connect_to_gateway server_url url)) = [m]"
  by (simp_all add: gateway_send_def connect_to_gateway_def)

text \<open>
  The spelling matters. When the URL of a gateway that a beacon holds a live connection to is
  advertised by another beacon with a slash appended, a second connection to the very same WebSocket
  URL is opened and both are live; and so is a connection to the configured gateway itself when its
  URL is advertised with a slash appended.
\<close>

lemma respelled_gateway_connected_again:
  assumes "st = run_beacon_message_loop J server_url own topics events"
    and "hm_get (records (reg st)) bid = Some r" and "msg_topic msg = bid @ ''/rec''"
    and "beacon_gateway_url (beacon_payload J msg) = Some (u @ ''/'')" and "u @ ''/'' \<notin> known_gateways (reg st)"
    and "st' = handle_message J server_url now msg st"
  shows "conn_live st' (length (conns st)) \<and> cn_ws_url (conns st' ! length (conns st)) = compute_ws_url u \<and>
    (\<forall>i c. i \<noteq> bid \<longrightarrow> gw_view (reg st) i = Some (Some u, Some c) \<longrightarrow>
       c \<noteq> length (conns st) \<and> conn_live st' c \<and> cn_ws_url (conns st' ! c) = compute_ws_url u)"
proof -
  have inv: "app_inv own st" unfolding assms(1) by (rule app_inv_run)
  note o = opened_connection [OF inv assms(2-5), where server_url = server_url and now = now, folded assms(6)]
  have same: "compute_ws_url (u @ ''/'') = compute_ws_url u" using compute_ws_url_slashes [of u 1] by simp
  have "c \<noteq> length (conns st) \<and> conn_live st' c \<and> cn_ws_url (conns st' ! c) = compute_ws_url u"
    if i: "i \<noteq> bid" "gw_view (reg st) i = Some (Some u, Some c)" for i c
  proof -
    have c: "c < length (conns st)" "cn_gateway_url (conns st ! c) = u"
      using app_inv_held_opened [OF inv i(2)] app_inv_url [OF inv i(2)] by simp_all
    then have "cn_ws_url (conns st ! c) = compute_ws_url u" using ws_urls_run unfolding assms(1) by blast
    moreover have "gateway_shutdown_tx r \<noteq> Some c"
      using reg_inv_tx_unique [OF app_inv_reg [OF inv] i(2), of bid "gateway_url r"] i(1) assms(2) by (auto simp: gw_view_def)
    moreover have "c \<notin> set (dropped_txs (reg st))" by (rule reg_inv_live [OF app_inv_reg [OF inv] i(2)])
    ultimately show ?thesis using c(1) by (auto simp: conn_live_def o(1,4) nth_append)
  qed
  with o show ?thesis by (simp add: same nth_append)
qed

section \<open>Properties\<close>

text \<open>Claim C3. In every run of the beacon loop, whatever the order of handshakes, messages and complete or
  dropped sweeps, a connection is live exactly when some registered beacon's record holds it. The
  record of a live connection names the advertised text, and the connection goes to that text's
  WebSocket URL; one beacon only holds it, no other live connection was opened for the same text, and
  the text is not the configured gateway URL. Gateways are told apart by the advertised text alone:
  when another beacon advertises the same gateway with a slash appended to its URL, a second connection
  to the very same WebSocket URL is opened and both are live.\<close>

theorem one_live_connection_per_gateway:
  assumes "st = run_beacon_message_loop J server_url own topics events"
  shows "(conn_live st c \<longleftrightarrow> (\<exists>i u. gw_view (reg st) i = Some (u, Some c))) \<and>
    (conn_live st c \<longrightarrow>
      (\<exists>i u. gw_view (reg st) i = Some (Some u, Some c) \<and> cn_ws_url (conns st ! c) = compute_ws_url u \<and> own \<noteq> Some u \<and>
        (\<forall>j v. gw_view (reg st) j = Some (v, Some c) \<longrightarrow> j = i) \<and>
        (\<forall>j d. gw_view (reg st) j = Some (Some u, Some d) \<longrightarrow> d = c))) \<and>
    (\<forall>i u bid msg now st'. gw_view (reg st) i = Some (Some u, Some c) \<longrightarrow> bid \<noteq> i \<longrightarrow> hm_get (records (reg st)) bid \<noteq> None \<longrightarrow>
       msg_topic msg = bid @ ''/rec'' \<longrightarrow> beacon_gateway_url (beacon_payload J msg) = Some (u @ ''/'') \<longrightarrow>
       u @ ''/'' \<notin> known_gateways (reg st) \<longrightarrow> st' = handle_message J server_url now msg st \<longrightarrow>
       (\<exists>d. d \<noteq> c \<and> conn_live st' c \<and> conn_live st' d \<and> cn_ws_url (conns st' ! d) = cn_ws_url (conns st' ! c)))"
proof -
  have inv: "app_inv own st" unfolding assms(1) by (rule app_inv_run)
  note rinv = app_inv_reg [OF inv]
  have iff: "conn_live st c \<longleftrightarrow> (\<exists>i u. gw_view (reg st) i = Some (u, Some c))"
    using app_inv_held [OF inv] app_inv_held_opened [OF inv] reg_inv_live [OF rinv] unfolding conn_live_def by blast
  have "\<exists>i u. gw_view (reg st) i = Some (Some u, Some c) \<and> cn_ws_url (conns st ! c) = compute_ws_url u \<and> own \<noteq> Some u \<and>
      (\<forall>j v. gw_view (reg st) j = Some (v, Some c) \<longrightarrow> j = i) \<and>
      (\<forall>j d. gw_view (reg st) j = Some (Some u, Some d) \<longrightarrow> d = c)" if "conn_live st c"
  proof -
    from that have ws: "cn_ws_url (conns st ! c) = compute_ws_url (cn_gateway_url (conns st ! c))"
      unfolding assms(1) conn_live_def by (blast intro: ws_urls_run)
    from app_inv_held [OF inv that] app_inv_url [OF inv] obtain i
      where i: "gw_view (reg st) i = Some (Some (cn_gateway_url (conns st ! c)), Some c)" by metis
    have "d = c" if "gw_view (reg st) j = Some (Some (cn_gateway_url (conns st ! c)), Some d)" for j d
      using reg_inv_unique [OF rinv i that] that i by simp
    with i ws reg_inv_not_own [OF rinv i] reg_inv_tx_unique [OF rinv i] show ?thesis by blast
  qed
  moreover have "\<exists>d. d \<noteq> c \<and> conn_live st' c \<and> conn_live st' d \<and> cn_ws_url (conns st' ! d) = cn_ws_url (conns st' ! c)"
    if adv: "gw_view (reg st) i = Some (Some u, Some c)" "bid \<noteq> i" "hm_get (records (reg st)) bid \<noteq> None"
      "msg_topic msg = bid @ ''/rec''" "beacon_gateway_url (beacon_payload J msg) = Some (u @ ''/'')"
      "u @ ''/'' \<notin> known_gateways (reg st)" "st' = handle_message J server_url now msg st" for i u bid msg now st'
  proof -
    obtain r where "hm_get (records (reg st)) bid = Some r" using adv(3) by blast
    from respelled_gateway_connected_again [OF assms(1) this adv(4-7)] adv(1,2) show ?thesis by metis
  qed
  ultimately show ?thesis using iff by blast
qed

text \<open>A beacon with both channels that advertises a gateway; a gateway advertised on the shared topic.\<close>

definition demo_json :: json_lib where
  "demo_json = \<lparr>from_slice = (\<lambda>_. Some (JObject [(''gateway_url'', JString ''https://g'')])),
     from_utf8_lossy = (\<lambda>_. [])\<rparr>"

definition demo_channel :: "TopicType \<Rightarrow> string \<Rightarrow> TopicChannel" where
  "demo_channel k t = \<lparr>tc_beacon_id = ''b'', tc_topic = \<lparr>mt_topic = ''b'' @ t, mt_qos = 1\<rparr>, tc_topic_type = k\<rparr>"

definition demo_events :: "loop_event list" where
  "demo_events = [NewChannel (Ok ()) 0 (demo_channel Listen ''/rec''),
     NewChannel (Ok ()) 0 (demo_channel Broadcast ''/cast''),
     Inbound 5 \<lparr>msg_topic = ''b/rec'', msg_payload = []\<rparr>]"

lemmas demo_loop_defs = demo_json_def demo_channel_def demo_events_def run_beacon_message_loop_def registry_new_def
  register_channel_def ensure_record_def blank_record_def hm_adjust_def handle_message_def update_last_seen_def
  strip_suffix_def beacon_payload_def beacon_gateway_url_def is_gateway_known_def insert_gateway_def
  associate_gateway_def drop_record_def Let_def qos_from_u8_def

lemma demo_registered:
  "hm_get (records (reg (run_beacon_message_loop demo_json ''http://h'' None [] (take 2 demo_events)))) ''b'' =
     Some \<lparr>listen_topic = ''b/rec'', broadcast_topic = ''b/cast'', last_seen = 0, gateway_url = None,
           gateway_shutdown_tx = None\<rparr>"
  "known_gateways (reg (run_beacon_message_loop demo_json ''http://h'' None [] (take 2 demo_events))) = {}"
  "conns (run_beacon_message_loop demo_json ''http://h'' None [] (take 2 demo_events)) = []"
  by (simp_all add: demo_loop_defs)

theorem one_live_connection_per_gateway_witness:
  "let st = run_beacon_message_loop demo_json ''http://h'' None [] demo_events in
   conn_live st 0 \<and> (\<exists>i u. gw_view (reg st) i = Some (Some u, Some 0) \<and> cn_ws_url (conns st ! 0) = compute_ws_url u)"
proof -
  have "conn_live (run_beacon_message_loop demo_json ''http://h'' None [] demo_events) 0"
    by (simp add: conn_live_def demo_loop_defs)
  with one_live_connection_per_gateway [OF refl, of demo_json "''http://h''" None "[]" demo_events 0]
  show ?thesis unfolding Let_def by blast
qed

text \<open>Claim C18. When a registered beacon advertises an unknown gateway on its own topic, one connection is
  opened to the gateway's WebSocket URL with the beacon's payload queued first, the beacon holds it,
  its silence timer restarts, and a connection it held before is closed.\<close>

theorem advertisement_opens_connection:
  assumes "app_inv own st" and "hm_get (records (reg st)) bid = Some r"
    and "msg_topic msg = bid @ ''/rec''" and "beacon_gateway_url (beacon_payload J msg) = Some url"
    and "url \<notin> known_gateways (reg st)"
  shows "\<exists>st' conn r'. handle_message J server_url now msg st = st' \<and> conns st' = conns st @ [conn] \<and>
    cn_ws_url conn = compute_ws_url url \<and> cn_queue conn = [BeaconRegistration server_url (beacon_payload J msg)] \<and>
    conn_live st' (length (conns st)) \<and> hm_get (records (reg st')) bid = Some r' \<and>
    r' = r\<lparr>last_seen := now, gateway_url := Some url, gateway_shutdown_tx := Some (length (conns st))\<rparr> \<and>
    (\<forall>c. gateway_shutdown_tx r = Some c \<longrightarrow> conn_live st c \<and> \<not> conn_live st' c)"
  using opened_connection [OF assms, where server_url = server_url and now = now]
  by (intro exI conjI) (rule refl | assumption | simp | blast)+

theorem advertisement_opens_connection_witness:
  "\<exists>st' conn. handle_message demo_json ''http://h'' 5 \<lparr>msg_topic = ''b/rec'', msg_payload = []\<rparr>
      (run_beacon_message_loop demo_json ''http://h'' None [] (take 2 demo_events)) = st' \<and>
    conns st' = [conn] \<and> cn_ws_url conn = compute_ws_url ''https://g'' \<and> conn_live st' 0"
proof -
  let ?st = "run_beacon_message_loop demo_json ''http://h'' None [] (take 2 demo_events)"
  let ?msg = "\<lparr>msg_topic = ''b/rec'', msg_payload = []\<rparr> :: MqttMessage"
  have "beacon_gateway_url (beacon_payload demo_json ?msg) = Some ''https://g''"
    by (simp add: beacon_gateway_url_def beacon_payload_def demo_json_def)
  from advertisement_opens_connection [OF app_inv_run demo_registered(1) _ this, of "''http://h''" 5]
  show ?thesis by (auto simp: demo_registered(2,3))
qed

text \<open>Claim C20. A gateway advertised on a topic that does not end in \<^verbatim>\<open>/rec\<close> (the shared
  \<^verbatim>\<open>registration\<close> topic, say), or by a beacon that is not registered, is lost for good: its connection
  is told to close in the same turn, yet the URL stays known, so that in every continuation of the
  run no further connection to it is opened and none is live.\<close>

theorem unassociated_gateway_lost:
  assumes "st = run_beacon_message_loop J server_url own topics events"
    and "\<And>bid. msg_topic msg = bid @ ''/rec'' \<Longrightarrow> hm_get (records (reg st)) bid = None"
    and "beacon_gateway_url (beacon_payload J msg) = Some url" and "url \<notin> known_gateways (reg st)"
    and "st' = fold (loop_step J server_url) later (handle_message J server_url now msg st)"
  shows "length (conns_to url (handle_message J server_url now msg st)) = length (conns_to url st) + 1 \<and>
    conns_to url st' = conns_to url (handle_message J server_url now msg st) \<and>
    (\<forall>c. conn_live st' c \<longrightarrow> cn_gateway_url (conns st' ! c) \<noteq> url)"
proof -
  have inv: "app_inv own st" unfolding assms(1) by (rule app_inv_run)
  let ?st1 = "handle_message J server_url now msg st"
  have none: "hm_get (records (touched msg now (reg st))) bid = None" if "strip_suffix (msg_topic msg) ''/rec'' = Some bid" for bid
    using that assms(2) by (simp add: touched_def strip_suffix_Some update_last_seen_def hmap_laws)
  have eq: "?st1 = st\<lparr>conns := conns st @
        [gateway_send (BeaconRegistration server_url (beacon_payload J msg)) (connect_to_gateway server_url url)],
      reg := drop_new url (st\<lparr>reg := touched msg now (reg st)\<rparr>)\<rparr>"
    using none by (auto simp: handle_message_eq Let_def assms(3,4) split: option.splits)
  have "gw_view (reg st) i \<noteq> Some (Some url, t)" for i t
    using reg_inv_known [OF app_inv_reg [OF inv]] assms(4) by metis
  then have "orphaned url (reg ?st1)" by (simp add: orphaned_def eq drop_new_def gw_view_simps)
  note lost = orphaned_fold [OF this, of J server_url later, folded assms(5)]
  have "app_inv own (fold (loop_step J server_url) later s)" if "app_inv own s" for s
    using that by (induction later arbitrary: s) (auto simp: app_inv_step)
  then have "app_inv own st'" unfolding assms(5) using app_inv_handle_message [OF inv] by blast
  moreover have "length (conns_to url ?st1) = length (conns_to url st) + 1" by (simp add: conns_to_def eq)
  ultimately show ?thesis using lost orphaned_no_live by blast
qed

theorem unassociated_gateway_lost_witness:
  "let st = run_beacon_message_loop demo_json ''http://h'' None [] (take 2 demo_events);
       msg = \<lparr>msg_topic = ''registration'', msg_payload = []\<rparr>;
       st' = fold (loop_step demo_json ''http://h'') (drop 2 demo_events) (handle_message demo_json ''http://h'' 3 msg st)
   in length (conns_to ''https://g'' (handle_message demo_json ''http://h'' 3 msg st)) = 1 \<and>
      length (conns_to ''https://g'' st') = 1 \<and> (\<forall>c. conn_live st' c \<longrightarrow> cn_gateway_url (conns st' ! c) \<noteq> ''https://g'')"
proof -
  let ?st = "run_beacon_message_loop demo_json ''http://h'' None [] (take 2 demo_events)"
  let ?msg = "\<lparr>msg_topic = ''registration'', msg_payload = []\<rparr> :: MqttMessage"
  have t: "msg_topic ?msg = bid @ ''/rec'' \<Longrightarrow> hm_get (records (reg ?st)) bid = None" for bid
  proof -
    assume "msg_topic ?msg = bid @ ''/rec''"
    then have "last ''registration'' = last (bid @ ''/rec'')" by simp
    then show ?thesis by simp
  qed
  have u: "beacon_gateway_url (beacon_payload demo_json ?msg) = Some ''https://g''"
    by (simp add: beacon_gateway_url_def beacon_payload_def demo_json_def)
  have k: "''https://g'' \<notin> known_gateways (reg ?st)" by (simp add: demo_registered(2))
  have "conns_to ''https://g'' ?st = []" by (simp add: conns_to_def demo_registered(3))
  with unassociated_gateway_lost [OF refl t u k refl, of 3 "drop 2 demo_events"] show ?thesis
    unfolding Let_def by simp
qed

end
