(* ===== verification/Http.thy ===== *)
theory Http
  imports Ca Beacon_Loop
begin

text \<open>
  The HTTP side of the gateway (\<^verbatim>\<open>src/services/beacon_management/internals\<close>): the dispatcher of
  \<^verbatim>\<open>proxy.rs\<close>, the request parsers of \<^verbatim>\<open>requests.rs\<close>, the three handlers of \<^verbatim>\<open>handlers.rs\<close>, the
  responses of \<^verbatim>\<open>response.rs\<close> and \<^verbatim>\<open>register_cert_identity\<close> of the broker handle
  (\<^verbatim>\<open>mqtt_brokerage/mosquitto_brokerage_service.rs\<close>). A header value is its text or opaque bytes; the
  body is its text, or nothing when reading it failed; JSON text is read by a parameter. The lemmas
  give the outcome and the effects of every branch, connect the handshake with the topics the beacon
  loop expects, and show where the file of a device's certificate ends up.
\<close>

section \<open>Requests and responses\<close>

datatype HeaderValue = Text string | Opaque

fun to_str :: "HeaderValue \<Rightarrow> string option" where
  "to_str (Text s) = Some s"
| "to_str Opaque = None"

record request =
  rq_headers :: "string \<rightharpoonup> HeaderValue"
  rq_body :: "string option"

datatype response_body = TextBody string | JsonBody json | UpstreamBody string

record response =
  rs_status :: nat
  rs_content_type :: "string option"
  rs_body :: response_body

definition text_response :: "nat \<Rightarrow> string \<Rightarrow> response" where
  "text_response status msg = \<lparr>rs_status = status, rs_content_type = None, rs_body = TextBody msg\<rparr>"

definition json_response :: "nat \<Rightarrow> json \<Rightarrow> response" where
  "json_response status v = \<lparr>rs_status = status, rs_content_type = Some ''application/json'', rs_body = JsonBody v\<rparr>"

definition SUPPORTED_VERSION :: string where "SUPPORTED_VERSION = ''0.0.1''"
definition HEADER_INIT :: string where "HEADER_INIT = ''x-placenet-init''"
definition HEADER_REGISTER :: string where "HEADER_REGISTER = ''x-placenet-register''"
definition HEADER_HEALTH :: string where "HEADER_HEALTH = ''x-placenet-health''"
definition PROXY_BODY_LIMIT :: nat where "PROXY_BODY_LIMIT = 64 * 1024"

record MdnsConfig =
  md_hostname :: string
  md_port :: u16

record DeviceInfo =
  di_address :: string
  di_mdns :: MdnsConfig
  di_csr_pem :: string

definition MdnsConfig_from_json :: "json \<Rightarrow> MdnsConfig option" where
  "MdnsConfig_from_json v =
     Option.bind (struct_fields [''hostname'', ''port''] v) (\<lambda>o1. Option.bind (field as_str o1 ''hostname'') (\<lambda>h.
       map_option (\<lambda>p. \<lparr>md_hostname = h, md_port = p\<rparr>) (field as_u16 o1 ''port'')))"

definition DeviceInfo_from_json :: "json \<Rightarrow> DeviceInfo option" where
  "DeviceInfo_from_json v =
     Option.bind (struct_fields [''address'', ''mdns'', ''csr_pem''] v) (\<lambda>o1. Option.bind (field as_str o1 ''address'') (\<lambda>a.
       Option.bind (field MdnsConfig_from_json o1 ''mdns'') (\<lambda>m.
         map_option (\<lambda>c. \<lparr>di_address = a, di_mdns = m, di_csr_pem = c\<rparr>) (field as_str o1 ''csr_pem''))))"

text \<open>The limited body: an error when reading fails or the limit is exceeded.\<close>

definition limited_body :: "request \<Rightarrow> string option" where
  "limited_body req =
     (case rq_body req of
        None \<Rightarrow> None
      | Some b \<Rightarrow> if length b \<le> PROXY_BODY_LIMIT then Some b else None)"

record DeviceInitRequest =
  ir_version :: string
  ir_broker_host :: string
  ir_device :: DeviceInfo

definition DeviceInitRequest_process ::
  "(string \<Rightarrow> json option) \<Rightarrow> request \<Rightarrow> response + DeviceInitRequest" where
  "DeviceInitRequest_process parse req =
     (case Option.bind (rq_headers req HEADER_INIT) to_str of
        None \<Rightarrow> Err (text_response 400 ''Invalid X-PlaceNet-Init header'')
      | Some version \<Rightarrow>
          if version \<noteq> SUPPORTED_VERSION then Err (text_response 400 ''Unsupported version'')
          else
            let broker_host = (case Option.bind (rq_headers req ''host'') to_str of
                                 Some h \<Rightarrow> strip_port h
                               | None \<Rightarrow> ''localhost'')
            in (case limited_body req of
                  None \<Rightarrow> Err (text_response 400 ''Failed to read request body'')
                | Some body \<Rightarrow>
                    (case Option.bind (parse body) DeviceInfo_from_json of
                       None \<Rightarrow> Err (text_response 422 ''Invalid JSON body'')
                     | Some device \<Rightarrow> Ok \<lparr>ir_version = version, ir_broker_host = broker_host, ir_device = device\<rparr>)))"

definition Payload_from_json :: "json \<Rightarrow> string option" where
  "Payload_from_json v = Option.bind (struct_fields [''csr_pem''] v) (\<lambda>o1. field as_str o1 ''csr_pem'')"

definition DeviceRegisterRequest_process :: "(string \<Rightarrow> json option) \<Rightarrow> request \<Rightarrow> response + string" where
  "DeviceRegisterRequest_process parse req =
     (case limited_body req of
        None \<Rightarrow> Err (text_response 400 ''Failed to read request body'')
      | Some body \<Rightarrow>
          (case Option.bind (parse body) Payload_from_json of
             None \<Rightarrow> Err (text_response 422 ''Invalid JSON body'')
           | Some csr \<Rightarrow> Ok csr))"

section \<open>State and environment\<close>

text \<open>\<open>hs_topic_queue\<close> is the bounded channel to the beacon loop (none when it was not given, with a
  flag telling whether its receiver lives); \<open>hs_brokerage\<close> is the broker handle, which knows the
  CA file's path.\<close>

record ('k, 'c) http_state =
  hs_ca :: "('k, 'c) CaService"
  hs_files :: files
  hs_brokerage :: "path option"
  hs_brokerage_info :: MqttBrokerageInfo
  hs_topic_queue :: "(bool \<times> TopicChannel list) option"
  hs_upstream_port :: u16

record 'k http_env =
  he_ca :: "'k ca_env"
  he_write :: write_outcome
  he_uuid :: string
  he_connect :: "u16 \<Rightarrow> unit result"
  he_handshake :: "unit result"
  he_upstream :: "request \<Rightarrow> response result"

definition TOPIC_CAPACITY :: nat where
  "TOPIC_CAPACITY = 64"

definition try_send :: "TopicChannel \<Rightarrow> (bool \<times> TopicChannel list) \<Rightarrow> bool \<times> TopicChannel list" where
  "try_send ch q = (if fst q \<and> length (snd q) < TOPIC_CAPACITY then (fst q, snd q @ [ch]) else q)"

definition device_cert_path :: "path \<Rightarrow> string \<Rightarrow> path option" where
  "device_cert_path cafile hostname = map_option (\<lambda>d. path_join d (hostname @ ''.crt'')) (path_parent cafile)"

definition register_cert_identity ::
  "write_outcome \<Rightarrow> path \<Rightarrow> string \<Rightarrow> string \<Rightarrow> files \<Rightarrow> unit result \<times> files" where
  "register_cert_identity w cafile hostname cert fs =
     (case path_parent cafile of
        None \<Rightarrow> (Err ''cafile has no parent directory'', fs)
      | Some dir \<Rightarrow>
          let cert_path = path_join dir (hostname @ ''.crt'')
          in (case fs_write w cert_path cert fs of
                (Err e, fs') \<Rightarrow>
                  (Err (''Failed to write device cert '' @ (CHR 0x27 # cert_path @ [CHR 0x27]) @ '': '' @ e), fs')
              | (Ok _, fs') \<Rightarrow> (Ok (), fs')))"

definition brokerage_json :: "MqttBrokerageInfo \<Rightarrow> json" where
  "brokerage_json b = JObject [(''address'', JString (bi_address b)),
     (''port'', JNumber (JInt (uint (bi_port b)))), (''ca_cert_pem'', JString (bi_ca_cert_pem b))]"

section \<open>Handlers\<close>

definition handle_health :: "request \<Rightarrow> response" where
  "handle_health req = text_response 200 ''OK''"

text \<open>The two channels of a beacon.\<close>

definition listen_channel :: "string \<Rightarrow> TopicChannel" where
  "listen_channel i = \<lparr>tc_beacon_id = i, tc_topic = \<lparr>mt_topic = i @ ''/rec'', mt_qos = 1\<rparr>, tc_topic_type = Listen\<rparr>"

definition broadcast_channel :: "string \<Rightarrow> TopicChannel" where
  "broadcast_channel i = \<lparr>tc_beacon_id = i, tc_topic = \<lparr>mt_topic = i @ ''/cast'', mt_qos = 1\<rparr>, tc_topic_type = Broadcast\<rparr>"

definition handle_device_init ::
  "('k, 'c, 'r) rcgen \<Rightarrow> (string \<Rightarrow> json option) \<Rightarrow> 'k http_env \<Rightarrow> request \<Rightarrow> ('k, 'c) http_state \<Rightarrow>
   response \<times> ('k, 'c) http_state" where
  "handle_device_init R parse env req st =
     (case DeviceInitRequest_process parse req of
        Err r \<Rightarrow> (r, st)
      | Ok request \<Rightarrow>
          let device = ir_device request; hostname = md_hostname (di_mdns device)
          in (case sign_csr R (he_ca env) hostname (di_csr_pem device) (hs_ca st) of
                (Err e, ca) \<Rightarrow> (text_response 500 ''Failed to sign device certificate'', st\<lparr>hs_ca := ca\<rparr>)
              | (Ok cert, ca) \<Rightarrow>
                  let st1 = st\<lparr>hs_ca := ca\<rparr>;
                      (r, st2) = (case hs_brokerage st1 of
                                    None \<Rightarrow> (Ok (), st1)
                                  | Some cafile \<Rightarrow>
                                      (case register_cert_identity (he_write env) cafile hostname cert (hs_files st1) of
                                         (r, fs) \<Rightarrow> (r, st1\<lparr>hs_files := fs\<rparr>)))
                  in (case r of
                        Err e \<Rightarrow> (text_response 500 ''Failed to register device MQTT identity'', st2)
                      | Ok _ \<Rightarrow>
                          let beacon_id = he_uuid env;
                              st3 = st2\<lparr>hs_topic_queue := map_option (\<lambda>q. try_send (broadcast_channel beacon_id)
                                      (try_send (listen_channel beacon_id) q)) (hs_topic_queue st2)\<rparr>;
                              brokerage = (hs_brokerage_info st3)\<lparr>bi_address := ir_broker_host request\<rparr>
                          in (json_response 200 (JObject [(''cert_pem'', JString cert),
                                (''brokerage'', brokerage_json brokerage), (''beacon_id'', JString beacon_id)]), st3))))"

definition handle_client_register ::
  "('k, 'c, 'r) rcgen \<Rightarrow> (string \<Rightarrow> json option) \<Rightarrow> 'k http_env \<Rightarrow> request \<Rightarrow> ('k, 'c) http_state \<Rightarrow>
   response \<times> ('k, 'c) http_state" where
  "handle_client_register R parse env req st =
     (case DeviceRegisterRequest_process parse req of
        Err r \<Rightarrow> (r, st)
      | Ok csr \<Rightarrow>
          let client_id = he_uuid env
          in (case sign_csr R (he_ca env) client_id csr (hs_ca st) of
                (Err e, ca) \<Rightarrow> (text_response 500 ''Failed to sign client certificate'', st\<lparr>hs_ca := ca\<rparr>)
              | (Ok cert, ca) \<Rightarrow>
                  let st1 = st\<lparr>hs_ca := ca\<rparr>
                  in (case ca_cert_pem R ca of
                        Err e \<Rightarrow> (text_response 500 ''Failed to retrieve CA certificate'', st1)
                      | Ok ca_pem \<Rightarrow>
                          (json_response 201 (JObject [(''client_id'', JString client_id), (''cert_pem'', JString cert),
                             (''ca_cert_pem'', JString ca_pem)]), st1))))"

definition try_forward :: "'k http_env \<Rightarrow> u16 \<Rightarrow> request \<Rightarrow> response result" where
  "try_forward env upstream_port req =
     (case he_connect env upstream_port of
        Err e \<Rightarrow> Err e
      | Ok _ \<Rightarrow>
          (case he_handshake env of
             Err e \<Rightarrow> Err e
           | Ok _ \<Rightarrow> he_upstream env req))"

definition dispatch ::
  "('k, 'c, 'r) rcgen \<Rightarrow> (string \<Rightarrow> json option) \<Rightarrow> 'k http_env \<Rightarrow> request \<Rightarrow> ('k, 'c) http_state \<Rightarrow>
   response \<times> ('k, 'c) http_state" where
  "dispatch R parse env req st =
     (if rq_headers req HEADER_HEALTH \<noteq> None then (handle_health req, st)
      else if rq_headers req HEADER_INIT \<noteq> None then handle_device_init R parse env req st
      else if rq_headers req HEADER_REGISTER \<noteq> None then handle_client_register R parse env req st
      else (case try_forward env (hs_upstream_port st) req of
              Ok resp \<Rightarrow> (resp, st)
            | Err e \<Rightarrow> (text_response 502 ''Bad Gateway'', st)))"

section \<open>Lemmas\<close>

text \<open>A handshake that goes through: the request is accepted, the certificate signed, and its file, if
  there is a broker, written.\<close>

definition identity_written :: "'k http_env \<Rightarrow> ('k, 'c) http_state \<Rightarrow> bool" where
  "identity_written env st \<longleftrightarrow>
     (case hs_brokerage st of None \<Rightarrow> True | Some cafile \<Rightarrow> path_parent cafile \<noteq> None \<and> he_write env = Written)"

definition identity_files :: "string \<Rightarrow> string \<Rightarrow> ('k, 'c) http_state \<Rightarrow> files" where
  "identity_files hostname cert st =
     (case Option.bind (hs_brokerage st) (\<lambda>cafile. device_cert_path cafile hostname) of
        None \<Rightarrow> hs_files st
      | Some p \<Rightarrow> (hs_files st)(p \<mapsto> cert))"

lemma handshake_ok:
  assumes "DeviceInitRequest_process parse req = Ok r"
    and "sign_csr R (he_ca env) (md_hostname (di_mdns (ir_device r))) (di_csr_pem (ir_device r)) (hs_ca st) = (Ok cert, ca)"
    and "identity_written env st"
  shows "handle_device_init R parse env req st =
    (json_response 200 (JObject [(''cert_pem'', JString cert),
       (''brokerage'', brokerage_json ((hs_brokerage_info st)\<lparr>bi_address := ir_broker_host r\<rparr>)),
       (''beacon_id'', JString (he_uuid env))]),
     st\<lparr>hs_ca := ca, hs_files := identity_files (md_hostname (di_mdns (ir_device r))) cert st,
        hs_topic_queue := map_option (\<lambda>q. try_send (broadcast_channel (he_uuid env))
          (try_send (listen_channel (he_uuid env)) q)) (hs_topic_queue st)\<rparr>)"
  using assms
  by (auto simp: handle_device_init_def identity_written_def identity_files_def device_cert_path_def
      register_cert_identity_def fs_write_def Let_def split: option.splits)

lemma sign_csr_error: "sign_csr R env d csr s = (Err e, s') \<Longrightarrow> s' = s"
  by (cases rule: sign_csr_cases [of R env d csr s]) auto

lemma sign_csr_needs_ca: "sign_csr R env d csr s = (Ok cert, s') \<Longrightarrow> cas_state s \<noteq> None"
  by (cases "cas_state s") (auto simp: sign_csr_def)

text \<open>What an accepted initialisation request must look like.\<close>

lemma process_accepts:
  assumes "DeviceInitRequest_process parse req = Ok r"
  shows "rq_headers req HEADER_INIT = Some (Text SUPPORTED_VERSION)"
    and "\<exists>b. rq_body req = Some b \<and> length b \<le> PROXY_BODY_LIMIT \<and>
      Option.bind (parse b) DeviceInfo_from_json = Some (ir_device r)"
    and "ir_broker_host r = (case Option.bind (rq_headers req ''host'') to_str of Some h \<Rightarrow> strip_port h | None \<Rightarrow> ''localhost'')"
proof -
  have "Option.bind (rq_headers req HEADER_INIT) to_str = Some SUPPORTED_VERSION"
    using assms by (auto simp: DeviceInitRequest_process_def split: option.splits if_splits)
  then obtain v where v: "rq_headers req HEADER_INIT = Some v" "to_str v = Some SUPPORTED_VERSION"
    by (auto simp: bind_eq_Some_conv)
  then show "rq_headers req HEADER_INIT = Some (Text SUPPORTED_VERSION)" by (cases v) auto
  show "\<exists>b. rq_body req = Some b \<and> length b \<le> PROXY_BODY_LIMIT \<and>
      Option.bind (parse b) DeviceInfo_from_json = Some (ir_device r)"
    using assms by (auto simp: DeviceInitRequest_process_def limited_body_def Let_def split: option.splits if_splits)
  show "ir_broker_host r = (case Option.bind (rq_headers req ''host'') to_str of Some h \<Rightarrow> strip_port h | None \<Rightarrow> ''localhost'')"
    using assms by (auto simp: DeviceInitRequest_process_def Let_def split: option.splits if_splits)
qed

lemma DeviceInfo_shape:
  assumes "DeviceInfo_from_json v = Some device"
  shows "\<exists>o1. struct_fields [''address'', ''mdns'', ''csr_pem''] v = Some o1 \<and>
    field as_str o1 ''address'' \<noteq> None \<and> field as_str o1 ''csr_pem'' \<noteq> None \<and>
    (\<exists>m o2. map_of o1 ''mdns'' = Some m \<and> struct_fields [''hostname'', ''port''] m = Some o2 \<and>
       field as_str o2 ''hostname'' \<noteq> None \<and> field as_u16 o2 ''port'' \<noteq> None)"
  using assms
  by (auto simp: DeviceInfo_from_json_def MdnsConfig_from_json_def field_def [of MdnsConfig_from_json] bind_eq_Some_conv
      simp del: struct_fields.simps)

lemma device_init_refused:
  assumes "handle_device_init R parse env req st = (resp, st')" and "st' \<noteq> st"
  shows "is_ok (DeviceInitRequest_process parse req) \<and> cas_state (hs_ca st) \<noteq> None \<and> rs_status resp \<in> {200, 500}"
proof (cases "DeviceInitRequest_process parse req")
  case (Inl e)
  with assms show ?thesis by (simp add: handle_device_init_def)
next
  case (Inr r)
  obtain res ca where s: "sign_csr R (he_ca env) (md_hostname (di_mdns (ir_device r))) (di_csr_pem (ir_device r)) (hs_ca st)
      = (res, ca)" by fastforce
  show ?thesis
  proof (cases res)
    case (Inl e)
    with s have "ca = hs_ca st" using sign_csr_error by blast
    with s Inl assms(1) Inr have "st' = st" by (auto simp: handle_device_init_def Let_def)
    with assms(2) show ?thesis by contradiction
  next
    case (Inr cert)
    with s have "cas_state (hs_ca st) \<noteq> None" using sign_csr_needs_ca by blast
    moreover have "rs_status resp \<in> {200, 500}"
      using assms(1) s Inr \<open>DeviceInitRequest_process parse req = Ok r\<close>
      by (auto simp: handle_device_init_def Let_def text_response_def json_response_def split: prod.splits sum.splits option.splits)
    ultimately show ?thesis using \<open>DeviceInitRequest_process parse req = Ok r\<close> by simp
  qed
qed

lemma client_register_refused:
  assumes "handle_client_register R parse env req st = (resp, st')" and "st' \<noteq> st"
  shows "is_ok (DeviceRegisterRequest_process parse req) \<and> cas_state (hs_ca st) \<noteq> None \<and> rs_status resp \<in> {201, 500}"
proof (cases "DeviceRegisterRequest_process parse req")
  case (Inl e)
  with assms show ?thesis by (simp add: handle_client_register_def)
next
  case (Inr csr)
  obtain res ca where s: "sign_csr R (he_ca env) (he_uuid env) csr (hs_ca st) = (res, ca)" by fastforce
  show ?thesis
  proof (cases res)
    case (Inl e)
    with s have "ca = hs_ca st" using sign_csr_error by blast
    with s Inl assms(1) Inr have "st' = st" by (auto simp: handle_client_register_def Let_def)
    with assms(2) show ?thesis by contradiction
  next
    case (Inr cert)
    with s have "cas_state (hs_ca st) \<noteq> None" using sign_csr_needs_ca by blast
    moreover have "rs_status resp \<in> {201, 500}"
      using assms(1) s Inr \<open>DeviceRegisterRequest_process parse req = Ok csr\<close>
      by (auto simp: handle_client_register_def Let_def text_response_def json_response_def split: sum.splits)
    ultimately show ?thesis using \<open>DeviceRegisterRequest_process parse req = Ok csr\<close> by simp
  qed
qed

lemma channels_registered:
  assumes "rg' = register_channel (Ok ()) t2 (broadcast_channel i) (register_channel (Ok ()) t1 (listen_channel i) rg)"
  shows "mqtt_log rg' = mqtt_log rg @ [Subscribed (i @ ''/rec'') AtLeastOnce]"
    and "broadcast_topics rg' = broadcast_topics rg @ [i @ ''/cast'']"
    and "\<exists>rec. hm_get (records rg') i = Some rec \<and> listen_topic rec = i @ ''/rec'' \<and> broadcast_topic rec = i @ ''/cast''"
  unfolding assms
  by (auto simp: register_channel_def listen_channel_def broadcast_channel_def Let_def hmap_laws ensure_record_get qos_from_u8_def)

section \<open>Properties\<close>

text \<open>Claim C13. A request changes the state of the node only if it carries no health header, the CA is
  initialised, its body is within the limit and is JSON, and either its PlaceNet header announces the
  supported version and the body has a string address, a string certificate request and an mDNS
  section with a string host name and a 16-bit port, or it is a client registration whose body has a
  string certificate request. In particular every answer 400, 422 and 502 and every proxied answer
  leaves the state as it was.\<close>

theorem state_change_needs_valid_request:
  assumes "dispatch R parse env req st = (resp, st')" and "st' \<noteq> st"
  shows "rq_headers req HEADER_HEALTH = None \<and> cas_state (hs_ca st) \<noteq> None \<and> rs_status resp \<in> {200, 201, 500} \<and>
    (\<exists>b v o1. rq_body req = Some b \<and> length b \<le> PROXY_BODY_LIMIT \<and> parse b = Some v \<and>
      (rq_headers req HEADER_INIT = Some (Text SUPPORTED_VERSION) \<and>
         struct_fields [''address'', ''mdns'', ''csr_pem''] v = Some o1 \<and>
         field as_str o1 ''address'' \<noteq> None \<and> field as_str o1 ''csr_pem'' \<noteq> None \<and>
         (\<exists>m o2. map_of o1 ''mdns'' = Some m \<and> struct_fields [''hostname'', ''port''] m = Some o2 \<and>
            field as_str o2 ''hostname'' \<noteq> None \<and> field as_u16 o2 ''port'' \<noteq> None) \<or>
       rq_headers req HEADER_INIT = None \<and> rq_headers req HEADER_REGISTER \<noteq> None \<and>
         struct_fields [''csr_pem''] v = Some o1 \<and> field as_str o1 ''csr_pem'' \<noteq> None))"
proof -
  have h: "rq_headers req HEADER_HEALTH = None" using assms by (auto simp: dispatch_def split: if_splits)
  consider (init) "rq_headers req HEADER_INIT \<noteq> None" "handle_device_init R parse env req st = (resp, st')"
    | (reg) "rq_headers req HEADER_INIT = None" "rq_headers req HEADER_REGISTER \<noteq> None"
      "handle_client_register R parse env req st = (resp, st')"
    using assms h by (auto simp: dispatch_def split: if_splits sum.splits)
  then show ?thesis
  proof cases
    case init
    note c = device_init_refused [OF init(2) assms(2)]
    then obtain r where r: "DeviceInitRequest_process parse req = Ok r" by (auto simp: is_ok_iff)
    then obtain b v where b: "rq_body req = Some b" "length b \<le> PROXY_BODY_LIMIT" "parse b = Some v"
      "DeviceInfo_from_json v = Some (ir_device r)"
      using process_accepts(2) [OF r] by (auto simp: bind_eq_Some_conv)
    from DeviceInfo_shape [OF b(4)] b process_accepts(1) [OF r] h c show ?thesis by auto
  next
    case reg
    note c = client_register_refused [OF reg(3) assms(2)]
    then obtain b v csr where b: "rq_body req = Some b" "length b \<le> PROXY_BODY_LIMIT" "parse b = Some v"
      "Payload_from_json v = Some csr"
      by (auto simp: DeviceRegisterRequest_process_def limited_body_def is_ok_iff bind_eq_Some_conv
          split: option.splits if_splits)
    then obtain o1 where "struct_fields [''csr_pem''] v = Some o1" "field as_str o1 ''csr_pem'' \<noteq> None"
      by (auto simp: Payload_from_json_def bind_eq_Some_conv)
    with reg h c b show ?thesis by auto
  qed
qed

text \<open>A handshake request of a device with a given host name, and a node with a broker.\<close>

definition demo_request :: request where
  "demo_request = \<lparr>rq_headers = [HEADER_INIT \<mapsto> Text SUPPORTED_VERSION, ''host'' \<mapsto> Text ''hamlet.local:8080''],
     rq_body = Some ''{}''\<rparr>"

definition demo_parse :: "string \<Rightarrow> string \<Rightarrow> json option" where
  "demo_parse hostname _ = Some (JObject [(''address'', JString ''10.0.0.9''),
     (''mdns'', JObject [(''hostname'', JString hostname), (''port'', JNumber (JInt 80))]), (''csr_pem'', JString ''csr'')])"

definition demo_http :: "(string, string) http_state" where
  "demo_http = \<lparr>hs_ca = demo_ca, hs_files = Map.empty, hs_brokerage = Some ''/c/ca.crt'',
     hs_brokerage_info = \<lparr>bi_address = ''localhost'', bi_port = 8883, bi_ca_cert_pem = ''root''\<rparr>,
     hs_topic_queue = Some (True, []), hs_upstream_port = 8082\<rparr>"

definition demo_http_env :: "string http_env" where
  "demo_http_env = \<lparr>he_ca = demo_ca_env 1000 [], he_write = Written, he_uuid = ''u1'', he_connect = (\<lambda>_. Err ''refused''),
     he_handshake = Ok (), he_upstream = (\<lambda>_. Err ''closed'')\<rparr>"

lemma demo_process:
  "DeviceInitRequest_process (demo_parse h) demo_request = Ok \<lparr>ir_version = SUPPORTED_VERSION,
     ir_broker_host = strip_port ''hamlet.local:8080'',
     ir_device = \<lparr>di_address = ''10.0.0.9'', di_mdns = \<lparr>md_hostname = h, md_port = 80\<rparr>, di_csr_pem = ''csr''\<rparr>\<rparr>"
  by (simp add: DeviceInitRequest_process_def demo_request_def demo_parse_def limited_body_def PROXY_BODY_LIMIT_def
      HEADER_INIT_def SUPPORTED_VERSION_def DeviceInfo_from_json_def MdnsConfig_from_json_def field_def not_twice_def Let_def)

lemma demo_parent: "path_parent ''/c/ca.crt'' = Some ''/c''"
  by (simp add: path_parent_def)

lemma demo_sign:
  "\<exists>ca. sign_csr demo_rcgen (he_ca demo_http_env) h ''csr'' (hs_ca demo_http) = (Ok ''csr signed'', ca)"
  by (simp add: sign_csr_def operations_sign_csr_def demo_http_env_def demo_http_def demo_ca_defs Let_def)

theorem state_change_needs_valid_request_witness:
  "\<exists>resp st'. dispatch demo_rcgen (demo_parse ''b'') demo_http_env demo_request demo_http = (resp, st') \<and> st' \<noteq> demo_http \<and>
     rs_status resp \<in> {200, 201, 500} \<and> cas_state (hs_ca demo_http) \<noteq> None"
proof -
  obtain ca where ca: "sign_csr demo_rcgen (he_ca demo_http_env) ''b'' ''csr'' (hs_ca demo_http) = (Ok ''csr signed'', ca)"
    using demo_sign by blast
  have w: "identity_written demo_http_env demo_http"
    by (simp add: identity_written_def demo_http_env_def demo_http_def demo_parent)
  let ?p = "handle_device_init demo_rcgen (demo_parse ''b'') demo_http_env demo_request demo_http"
  have "hs_topic_queue (snd ?p) \<noteq> hs_topic_queue demo_http"
    using handshake_ok [OF demo_process [of "''b''"] _ w, of demo_rcgen] ca
    by (simp add: demo_http_def try_send_def TOPIC_CAPACITY_def)
  then have ne: "snd ?p \<noteq> demo_http" by auto
  have d: "dispatch demo_rcgen (demo_parse ''b'') demo_http_env demo_request demo_http = (fst ?p, snd ?p)"
    by (simp add: dispatch_def demo_request_def HEADER_INIT_def HEADER_HEALTH_def)
  from state_change_needs_valid_request [OF d ne] d ne show ?thesis by blast
qed

text \<open>Claim C10. A completed handshake answers 200 with the signed certificate, the beacon's identifier, the
  broker's port, its CA certificate and the host the device used; the device's certificate is on
  record, and in its file beside the CA file when there is a broker; and the two channels of the
  beacon are queued as far as the queue has room. Delivered to the registry with a working MQTT
  client, the two channels make one request, to subscribe to the beacon's topic with at-least-once
  delivery, append its broadcast topic to the shared list, and leave a record with both topics.\<close>

theorem handshake_registers_beacon:
  assumes "DeviceInitRequest_process parse req = Ok r"
    and "sign_csr R (he_ca env) (md_hostname (di_mdns (ir_device r))) (di_csr_pem (ir_device r)) (hs_ca st) = (Ok cert, ca)"
    and "identity_written env st" and "hs_topic_queue st = Some (True, q)" and "length q \<le> 64"
  shows "\<exists>resp st'. handle_device_init R parse env req st = (resp, st') \<and> rs_status resp = 200 \<and> hs_ca st' = ca \<and>
    (case hs_brokerage st of None \<Rightarrow> hs_files st' = hs_files st
     | Some cafile \<Rightarrow> (\<exists>dir. path_parent cafile = Some dir \<and>
         hs_files st' = (hs_files st)(path_join dir (md_hostname (di_mdns (ir_device r)) @ ''.crt'') \<mapsto> cert))) \<and>
    hs_topic_queue st' = Some (True, q @ take (64 - length q) [listen_channel (he_uuid env), broadcast_channel (he_uuid env)]) \<and>
    (\<exists>o1 b. rs_body resp = JsonBody (JObject o1) \<and> map_of o1 ''cert_pem'' = Some (JString cert) \<and>
       map_of o1 ''beacon_id'' = Some (JString (he_uuid env)) \<and>
       map_of o1 ''brokerage'' = Some (JObject b) \<and> map_of b ''address'' = Some (JString (ir_broker_host r)) \<and>
       field as_u16 b ''port'' = Some (bi_port (hs_brokerage_info st)) \<and>
       map_of b ''ca_cert_pem'' = Some (JString (bi_ca_cert_pem (hs_brokerage_info st)))) \<and>
    (\<forall>reg reg' t1 t2. reg' = register_channel (Ok ()) t2 (broadcast_channel (he_uuid env))
         (register_channel (Ok ()) t1 (listen_channel (he_uuid env)) reg) \<longrightarrow>
       mqtt_log reg' = mqtt_log reg @ [Subscribed (he_uuid env @ ''/rec'') AtLeastOnce] \<and>
       broadcast_topics reg' = broadcast_topics reg @ [he_uuid env @ ''/cast''] \<and>
       (\<exists>rec. hm_get (records reg') (he_uuid env) = Some rec \<and>
          listen_topic rec = he_uuid env @ ''/rec'' \<and> broadcast_topic rec = he_uuid env @ ''/cast''))"
proof -
  let ?i = "he_uuid env" and ?b = "(hs_brokerage_info st)\<lparr>bi_address := ir_broker_host r\<rparr>"
  let ?h = "md_hostname (di_mdns (ir_device r))"
  have ok: "handle_device_init R parse env req st = (json_response 200 (JObject [(''cert_pem'', JString cert),
       (''brokerage'', brokerage_json ?b), (''beacon_id'', JString ?i)]),
     st\<lparr>hs_ca := ca, hs_files := identity_files ?h cert st,
        hs_topic_queue := map_option (\<lambda>q. try_send (broadcast_channel ?i) (try_send (listen_channel ?i) q)) (hs_topic_queue st)\<rparr>)"
    by (rule handshake_ok [OF assms(1-3)])
  have queue: "try_send (broadcast_channel ?i) (try_send (listen_channel ?i) (True, q)) =
      (True, q @ take (64 - length q) [listen_channel ?i, broadcast_channel ?i])"
    using assms(5) by (cases "length q = 64"; cases "length q = 63") (auto simp: try_send_def TOPIC_CAPACITY_def take_Cons' numeral_eq_Suc)
  have port: "as_u16 (JNumber (JInt (uint (bi_port ?b)))) = Some (bi_port (hs_brokerage_info st))"
    using uint_lt2p [of "bi_port (hs_brokerage_info st)"] by simp
  have files: "case hs_brokerage st of None \<Rightarrow> identity_files ?h cert st = hs_files st
     | Some cafile \<Rightarrow> (\<exists>dir. path_parent cafile = Some dir \<and>
         identity_files ?h cert st = (hs_files st)(path_join dir (?h @ ''.crt'') \<mapsto> cert))"
    using assms(3) by (auto simp: identity_written_def identity_files_def device_cert_path_def split: option.splits)
  show ?thesis
  proof (rule exI, rule exI, intro conjI, rule ok)
    show "\<exists>o1 b. rs_body (json_response 200 (JObject [(''cert_pem'', JString cert),
        (''brokerage'', brokerage_json ?b), (''beacon_id'', JString ?i)])) = JsonBody (JObject o1) \<and>
       map_of o1 ''cert_pem'' = Some (JString cert) \<and> map_of o1 ''beacon_id'' = Some (JString ?i) \<and>
       map_of o1 ''brokerage'' = Some (JObject b) \<and> map_of b ''address'' = Some (JString (ir_broker_host r)) \<and>
       field as_u16 b ''port'' = Some (bi_port (hs_brokerage_info st)) \<and>
       map_of b ''ca_cert_pem'' = Some (JString (bi_ca_cert_pem (hs_brokerage_info st)))"
      using port by (simp add: json_response_def brokerage_json_def field_def)
  next
    show "\<forall>reg reg' t1 t2. reg' = register_channel (Ok ()) t2 (broadcast_channel ?i)
         (register_channel (Ok ()) t1 (listen_channel ?i) reg) \<longrightarrow>
       mqtt_log reg' = mqtt_log reg @ [Subscribed (?i @ ''/rec'') AtLeastOnce] \<and>
       broadcast_topics reg' = broadcast_topics reg @ [?i @ ''/cast''] \<and>
       (\<exists>rec. hm_get (records reg') ?i = Some rec \<and> listen_topic rec = ?i @ ''/rec'' \<and> broadcast_topic rec = ?i @ ''/cast'')"
      by (intro allI impI conjI; erule channels_registered)
  qed (use queue files assms(4) in \<open>simp_all add: json_response_def split: option.splits\<close>)
qed

theorem handshake_registers_beacon_witness:
  "\<exists>resp st'. handle_device_init demo_rcgen (demo_parse ''b'') demo_http_env demo_request demo_http = (resp, st') \<and>
     rs_status resp = 200 \<and> hs_topic_queue st' = Some (True, [listen_channel ''u1'', broadcast_channel ''u1''])"
proof -
  obtain ca where ca: "sign_csr demo_rcgen (he_ca demo_http_env) ''b'' ''csr'' (hs_ca demo_http) = (Ok ''csr signed'', ca)"
    using demo_sign by blast
  have w: "identity_written demo_http_env demo_http" "hs_topic_queue demo_http = Some (True, [])" "he_uuid demo_http_env = ''u1''"
    by (simp_all add: identity_written_def demo_http_env_def demo_http_def demo_parent)
  show ?thesis
    using handshake_registers_beacon [OF demo_process [of "''b''"] _ w(1,2), of demo_rcgen] ca w(3) by auto
qed

text \<open>Claim C34. The host name a device sends in the handshake decides, unchecked, where its certificate is
  written: the file is \<^verbatim>\<open><hostname>.crt\<close> beside the CA file, anywhere else if the name is an absolute
  path, and the CA file itself if the name is the stem of the CA file, whose content is then the
  device's certificate.\<close>

theorem hostname_controls_cert_path:
  assumes "DeviceInitRequest_process parse req = Ok r" and "md_hostname (di_mdns (ir_device r)) = h"
    and "sign_csr R (he_ca env) h (di_csr_pem (ir_device r)) (hs_ca st) = (Ok cert, ca)"
    and "hs_brokerage st = Some cafile" and "path_parent cafile = Some dir" and "he_write env = Written"
  shows "\<exists>resp st'. handle_device_init R parse env req st = (resp, st') \<and> rs_status resp = 200 \<and>
    hs_files st' = (hs_files st)(path_join dir (h @ ''.crt'') \<mapsto> cert) \<and>
    (path_is_absolute h \<longrightarrow> hs_files st' (h @ ''.crt'') = Some cert) \<and>
    (cafile = path_join dir (h @ ''.crt'') \<longrightarrow> hs_files st' cafile = Some cert)"
proof -
  have w: "identity_written env st" using assms(4-6) by (simp add: identity_written_def)
  have f: "identity_files h cert st = (hs_files st)(path_join dir (h @ ''.crt'') \<mapsto> cert)"
    using assms(4,5) by (simp add: identity_files_def device_cert_path_def)
  have "path_is_absolute h \<Longrightarrow> path_is_absolute (h @ ''.crt'')"
    by (cases h) (simp_all add: path_is_absolute_def)
  then show ?thesis
    using handshake_ok [OF assms(1) _ w, of R cert ca] assms(2,3) f
    by (simp add: json_response_def path_join_absolute)
qed

theorem hostname_controls_cert_path_witness:
  "\<exists>resp st'. handle_device_init demo_rcgen (demo_parse ''ca'') demo_http_env demo_request demo_http = (resp, st') \<and>
     rs_status resp = 200 \<and> hs_files st' ''/c/ca.crt'' = Some ''csr signed''"
proof -
  obtain ca where ca: "sign_csr demo_rcgen (he_ca demo_http_env) ''ca'' ''csr'' (hs_ca demo_http) = (Ok ''csr signed'', ca)"
    using demo_sign by blast
  have "hs_brokerage demo_http = Some ''/c/ca.crt''" "he_write demo_http_env = Written"
    by (simp_all add: demo_http_def demo_http_env_def)
  from hostname_controls_cert_path [OF demo_process, of "''ca''" "''ca''" demo_rcgen, OF _ _ this(1) demo_parent this(2)] ca
  show ?thesis by (auto simp: path_join_def path_is_absolute_def)
qed

text \<open>Claim C35. The handshake does not ask whether a device is revoked: a device marked as revoked that
  repeats the handshake is answered 200, receives a new certificate and is no longer revoked.\<close>

theorem revoked_device_readmitted:
  assumes "DeviceInitRequest_process parse req = Ok r" and "md_hostname (di_mdns (ir_device r)) = h"
    and "is_revoked qenv h (hs_ca st) = Ok True"
    and "sign_csr R (he_ca env) h (di_csr_pem (ir_device r)) (hs_ca st) = (Ok cert, ca)"
    and "identity_written env st"
  shows "\<exists>resp st'. handle_device_init R parse env req st = (resp, st') \<and> rs_status resp = 200 \<and>
    is_revoked qenv h (hs_ca st') = Ok False \<and> get_cert qenv h (hs_ca st') = Ok (Some cert)"
proof -
  have q: "ce_query_err qenv = None" using assms(3) by (cases "ce_query_err qenv") (simp_all add: is_revoked_def)
  have "is_revoked qenv h ca = Ok False \<and> get_cert qenv h ca = Ok (Some cert)"
    using assms(4) q by (cases rule: sign_csr_cases [of R "he_ca env" h "di_csr_pem (ir_device r)" "hs_ca st"])
      (auto simp: is_revoked_def get_cert_def find_device_def upsert_find)
  then show ?thesis
    using handshake_ok [OF assms(1) _ assms(5), of R cert ca] assms(2,4) by (simp add: json_response_def)
qed

theorem revoked_device_readmitted_witness:
  "\<exists>st0 resp st'. st0 = demo_http\<lparr>hs_ca := snd (revoke (demo_ca_env 5 []) ''b'' (snd (sign_csr demo_rcgen
        (demo_ca_env 1 []) ''b'' ''old'' demo_ca)))\<rparr> \<and> is_revoked (demo_ca_env 0 []) ''b'' (hs_ca st0) = Ok True \<and>
     handle_device_init demo_rcgen (demo_parse ''b'') demo_http_env demo_request st0 = (resp, st') \<and>
     rs_status resp = 200 \<and> is_revoked (demo_ca_env 0 []) ''b'' (hs_ca st') = Ok False"
proof -
  let ?st = "demo_http\<lparr>hs_ca := snd (revoke (demo_ca_env 5 []) ''b'' (snd (sign_csr demo_rcgen
        (demo_ca_env 1 []) ''b'' ''old'' demo_ca)))\<rparr>"
  have rv: "is_revoked (demo_ca_env 0 []) ''b'' (hs_ca ?st) = Ok True"
    and ca: "\<exists>ca. sign_csr demo_rcgen (he_ca demo_http_env) ''b'' ''csr'' (hs_ca ?st) = (Ok ''csr signed'', ca)"
    by (simp_all add: revoke_def sign_csr_def operations_sign_csr_def demo_ca_defs demo_http_env_def Let_def
        is_revoked_def find_device_def)
  have w: "identity_written demo_http_env ?st"
    by (simp add: identity_written_def demo_http_env_def demo_http_def demo_parent)
  show ?thesis
    using revoked_device_readmitted [OF demo_process, of "''b''" "''b''" "demo_ca_env 0 []" ?st demo_rcgen, OF _ rv _ w] ca rv by auto
qed

end
