(* ===== verification/Supervisor.thy ===== *)
theory Supervisor
  imports Hamlet_Prelude
begin

text \<open>
  The supervisor (\<^verbatim>\<open>src/supervisor.rs\<close>) and the service identifiers
  (\<^verbatim>\<open>src/services/mod.rs\<close>): the status table, the command handlers, the command loop with
  its shutdown, and the request side of \<^verbatim>\<open>SupervisorHandle\<close>. A managed service is a value of
  an arbitrary type with the three methods of the trait \<^verbatim>\<open>ManagedService\<close>; each call also takes
  the environment's answers for that call (what the operating system does). The locale
  \<open>managed_lifecycle\<close> states what the supervisor relies on; it is interpreted on the services
  of the program in \<open>Managed_Services\<close>.
\<close>

section \<open>Data\<close>

datatype ServiceId = Gateway | Mosquitto | MqttClient | CloudGateway | GatewayMqttClient

datatype ServiceStatus = Unavailable | Stopped | Starting | Running u32 | Failed string

datatype SupervisorCommand = Start ServiceId | Stop ServiceId | Restart ServiceId | Status

record ('e, 's) managed_service =
  ms_start :: "'e \<Rightarrow> 's \<Rightarrow> u32 result \<times> 's"
  ms_stop :: "'e \<Rightarrow> 's \<Rightarrow> unit result \<times> 's"
  ms_is_running :: "'e \<Rightarrow> 's \<Rightarrow> bool \<times> 's"

record 's supervisor =
  services :: "ServiceId \<rightharpoonup> 's"
  statuses :: "ServiceId \<rightharpoonup> ServiceStatus"
  channel_buffer :: nat

datatype reply = Done "unit result" | Statuses "ServiceId \<rightharpoonup> ServiceStatus"

text \<open>The derived \<^verbatim>\<open>Debug\<close> output of an identifier, used in the error messages.\<close>

fun show_ServiceId :: "ServiceId \<Rightarrow> string" where
  "show_ServiceId Gateway = ''Gateway''"
| "show_ServiceId Mosquitto = ''Mosquitto''"
| "show_ServiceId MqttClient = ''MqttClient''"
| "show_ServiceId CloudGateway = ''CloudGateway''"
| "show_ServiceId GatewayMqttClient = ''GatewayMqttClient''"

section \<open>Operations\<close>

definition supervisor_new :: "'s supervisor" where
  "supervisor_new = \<lparr>services = Map.empty, statuses = Map.empty, channel_buffer = 32\<rparr>"

definition register :: "ServiceId \<Rightarrow> 's \<Rightarrow> bool \<Rightarrow> 's supervisor \<Rightarrow> 's supervisor" where
  "register i svc available sv =
     (let initial_status = (if available then Stopped else Unavailable)
      in sv\<lparr>statuses := (statuses sv)(i \<mapsto> initial_status),
             services := (services sv)(i \<mapsto> svc)\<rparr>)"

text \<open>The early returns of \<^verbatim>\<open>handle_start\<close> and \<^verbatim>\<open>handle_stop\<close>.\<close>

fun start_refused :: "ServiceId \<Rightarrow> ServiceStatus option \<Rightarrow> string option" where
  "start_refused i (Some Unavailable) = Some (show_ServiceId i @ '' is not installed on this system'')"
| "start_refused i (Some (Running _)) = Some (show_ServiceId i @ '' is already running'')"
| "start_refused i (Some Starting) = Some (show_ServiceId i @ '' is already starting'')"
| "start_refused i None = Some (show_ServiceId i @ '' is not registered'')"
| "start_refused i _ = None"

fun stop_refused :: "ServiceId \<Rightarrow> ServiceStatus option \<Rightarrow> string option" where
  "stop_refused i (Some Stopped) = Some (show_ServiceId i @ '' is already stopped'')"
| "stop_refused i (Some Unavailable) = Some (show_ServiceId i @ '' is not available'')"
| "stop_refused i _ = None"

definition handle_start ::
  "('e, 's) managed_service \<Rightarrow> 'e \<Rightarrow> ServiceId \<Rightarrow> 's supervisor \<Rightarrow> unit result \<times> 's supervisor" where
  "handle_start ops e i sv =
     (case start_refused i (statuses sv i) of
        Some msg \<Rightarrow> (Err msg, sv)
      | None \<Rightarrow>
          let sv1 = sv\<lparr>statuses := (statuses sv)(i \<mapsto> Starting)\<rparr>
          in (case services sv1 i of
                None \<Rightarrow> (Err (show_ServiceId i @ '' not registered''), sv1)
              | Some svc \<Rightarrow>
                  (case ms_start ops e svc of
                     (Ok pid, svc') \<Rightarrow>
                       (Ok (), sv1\<lparr>services := (services sv1)(i \<mapsto> svc'),
                                    statuses := (statuses sv1)(i \<mapsto> Running pid)\<rparr>)
                   | (Err err, svc') \<Rightarrow>
                       (Err err, sv1\<lparr>services := (services sv1)(i \<mapsto> svc'),
                                      statuses := (statuses sv1)(i \<mapsto> Failed err)\<rparr>))))"

definition handle_stop ::
  "('e, 's) managed_service \<Rightarrow> 'e \<Rightarrow> ServiceId \<Rightarrow> 's supervisor \<Rightarrow> unit result \<times> 's supervisor" where
  "handle_stop ops e i sv =
     (case stop_refused i (statuses sv i) of
        Some msg \<Rightarrow> (Err msg, sv)
      | None \<Rightarrow>
          (case services sv i of
             None \<Rightarrow> (Err (show_ServiceId i @ '' not registered''), sv)
           | Some svc \<Rightarrow>
               (case ms_stop ops e svc of
                  (Ok u, svc') \<Rightarrow>
                    (Ok (), sv\<lparr>services := (services sv)(i \<mapsto> svc'),
                                statuses := (statuses sv)(i \<mapsto> Stopped)\<rparr>)
                | (Err err, svc') \<Rightarrow>
                    (Err err, sv\<lparr>services := (services sv)(i \<mapsto> svc')\<rparr>))))"

text \<open>A restart makes up to two calls; \<open>e1\<close> answers the stop and \<open>e2\<close> the start.\<close>

definition handle_restart ::
  "('e, 's) managed_service \<Rightarrow> 'e \<Rightarrow> 'e \<Rightarrow> ServiceId \<Rightarrow> 's supervisor \<Rightarrow>
   unit result \<times> 's supervisor" where
  "handle_restart ops e1 e2 i sv =
     (case statuses sv i of
        Some (Running _) \<Rightarrow> handle_start ops e2 i (snd (handle_stop ops e1 i sv))
      | _ \<Rightarrow> handle_start ops e2 i sv)"

text \<open>One round of the command loop, the loop over the commands received, and the shutdown that
  follows when every handle is gone. Each command comes with the environment of its calls.\<close>

fun supervisor_step ::
  "('e, 's) managed_service \<Rightarrow> 'e \<times> 'e \<Rightarrow> SupervisorCommand \<Rightarrow> 's supervisor \<Rightarrow>
   reply \<times> 's supervisor" where
  "supervisor_step ops (e1, e2) (Start i) sv = map_prod Done id (handle_start ops e2 i sv)"
| "supervisor_step ops (e1, e2) (Stop i) sv = map_prod Done id (handle_stop ops e1 i sv)"
| "supervisor_step ops (e1, e2) (Restart i) sv = map_prod Done id (handle_restart ops e1 e2 i sv)"
| "supervisor_step ops (e1, e2) Status sv = (Statuses (statuses sv), sv)"

fun supervisor_loop ::
  "('e, 's) managed_service \<Rightarrow> (('e \<times> 'e) \<times> SupervisorCommand) list \<Rightarrow> 's supervisor \<Rightarrow>
   reply list \<times> 's supervisor" where
  "supervisor_loop ops [] sv = ([], sv)"
| "supervisor_loop ops ((env, cmd) # cmds) sv =
     (case supervisor_step ops env cmd sv of
        (r, sv1) \<Rightarrow> (case supervisor_loop ops cmds sv1 of (rs, sv2) \<Rightarrow> (r # rs, sv2)))"

definition supervisor_shutdown ::
  "('e, 's) managed_service \<Rightarrow> (ServiceId \<Rightarrow> 'e) \<Rightarrow> 's supervisor \<Rightarrow> 's supervisor" where
  "supervisor_shutdown ops env sv =
     sv\<lparr>services := (\<lambda>i. map_option (\<lambda>svc. snd (ms_stop ops (env i) svc)) (services sv i))\<rparr>"

text \<open>
  The request side: \<open>sent\<close> tells whether the command channel accepted the command and
  \<open>answer\<close> is what came back on the one-shot reply channel, if anything.
\<close>

definition supervisor_request :: "bool \<Rightarrow> 'r option \<Rightarrow> 'r result" where
  "supervisor_request sent answer =
     (if \<not> sent then Err ''supervisor channel closed''
      else (case answer of None \<Rightarrow> Err ''supervisor dropped reply'' | Some r \<Rightarrow> Ok r))"

definition start_service :: "bool \<Rightarrow> unit result option \<Rightarrow> unit result" where
  "start_service sent answer =
     (case supervisor_request sent answer of Err e \<Rightarrow> Err e | Ok r \<Rightarrow> r)"

definition get_status ::
  "bool \<Rightarrow> (ServiceId \<rightharpoonup> ServiceStatus) option \<Rightarrow> (ServiceId \<rightharpoonup> ServiceStatus) result" where
  "get_status sent answer = supervisor_request sent answer"

section \<open>The lifecycle of one service, as the status table and the replies show it\<close>

text \<open>
  The abstract machine: which reply and which status may follow when a service in a given status is
  sent a command. \<^verbatim>\<open>Starting\<close> is only visible while a handler runs. A restart of a running service
  whose stop fails finds it still running.
\<close>

definition startable :: "ServiceStatus \<Rightarrow> bool" where
  "startable st \<longleftrightarrow> st = Stopped \<or> (\<exists>err. st = Failed err)"

definition stoppable :: "ServiceStatus \<Rightarrow> bool" where
  "stoppable st \<longleftrightarrow> (\<exists>pid. st = Running pid) \<or> (\<exists>err. st = Failed err) \<or> st = Starting"

inductive lifecycle_step :: "SupervisorCommand \<Rightarrow> ServiceStatus \<Rightarrow> unit result \<Rightarrow> ServiceStatus \<Rightarrow> bool" where
  started: "startable st \<Longrightarrow> lifecycle_step (Start i) st (Ok ()) (Running pid)"
| start_failed: "startable st \<Longrightarrow> lifecycle_step (Start i) st (Err err) (Failed err)"
| start_denied: "\<not> startable st \<Longrightarrow> lifecycle_step (Start i) st (Err msg) st"
| stopped: "stoppable st \<Longrightarrow> lifecycle_step (Stop i) st (Ok ()) Stopped"
| stop_failed: "stoppable st \<Longrightarrow> lifecycle_step (Stop i) st (Err err) st"
| stop_denied: "\<not> stoppable st \<Longrightarrow> lifecycle_step (Stop i) st (Err msg) st"
| restarted: "lifecycle_step (Restart i) (Running pid) (Ok ()) (Running pid')"
| restart_failed: "lifecycle_step (Restart i) (Running pid) (Err err) (Failed err)"
| restart_kept: "lifecycle_step (Restart i) (Running pid) (Err msg) (Running pid)"
| restart_starts: "\<forall>pid. st \<noteq> Running pid \<Longrightarrow> lifecycle_step (Start i) st r st' \<Longrightarrow> lifecycle_step (Restart i) st r st'"

inductive_cases lifecycle_startE: "lifecycle_step (Start i) st r st'"
inductive_simps lifecycle_simps:
  "lifecycle_step (Start i) st r st'" "lifecycle_step (Stop i) st r st'" "lifecycle_step (Restart i) st r st'"

section \<open>Well-formed tables\<close>

definition tables_agree :: "'s supervisor \<Rightarrow> bool" where
  "tables_agree sv \<longleftrightarrow>
     dom (statuses sv) = dom (services sv) \<and> Starting \<notin> ran (statuses sv)"

definition status_truthful :: "('s \<Rightarrow> bool) \<Rightarrow> ServiceStatus \<Rightarrow> 's \<Rightarrow> bool" where
  "status_truthful active st svc =
     (case st of
        Running _ \<Rightarrow> active svc
      | Stopped \<Rightarrow> \<not> active svc
      | Unavailable \<Rightarrow> \<not> active svc
      | _ \<Rightarrow> True)"

definition supervisor_inv :: "('s \<Rightarrow> bool) \<Rightarrow> 's supervisor \<Rightarrow> bool" where
  "supervisor_inv active sv \<longleftrightarrow>
     tables_agree sv \<and>
     (\<forall>i st svc. statuses sv i = Some st \<longrightarrow> services sv i = Some svc \<longrightarrow>
        status_truthful active st svc)"

lemmas handler_defs = handle_start_def handle_stop_def Let_def

lemma tables_agree_new: "tables_agree supervisor_new"
  by (simp add: tables_agree_def supervisor_new_def)

lemma tables_agree_register: "tables_agree sv \<Longrightarrow> tables_agree (register i svc b sv)"
  by (auto simp: tables_agree_def register_def ran_def Let_def split: if_splits)

lemma start_refused_None:
  "start_refused i st = None \<longleftrightarrow> st = Some Stopped \<or> (\<exists>r. st = Some (Failed r))"
  by (cases "(i, st)" rule: start_refused.cases) auto

lemma stop_refused_None:
  "stop_refused i st = None \<longleftrightarrow> st \<noteq> Some Stopped \<and> st \<noteq> Some Unavailable"
  by (cases "(i, st)" rule: stop_refused.cases) auto

text \<open>What a handler does to the two tables, in one equation each.\<close>

lemma handle_start_eq:
  assumes "tables_agree sv"
  shows "handle_start ops e i sv =
    (case start_refused i (statuses sv i) of
       Some msg \<Rightarrow> (Err msg, sv)
     | None \<Rightarrow>
         let (r, svc') = ms_start ops e (the (services sv i))
         in (map_sum id (\<lambda>_. ()) r,
             sv\<lparr>services := (services sv)(i \<mapsto> svc'),
                 statuses := (statuses sv)(i \<mapsto> (case r of Ok pid \<Rightarrow> Running pid | Err err \<Rightarrow> Failed err))\<rparr>))"
proof (cases "start_refused i (statuses sv i)")
  case None
  then have "i \<in> dom (statuses sv)" by (auto simp: start_refused_None)
  with assms obtain svc where "services sv i = Some svc"
    by (auto simp: tables_agree_def)
  with None show ?thesis
    by (auto simp: handle_start_def Let_def split: prod.splits sum.splits)
qed (simp add: handle_start_def)

lemma handle_stop_eq:
  "handle_stop ops e i sv =
    (case stop_refused i (statuses sv i) of
       Some msg \<Rightarrow> (Err msg, sv)
     | None \<Rightarrow>
        (case services sv i of
           None \<Rightarrow> (Err (show_ServiceId i @ '' not registered''), sv)
         | Some svc \<Rightarrow>
             let (r, svc') = ms_stop ops e svc
             in (r, sv\<lparr>services := (services sv)(i \<mapsto> svc'),
                        statuses := (if is_ok r then (statuses sv)(i \<mapsto> Stopped) else statuses sv)\<rparr>)))"
  by (auto simp: handle_stop_def split: option.splits prod.splits sum.splits)

lemma tables_agree_handle_start:
  "tables_agree sv \<Longrightarrow> tables_agree (snd (handle_start ops e i sv))"
  by (auto simp: handle_start_eq start_refused_None tables_agree_def ran_def Let_def
      split: option.splits prod.splits sum.splits if_splits)

lemma tables_agree_handle_stop:
  "tables_agree sv \<Longrightarrow> tables_agree (snd (handle_stop ops e i sv))"
  by (auto simp: handle_stop_eq tables_agree_def ran_def Let_def
      split: option.splits prod.splits if_splits)

lemma tables_agree_handle_restart:
  "tables_agree sv \<Longrightarrow> tables_agree (snd (handle_restart ops e1 e2 i sv))"
  by (auto simp: handle_restart_def tables_agree_handle_start tables_agree_handle_stop
      split: option.splits ServiceStatus.splits)

lemma tables_agree_step:
  "tables_agree sv \<Longrightarrow> tables_agree (snd (supervisor_step ops env cmd sv))"
  by (cases env; cases cmd)
    (auto simp: tables_agree_handle_start tables_agree_handle_stop tables_agree_handle_restart)

lemma supervisor_loop_snd:
  "snd (supervisor_loop ops cmds sv) =
     fold (\<lambda>(env, cmd) s. snd (supervisor_step ops env cmd s)) cmds sv"
  by (induction ops cmds sv rule: supervisor_loop.induct) (auto split: prod.splits)

lemma supervisor_loop_invariant:
  assumes "\<And>env cmd s. P s \<Longrightarrow> P (snd (supervisor_step ops env cmd s))" and "P sv"
  shows "P (snd (supervisor_loop ops cmds sv))"
  using assms(2) unfolding supervisor_loop_snd
  by (induction cmds arbitrary: sv) (auto simp: assms(1))

lemma supervisor_loop_length: "length (fst (supervisor_loop ops cmds sv)) = length cmds"
  by (induction ops cmds sv rule: supervisor_loop.induct) (auto split: prod.splits)


lemma running_active:
  assumes "supervisor_inv active sv" and "statuses sv i = Some (Running pid)"
  shows "\<exists>svc. services sv i = Some svc \<and> active svc"
proof -
  from assms have "i \<in> dom (services sv)"
    by (metis domI supervisor_inv_def tables_agree_def)
  then obtain svc where "services sv i = Some svc" by blast
  moreover from this assms have "status_truthful active (Running pid) svc"
    by (simp add: supervisor_inv_def)
  ultimately show ?thesis by (simp add: status_truthful_def)
qed

section \<open>The contract of a managed service\<close>

text \<open>
  What the supervisor needs of a service: after a successful start it is active (it holds the
  resource its stop releases), after a successful stop it is not, and stopping an active service
  succeeds. Nothing is assumed of a failed start.
\<close>

locale managed_lifecycle =
  fixes ops :: "('e, 's) managed_service" and active :: "'s \<Rightarrow> bool"
  assumes start_ok_active: "ms_start ops e s = (Ok pid, s') \<Longrightarrow> active s'"
    and stop_ok_inactive: "ms_stop ops e s = (Ok u, s') \<Longrightarrow> \<not> active s'"
    and stop_active_ok: "active s \<Longrightarrow> \<exists>s'. ms_stop ops e s = (Ok (), s')"
begin

lemma start_truthful:
  "ms_start ops e s = (r, s') \<Longrightarrow>
   status_truthful active (case r of Ok pid \<Rightarrow> Running pid | Err err \<Rightarrow> Failed err) s'"
  by (cases r) (auto simp: status_truthful_def dest: start_ok_active)

lemma inv_new: "supervisor_inv active supervisor_new"
  by (simp add: supervisor_inv_def tables_agree_new) (simp add: supervisor_new_def)

lemma inv_register:
  "supervisor_inv active sv \<Longrightarrow> \<not> active svc \<Longrightarrow> supervisor_inv active (register i svc b sv)"
  by (auto simp: supervisor_inv_def tables_agree_register)
    (auto simp: register_def status_truthful_def Let_def split: if_splits)

lemma inv_handle_start:
  assumes "supervisor_inv active sv"
  shows "supervisor_inv active (snd (handle_start ops e i sv))"
proof -
  from assms have ta: "tables_agree sv" by (simp add: supervisor_inv_def)
  obtain r svc' where r: "ms_start ops e (the (services sv i)) = (r, svc')"
    by (cases "ms_start ops e (the (services sv i))")
  show ?thesis
    using assms start_truthful [OF r] tables_agree_handle_start [OF ta, of ops e i]
    by (auto simp: supervisor_inv_def handle_start_eq [OF ta] r split: option.splits if_splits)
qed

lemma inv_handle_stop:
  assumes "supervisor_inv active sv"
  shows "supervisor_inv active (snd (handle_stop ops e i sv))"
proof (cases "services sv i")
  case None
  then show ?thesis using assms by (auto simp: handle_stop_eq split: option.splits)
next
  case (Some svc)
  from assms have ta: "tables_agree sv"
    and tr: "\<And>st. statuses sv i = Some st \<Longrightarrow> status_truthful active st svc"
    using Some by (auto simp: supervisor_inv_def)
  obtain r svc' where r: "ms_stop ops e svc = (r, svc')"
    by (cases "ms_stop ops e svc")
  have err: "\<not> is_ok r \<Longrightarrow> \<not> active svc"
    using stop_active_ok [of svc e] r by auto
  have ok: "is_ok r \<Longrightarrow> \<not> active svc'"
    using stop_ok_inactive [of e svc] r by (auto simp: is_ok_iff)
  have quiet: "\<not> is_ok r \<Longrightarrow> stop_refused i (statuses sv i) = None \<Longrightarrow> statuses sv i = Some st \<Longrightarrow>
      status_truthful active st svc'" for st
    using tr [of st] err by (auto simp: stop_refused_None status_truthful_def split: ServiceStatus.splits)
  show ?thesis
    using assms ok quiet tables_agree_handle_stop [OF ta, of ops e i]
    by (auto simp: supervisor_inv_def handle_stop_eq Some r status_truthful_def [of _ Stopped]
        split: option.splits if_splits)
qed

lemma inv_handle_restart:
  "supervisor_inv active sv \<Longrightarrow> supervisor_inv active (snd (handle_restart ops e1 e2 i sv))"
  by (auto simp: handle_restart_def inv_handle_start inv_handle_stop
      split: option.splits ServiceStatus.splits)

lemma inv_step:
  "supervisor_inv active sv \<Longrightarrow> supervisor_inv active (snd (supervisor_step ops env cmd sv))"
  by (cases env; cases cmd) (auto simp: inv_handle_start inv_handle_stop inv_handle_restart)

lemma inv_loop:
  "supervisor_inv active sv \<Longrightarrow> supervisor_inv active (snd (supervisor_loop ops cmds sv))"
  by (rule supervisor_loop_invariant [where P = "supervisor_inv active"]) (rule inv_step)

lemma stop_running:
  assumes "supervisor_inv active sv" and "statuses sv i = Some (Running pid)"
  shows "fst (handle_stop ops e i sv) = Ok ()"
    and "statuses (snd (handle_stop ops e i sv)) i = Some Stopped"
    and "\<exists>svc'. services (snd (handle_stop ops e i sv)) i = Some svc' \<and> \<not> active svc'"
proof -
  from running_active [OF assms] obtain svc where svc: "services sv i = Some svc" and "active svc"
    by blast
  then obtain svc' where s: "ms_stop ops e svc = (Ok (), svc')" using stop_active_ok by blast
  then have "\<not> active svc'" by (rule stop_ok_inactive)
  with assms svc s show "fst (handle_stop ops e i sv) = Ok ()"
    and "statuses (snd (handle_stop ops e i sv)) i = Some Stopped"
    and "\<exists>svc'. services (snd (handle_stop ops e i sv)) i = Some svc' \<and> \<not> active svc'"
    by (auto simp: handle_stop_eq)
qed

lemma shutdown_running:
  assumes "supervisor_inv active sv" and "statuses sv i = Some (Running pid)"
  shows "\<exists>svc. services (supervisor_shutdown ops env sv) i = Some svc \<and> \<not> active svc"
proof -
  from running_active [OF assms] obtain svc where "services sv i = Some svc" and "active svc"
    by blast
  moreover obtain svc' where "ms_stop ops (env i) svc = (Ok (), svc')"
    using stop_active_ok calculation(2) by blast
  ultimately show ?thesis
    using stop_ok_inactive by (auto simp: supervisor_shutdown_def)
qed

end

section \<open>Every command is a step of the abstract lifecycle\<close>

lemma handle_start_refused:
  "start_refused i (statuses sv i) = Some msg \<Longrightarrow> handle_start ops e i sv = (Err msg, sv)"
  by (simp add: handle_start_def)

lemma handle_start_proceeds:
  assumes "tables_agree sv" and "start_refused i (statuses sv i) = None"
  shows "(\<exists>pid. statuses (snd (handle_start ops e i sv)) = (statuses sv)(i \<mapsto> Running pid)) \<or>
         (\<exists>err. statuses (snd (handle_start ops e i sv)) = (statuses sv)(i \<mapsto> Failed err))"
proof -
  obtain r svc' where "ms_start ops e (the (services sv i)) = (r, svc')"
    by (cases "ms_start ops e (the (services sv i))")
  then show ?thesis by (cases r) (auto simp: handle_start_eq [OF assms(1)] assms(2))
qed

lemma handle_stop_statuses:
  "snd (handle_stop ops e i sv) = sv \<or>
   stop_refused i (statuses sv i) = None \<and>
   (statuses (snd (handle_stop ops e i sv)) = statuses sv \<or>
    statuses (snd (handle_stop ops e i sv)) = (statuses sv)(i \<mapsto> Stopped) \<and> i \<in> dom (services sv))"
  by (auto simp: handle_stop_eq split: option.splits prod.splits)

lemma handle_start_lifecycle:
  assumes "tables_agree sv" and "statuses sv i = Some st"
  shows "\<exists>st'. statuses (snd (handle_start ops e i sv)) i = Some st' \<and>
    lifecycle_step (Start i) st (fst (handle_start ops e i sv)) st'"
proof (cases "start_refused i (statuses sv i)")
  case None
  then have "startable st" using assms(2) by (auto simp: start_refused_None startable_def)
  then show ?thesis
    by (cases "ms_start ops e (the (services sv i))"; cases "fst (ms_start ops e (the (services sv i)))")
      (auto simp: handle_start_eq [OF assms(1)] None intro: lifecycle_step.intros)
next
  case (Some msg)
  then have "\<not> startable st" using assms(2) by (auto simp: startable_def)
  with Some assms(2) show ?thesis by (auto simp: handle_start_refused intro: lifecycle_step.intros)
qed

lemma handle_stop_lifecycle:
  assumes "tables_agree sv" and "statuses sv i = Some st"
  shows "\<exists>st'. statuses (snd (handle_stop ops e i sv)) i = Some st' \<and>
    lifecycle_step (Stop i) st (fst (handle_stop ops e i sv)) st' \<and>
    (\<forall>pid. st = Running pid \<longrightarrow> st' = st \<or> st' = Stopped)"
proof (cases "stop_refused i (statuses sv i)")
  case None
  then have "stoppable st" using assms(2) by (cases st) (auto simp: stoppable_def)
  moreover obtain svc where "services sv i = Some svc"
    using assms by (force simp: tables_agree_def)
  ultimately show ?thesis using assms(2) None
    by (cases "ms_stop ops e svc"; cases "fst (ms_stop ops e svc)")
      (auto simp: handle_stop_eq intro: lifecycle_step.intros)
next
  case (Some msg)
  then have "\<not> stoppable st" using assms(2) by (cases st) (auto simp: stoppable_def)
  with Some assms(2) show ?thesis by (auto simp: handle_stop_eq intro: lifecycle_step.intros)
qed

lemma handle_restart_lifecycle:
  assumes "tables_agree sv" and "statuses sv i = Some st"
  shows "\<exists>st'. statuses (snd (handle_restart ops e1 e2 i sv)) i = Some st' \<and>
    lifecycle_step (Restart i) st (fst (handle_restart ops e1 e2 i sv)) st'"
proof (cases "\<exists>pid. st = Running pid")
  case True
  then obtain pid where st: "st = Running pid" by blast
  define s where "s = snd (handle_stop ops e1 i sv)"
  have eq: "handle_restart ops e1 e2 i sv = handle_start ops e2 i s"
    by (simp add: handle_restart_def assms(2) st s_def)
  have ta: "tables_agree s" unfolding s_def by (rule tables_agree_handle_stop [OF assms(1)])
  obtain st1 where st1: "statuses s i = Some st1" "st1 = st \<or> st1 = Stopped"
    using handle_stop_lifecycle [OF assms, of ops e1] st unfolding s_def by blast
  from handle_start_lifecycle [OF ta st1(1), of ops e2] st1(2) show ?thesis
    unfolding eq st by (auto simp: lifecycle_simps startable_def)
next
  case False
  then have eq: "handle_restart ops e1 e2 i sv = handle_start ops e2 i sv"
    using assms(2) by (auto simp: handle_restart_def split: ServiceStatus.splits)
  from handle_start_lifecycle [OF assms, of ops e2] False show ?thesis
    unfolding eq using restart_starts by blast
qed

text \<open>The service a command is addressed to.\<close>

fun command_target :: "SupervisorCommand \<Rightarrow> ServiceId option" where
  "command_target (Start i) = Some i"
| "command_target (Stop i) = Some i"
| "command_target (Restart i) = Some i"
| "command_target Status = None"

lemma supervisor_step_lifecycle:
  assumes "tables_agree sv" and "statuses sv j = Some st" and "command_target cmd = Some j"
  shows "\<exists>r st'. fst (supervisor_step ops env cmd sv) = Done r \<and>
    statuses (snd (supervisor_step ops env cmd sv)) j = Some st' \<and> lifecycle_step cmd st r st'"
  using assms(3) handle_start_lifecycle [OF assms(1,2), of ops "snd env"] handle_stop_lifecycle [OF assms(1,2), of ops "fst env"]
    handle_restart_lifecycle [OF assms(1,2), of ops "fst env" "snd env"]
  by (cases env; cases cmd) auto

lemma supervisor_step_unregistered:
  assumes "tables_agree sv" and "statuses sv j = None" and "command_target cmd = Some j"
  shows "\<exists>msg. supervisor_step ops env cmd sv = (Done (Err msg), sv)"
proof -
  have "services sv j = None" using assms(1,2) by (auto simp: tables_agree_def)
  with assms(2,3) show ?thesis
    by (cases env; cases cmd) (auto simp: handle_start_def handle_stop_def handle_restart_def)
qed

lemma supervisor_step_Start:
  assumes "tables_agree sv" and "statuses sv j = Some st" and "startable st" and "services sv j = Some svc"
  shows "services (snd (supervisor_step ops env (Start j) sv)) j = Some (snd (ms_start ops (snd env) svc)) \<and>
    statuses (snd (supervisor_step ops env (Start j) sv)) j =
      Some (case fst (ms_start ops (snd env) svc) of Ok pid \<Rightarrow> Running pid | Err err \<Rightarrow> Failed err)"
  using assms(2-4) by (cases env) (auto simp: handle_start_eq [OF assms(1)] startable_def split_beta)

lemma supervisor_step_Stop:
  assumes "statuses sv j = Some st" and "stoppable st" and "services sv j = Some svc"
  shows "services (snd (supervisor_step ops env (Stop j) sv)) j = Some (snd (ms_stop ops (fst env) svc)) \<and>
    statuses (snd (supervisor_step ops env (Stop j) sv)) j = Some (if is_ok (fst (ms_stop ops (fst env) svc)) then Stopped else st)"
  using assms by (cases env) (auto simp: handle_stop_eq stoppable_def split_beta)

lemma supervisor_step_Status: "supervisor_step ops env Status sv = (Statuses (statuses sv), sv)"
  by (cases env) simp

text \<open>The state before a command of a run, the reply to it and the state after it.\<close>

lemma supervisor_loop_nth:
  assumes "k < length cmds"
  shows "fst (supervisor_loop ops cmds sv) ! k =
      fst (supervisor_step ops (fst (cmds ! k)) (snd (cmds ! k)) (snd (supervisor_loop ops (take k cmds) sv)))"
    and "snd (supervisor_loop ops (take (Suc k) cmds) sv) =
      snd (supervisor_step ops (fst (cmds ! k)) (snd (cmds ! k)) (snd (supervisor_loop ops (take k cmds) sv)))"
proof -
  show "fst (supervisor_loop ops cmds sv) ! k =
      fst (supervisor_step ops (fst (cmds ! k)) (snd (cmds ! k)) (snd (supervisor_loop ops (take k cmds) sv)))"
    using assms
  proof (induction cmds arbitrary: k sv)
    case (Cons c cmds)
    then show ?case by (cases c; cases k) (auto split: prod.splits simp: split_beta)
  qed simp
  show "snd (supervisor_loop ops (take (Suc k) cmds) sv) =
      snd (supervisor_step ops (fst (cmds ! k)) (snd (cmds ! k)) (snd (supervisor_loop ops (take k cmds) sv)))"
    using assms by (simp add: supervisor_loop_snd take_Suc_conv_app_nth split_beta)
qed

lemma handlers_frame:
  "j \<noteq> i \<Longrightarrow> services (snd (handle_start ops e i sv)) j = services sv j"
  "j \<noteq> i \<Longrightarrow> statuses (snd (handle_start ops e i sv)) j = statuses sv j"
  "j \<noteq> i \<Longrightarrow> services (snd (handle_stop ops e i sv)) j = services sv j"
  "j \<noteq> i \<Longrightarrow> statuses (snd (handle_stop ops e i sv)) j = statuses sv j"
  by (auto simp: handle_start_def handle_stop_def Let_def split: option.splits prod.splits sum.splits)

lemma handle_restart_frame:
  assumes "j \<noteq> i"
  shows "services (snd (handle_restart ops e1 e2 i sv)) j = services sv j"
    and "statuses (snd (handle_restart ops e1 e2 i sv)) j = statuses sv j"
  by (simp_all add: handle_restart_def handlers_frame [OF assms] split: option.splits ServiceStatus.splits)

lemma supervisor_step_frame:
  "command_target cmd \<noteq> Some j \<Longrightarrow> services (snd (supervisor_step ops env cmd sv)) j = services sv j"
  "command_target cmd \<noteq> Some j \<Longrightarrow> statuses (snd (supervisor_step ops env cmd sv)) j = statuses sv j"
  by (cases env; cases cmd; simp add: handlers_frame handle_restart_frame)+

section \<open>Properties\<close>

text \<open>Claim C6. Whatever commands the supervisor is sent, it answers each of them, and every single answer is a
  step of the lifecycle: the command, the status before it, the reply and the status after it are
  related as the lifecycle demands for the service it is addressed to. A permitted start or stop calls
  the service's own method once, keeps the service as it leaves it, and shows its outcome: running with
  the process id or failed with the error, stopped or as before. Nothing of any other service changes, a command for an unregistered service is an error that changes nothing, and a status
  request is answered with the table. No service is ever left in the state \<^verbatim>\<open>Starting\<close>.\<close>

theorem supervisor_refines_lifecycle:
  assumes "tables_agree sv" and "supervisor_loop ops cmds sv = (replies, sv')" and "k < length cmds"
    and "cmd = snd (cmds ! k)" and "before = snd (supervisor_loop ops (take k cmds) sv)"
    and "after = snd (supervisor_loop ops (take (Suc k) cmds) sv)"
  shows "length replies = length cmds \<and> Starting \<notin> ran (statuses after) \<and>
    (\<forall>j st. statuses before j = Some st \<and> command_target cmd = Some j \<longrightarrow>
       (\<exists>r st'. replies ! k = Done r \<and> statuses after j = Some st' \<and> lifecycle_step cmd st r st')) \<and>
    (\<forall>j. command_target cmd \<noteq> Some j \<longrightarrow> statuses after j = statuses before j \<and> services after j = services before j) \<and>
    (\<forall>j. statuses before j = None \<and> command_target cmd = Some j \<longrightarrow> (\<exists>msg. replies ! k = Done (Err msg)) \<and> after = before) \<and>
    (cmd = Status \<longrightarrow> replies ! k = Statuses (statuses before)) \<and>
    (\<forall>j st svc. cmd = Start j \<and> statuses before j = Some st \<and> startable st \<and> services before j = Some svc \<longrightarrow>
       services after j = Some (snd (ms_start ops (snd (fst (cmds ! k))) svc)) \<and>
       statuses after j = Some (case fst (ms_start ops (snd (fst (cmds ! k))) svc) of Ok pid \<Rightarrow> Running pid | Err err \<Rightarrow> Failed err)) \<and>
    (\<forall>j st svc. cmd = Stop j \<and> statuses before j = Some st \<and> stoppable st \<and> services before j = Some svc \<longrightarrow>
       services after j = Some (snd (ms_stop ops (fst (fst (cmds ! k))) svc)) \<and>
       statuses after j = Some (if is_ok (fst (ms_stop ops (fst (fst (cmds ! k))) svc)) then Stopped else st))"
proof -
  have "length replies = length cmds" using supervisor_loop_length [of ops cmds sv] assms(2) by simp
  have ta: "tables_agree before" "tables_agree after"
    unfolding assms(5,6) using assms(1) by (auto intro: supervisor_loop_invariant tables_agree_step)
  let ?step = "supervisor_step ops (fst (cmds ! k)) cmd before"
  have r: "replies ! k = fst ?step" using supervisor_loop_nth(1) [OF assms(3), of ops sv] assms(2,4,5) by simp
  have a: "after = snd ?step" using supervisor_loop_nth(2) [OF assms(3), of ops sv] assms(4-6) by simp
  have "Starting \<notin> ran (statuses after)" using ta(2) by (simp add: tables_agree_def)
  moreover have "\<exists>r st'. replies ! k = Done r \<and> statuses after j = Some st' \<and> lifecycle_step cmd st r st'"
    if "statuses before j = Some st" "command_target cmd = Some j" for j st
    unfolding r a by (rule supervisor_step_lifecycle [OF ta(1) that])
  moreover have "(\<exists>msg. replies ! k = Done (Err msg)) \<and> after = before"
    if "statuses before j = None" "command_target cmd = Some j" for j
    unfolding r a using supervisor_step_unregistered [OF ta(1) that, of ops "fst (cmds ! k)"] by auto
  moreover have "cmd = Status \<Longrightarrow> replies ! k = Statuses (statuses before)"
    unfolding r by (simp add: supervisor_step_Status)
  moreover have "services after j = Some (snd (ms_start ops (snd (fst (cmds ! k))) svc)) \<and>
      statuses after j = Some (case fst (ms_start ops (snd (fst (cmds ! k))) svc) of Ok pid \<Rightarrow> Running pid | Err err \<Rightarrow> Failed err)"
    if "cmd = Start j" "statuses before j = Some st" "startable st" "services before j = Some svc" for j st svc
    unfolding a using supervisor_step_Start [OF ta(1) that(2-4), of ops "fst (cmds ! k)"] that(1) by simp
  moreover have "services after j = Some (snd (ms_stop ops (fst (fst (cmds ! k))) svc)) \<and>
      statuses after j = Some (if is_ok (fst (ms_stop ops (fst (fst (cmds ! k))) svc)) then Stopped else st)"
    if "cmd = Stop j" "statuses before j = Some st" "stoppable st" "services before j = Some svc" for j st svc
    unfolding a using supervisor_step_Stop [OF that(2-4), of ops "fst (cmds ! k)"] that(1) by simp
  ultimately show ?thesis
    using \<open>length replies = length cmds\<close> supervisor_step_frame [of cmd _ ops "fst (cmds ! k)" before] unfolding a by blast
qed

text \<open>A service that always starts, for the witnesses.\<close>

definition demo_ops :: "(unit, bool) managed_service" where
  "demo_ops = \<lparr>ms_start = (\<lambda>_ _. (Ok 7, True)), ms_stop = (\<lambda>_ _. (Ok (), False)), ms_is_running = (\<lambda>_ s. (s, s))\<rparr>"

theorem supervisor_refines_lifecycle_witness:
  "let sv = register Mosquitto False False (register Gateway False True supervisor_new);
       (replies, sv') = supervisor_loop demo_ops [(((), ()), Start Gateway), (((), ()), Restart Gateway)] sv
   in length replies = 2 \<and> (\<exists>r st'. replies ! 0 = Done r \<and> lifecycle_step (Start Gateway) Stopped r st')"
proof -
  let ?sv = "register Mosquitto False False (register Gateway False True supervisor_new) :: bool supervisor"
  let ?cmds = "[(((), ()), Start Gateway), (((), ()), Restart Gateway)]"
  have ta: "tables_agree ?sv" by (simp add: tables_agree_register tables_agree_new)
  have g: "statuses ?sv Gateway = Some Stopped" by (simp add: register_def supervisor_new_def Let_def)
  obtain replies sv' where run: "supervisor_loop demo_ops ?cmds ?sv = (replies, sv')" by fastforce
  have "length replies = length ?cmds \<and>
      (\<exists>r st'. replies ! 0 = Done r \<and> lifecycle_step (Start Gateway) Stopped r st')"
    using supervisor_refines_lifecycle [OF ta run, of 0 "Start Gateway" ?sv] g by auto
  then show ?thesis unfolding Let_def run by simp
qed

text \<open>Claim C32. A service registered as unavailable is never touched: whatever commands arrive, its status
  stays \<^verbatim>\<open>Unavailable\<close>, none of its methods is called, and a request to start, stop or restart it is
  answered with an error.\<close>

theorem unavailable_untouched:
  assumes "statuses sv i = Some Unavailable"
  shows "statuses (snd (supervisor_loop ops cmds sv)) i = Some Unavailable \<and>
    services (snd (supervisor_loop ops cmds sv)) i = services sv i \<and>
    (command_target cmd = Some i \<longrightarrow> (\<exists>msg. supervisor_step ops env cmd sv = (Done (Err msg), sv)))"
proof -
  have step: "\<exists>msg. supervisor_step ops env cmd s = (Done (Err msg), s)"
    if "statuses s i = Some Unavailable" "command_target cmd = Some i" for s env cmd
    using that by (cases env; cases cmd) (auto simp: handle_start_def handle_stop_def handle_restart_def)
  have "statuses (snd (supervisor_loop ops cmds sv)) i = Some Unavailable \<and>
      services (snd (supervisor_loop ops cmds sv)) i = services sv i"
  proof (rule supervisor_loop_invariant [where P = "\<lambda>s. statuses s i = Some Unavailable \<and> services s i = services sv i"])
    show "statuses (snd (supervisor_step ops env cmd s)) i = Some Unavailable \<and>
        services (snd (supervisor_step ops env cmd s)) i = services sv i"
      if "statuses s i = Some Unavailable \<and> services s i = services sv i" for env cmd s
      using that step [of s cmd env] supervisor_step_frame [of cmd i ops env s]
      by (cases "command_target cmd = Some i") auto
  qed (simp add: assms)
  with step [OF assms] show ?thesis by blast
qed

theorem unavailable_untouched_witness:
  "let sv = register Mosquitto False False supervisor_new
   in statuses (snd (supervisor_loop demo_ops [(((), ()), Start Mosquitto), (((), ()), Restart Mosquitto)] sv)) Mosquitto
        = Some Unavailable"
proof -
  have "statuses (register Mosquitto False False supervisor_new :: bool supervisor) Mosquitto = Some Unavailable"
    by (simp add: register_def Let_def)
  from unavailable_untouched [OF this, of demo_ops] show ?thesis unfolding Let_def by blast
qed

end
