(* ===== verification/Managed_Services.thy ===== *)
theory Managed_Services
  imports Supervisor Mqtt_Client
begin

text \<open>
  The five services the supervisor manages, with the \<^verbatim>\<open>start\<close>, \<^verbatim>\<open>stop\<close> and \<^verbatim>\<open>is_running\<close> of each:
  \<^verbatim>\<open>GatewayService\<close> (\<^verbatim>\<open>beacon_management/gateway_service.rs\<close>), \<^verbatim>\<open>MosquittoBrokerageService\<close>
  (\<^verbatim>\<open>mqtt_brokerage/mosquitto_brokerage_service.rs\<close>), \<^verbatim>\<open>MqttClientService\<close>
  (\<^verbatim>\<open>mqtt_client/mqtt_client_service.rs\<close>), \<^verbatim>\<open>CloudGatewayService\<close>
  (\<^verbatim>\<open>cloud_gateway/cloud_gateway_service.rs\<close>) and \<^verbatim>\<open>GatewayMqttService\<close>
  (\<^verbatim>\<open>gateway_mqtt/gateway_mqtt_service.rs\<close>). A held sender or receiver is a flag. What the operating
  system, the network and the TLS library answer is the environment of the call; an exit of the broker
  process is an event that may come between any two commands. The supervisor's
  contract \<open>managed_lifecycle\<close> is interpreted on the sum of the five, and the contract
  \<open>single_use\<close>, which extends it, on those that give away their receiver when they start.
\<close>

section \<open>The environment of a call\<close>

datatype wait_outcome = ChildExited | WaitFailed | WaitTimedOut

record service_env =
  se_bind :: "unit result"
  se_local_addr :: "unit result"
  se_tls_config :: "unit result"
  se_tls_lib :: tls_lib
  se_read :: "path \<Rightarrow> string result"
  se_config_exists :: bool
  se_spawn :: "u32 option result"
  se_wait :: wait_outcome
  se_try_wait :: "bool result"

section \<open>The gateway service\<close>

text \<open>\<open>gs_serving\<close> tells whether an accept loop has been spawned that was not told to shut down.\<close>

record gateway_service =
  gs_config :: HttpConfig
  gs_shutdown_tx :: bool
  gs_serving :: bool

definition gateway_service_new :: "HttpConfig \<Rightarrow> gateway_service" where
  "gateway_service_new cfg = \<lparr>gs_config = cfg, gs_shutdown_tx = False, gs_serving = False\<rparr>"

definition gateway_initialize :: "service_env \<Rightarrow> gateway_service \<Rightarrow> unit result" where
  "gateway_initialize e s =
     (let addr = ht_host (gs_config s) @ '':'' @ show_u16 (ht_port (gs_config s))
      in (case se_bind e of
            Err err \<Rightarrow> Err (''Failed to bind listener on '' @ addr @ '': '' @ err)
          | Ok _ \<Rightarrow> (case se_local_addr e of
                       Err err \<Rightarrow> Err (''Failed to get local address: '' @ err)
                     | Ok _ \<Rightarrow> Ok ())))"

definition gateway_start :: "service_env \<Rightarrow> gateway_service \<Rightarrow> u32 result \<times> gateway_service" where
  "gateway_start e s =
     (if gs_shutdown_tx s then (Err ''GatewayService is already running'', s)
      else (case gateway_initialize e s of
              Err err \<Rightarrow> (Err err, s)
            | Ok _ \<Rightarrow>
                let s1 = s\<lparr>gs_shutdown_tx := True\<rparr>
                in if ht_tls_enabled (gs_config s)
                   then (case se_tls_config e of
                           Err err \<Rightarrow> (Err err, s1)
                         | Ok _ \<Rightarrow> (Ok 0, s1\<lparr>gs_serving := True\<rparr>))
                   else (Ok 0, s1\<lparr>gs_serving := True\<rparr>)))"

definition gateway_stop :: "service_env \<Rightarrow> gateway_service \<Rightarrow> unit result \<times> gateway_service" where
  "gateway_stop e s =
     (if gs_shutdown_tx s then (Ok (), s\<lparr>gs_shutdown_tx := False, gs_serving := False\<rparr>)
      else (Err ''GatewayService is not running'', s))"

definition gateway_is_running :: "service_env \<Rightarrow> gateway_service \<Rightarrow> bool \<times> gateway_service" where
  "gateway_is_running e s = (gs_shutdown_tx s, s)"

section \<open>The Mosquitto broker process\<close>

datatype signal = SIGTERM u32 | SIGKILL u32

text \<open>
  \<open>mq_child\<close> is the process handle the service holds, \<open>mq_alive\<close> tells whether the broker process behind it
  exists. The two differ: the process can exit by itself (\<open>broker_exit\<close> below) while the handle is
  kept until somebody polls it. The handle is created with \<^verbatim>\<open>kill_on_drop\<close>, so a child whose
  handle is dropped (no process id after the spawn, a failed wait in \<^verbatim>\<open>stop\<close>) is killed.
\<close>

record mosquitto_service =
  mq_binary_path :: string
  mq_password_binary :: "string option"
  mq_config_file :: path
  mq_child :: "u32 option"
  mq_alive :: bool
  mq_signals :: "signal list"

definition mosquitto_new :: "string \<Rightarrow> string option \<Rightarrow> path \<Rightarrow> mosquitto_service" where
  "mosquitto_new bin passwd cfgfile = \<lparr>mq_binary_path = bin, mq_password_binary = passwd,
     mq_config_file = cfgfile, mq_child = None, mq_alive = False, mq_signals = []\<rparr>"

definition mosquitto_start :: "service_env \<Rightarrow> mosquitto_service \<Rightarrow> u32 result \<times> mosquitto_service" where
  "mosquitto_start e s =
     (if mq_child s \<noteq> None then (Err ''Mosquitto is already running'', s)
      else if \<not> se_config_exists e
      then (Err (''Config file not found at '' @ mq_config_file s @ ''. Call write_config() first.''), s)
      else (case se_spawn e of
              Err err \<Rightarrow> (Err (''Failed to spawn mosquitto: '' @ err), s)
            | Ok None \<Rightarrow> (Err ''Failed to get mosquitto PID'', s)
            | Ok (Some pid) \<Rightarrow> (Ok pid, s\<lparr>mq_child := Some pid, mq_alive := True\<rparr>)))"

definition mosquitto_stop :: "service_env \<Rightarrow> mosquitto_service \<Rightarrow> unit result \<times> mosquitto_service" where
  "mosquitto_stop e s =
     (case mq_child s of
        None \<Rightarrow> (Err ''Mosquitto is not running'', s)
      | Some pid \<Rightarrow>
          (Ok (), s\<lparr>mq_child := None, mq_alive := False,
                    mq_signals := mq_signals s @ [SIGTERM pid] @
                      (if se_wait e = ChildExited then [] else [SIGKILL pid])\<rparr>))"

text \<open>\<open>se_try_wait\<close> is \<^verbatim>\<open>Ok True\<close> when the child has exited.\<close>

definition mosquitto_is_running :: "service_env \<Rightarrow> mosquitto_service \<Rightarrow> bool \<times> mosquitto_service" where
  "mosquitto_is_running e s =
     (case mq_child s of
        None \<Rightarrow> (False, s)
      | Some pid \<Rightarrow>
          (case se_try_wait e of
             Ok True \<Rightarrow> (False, s\<lparr>mq_child := None, mq_alive := False\<rparr>)
           | Ok False \<Rightarrow> (True, s)
           | Err _ \<Rightarrow> (False, s)))"

section \<open>The MQTT client service\<close>

record mqtt_client_service =
  cs_config :: MqttClientConfig
  cs_cmd_rx :: bool
  cs_shutdown_tx :: bool
  cs_cmd_shutdown_tx :: bool
  cs_out_rx :: bool
  cs_connected_tx :: bool

definition mqtt_client_new :: "MqttClientConfig \<Rightarrow> mqtt_client_service" where
  "mqtt_client_new cfg = \<lparr>cs_config = cfg, cs_cmd_rx = True, cs_shutdown_tx = False,
     cs_cmd_shutdown_tx = False, cs_out_rx = True, cs_connected_tx = True\<rparr>"

definition take_channels :: "mqtt_client_service \<Rightarrow> unit result \<times> mqtt_client_service" where
  "take_channels s =
     (if \<not> cs_cmd_rx s then (Err ''MqttClientService command receiver already consumed'', s)
      else let s1 = s\<lparr>cs_cmd_rx := False\<rparr>
      in if \<not> cs_out_rx s1 then (Err ''MqttClientService outbound receiver already consumed'', s1)
      else let s2 = s1\<lparr>cs_out_rx := False\<rparr>
      in if \<not> cs_connected_tx s2 then (Err ''MqttClientService connected sender already consumed'', s2)
      else (Ok (), s2\<lparr>cs_connected_tx := False\<rparr>))"

definition mqtt_client_start :: "service_env \<Rightarrow> mqtt_client_service \<Rightarrow> u32 result \<times> mqtt_client_service" where
  "mqtt_client_start e s =
     (if cs_shutdown_tx s then (Err ''MqttClientService is already running'', s)
      else (case take_channels s of
              (Err err, s1) \<Rightarrow> (Err err, s1)
            | (Ok _, s1) \<Rightarrow>
                (case build_mqtt_opts (se_tls_lib e) (se_read e) (cs_config s1) of
                   Err err \<Rightarrow> (Err err, s1)
                 | Ok opts \<Rightarrow> (Ok 0, s1\<lparr>cs_shutdown_tx := True, cs_cmd_shutdown_tx := True\<rparr>))))"

definition mqtt_client_stop :: "service_env \<Rightarrow> mqtt_client_service \<Rightarrow> unit result \<times> mqtt_client_service" where
  "mqtt_client_stop e s =
     (if cs_shutdown_tx s then (Ok (), s\<lparr>cs_shutdown_tx := False, cs_cmd_shutdown_tx := False\<rparr>)
      else (Err ''MqttClientService is not running'', s))"

definition mqtt_client_is_running :: "service_env \<Rightarrow> mqtt_client_service \<Rightarrow> bool \<times> mqtt_client_service" where
  "mqtt_client_is_running e s = (cs_shutdown_tx s, s)"

section \<open>The two cloud gateway clients\<close>

record cloud_gateway_service =
  cg_server_url :: string
  cg_gateway_url :: string
  cg_outbound_rx :: bool
  cg_shutdown_tx :: bool

definition cloud_gateway_new :: "string \<Rightarrow> string \<Rightarrow> cloud_gateway_service" where
  "cloud_gateway_new server_url gw_url =
     \<lparr>cg_server_url = server_url, cg_gateway_url = gw_url, cg_outbound_rx = True, cg_shutdown_tx = False\<rparr>"

definition cloud_gateway_start :: "service_env \<Rightarrow> cloud_gateway_service \<Rightarrow> u32 result \<times> cloud_gateway_service" where
  "cloud_gateway_start e s =
     (if \<not> cg_outbound_rx s then (Err ''CloudGatewayService already started'', s)
      else (Ok 0, s\<lparr>cg_outbound_rx := False, cg_shutdown_tx := True\<rparr>))"

definition cloud_gateway_stop :: "service_env \<Rightarrow> cloud_gateway_service \<Rightarrow> unit result \<times> cloud_gateway_service" where
  "cloud_gateway_stop e s = (Ok (), s\<lparr>cg_shutdown_tx := False\<rparr>)"

definition cloud_gateway_is_running :: "service_env \<Rightarrow> cloud_gateway_service \<Rightarrow> bool \<times> cloud_gateway_service" where
  "cloud_gateway_is_running e s = (cg_shutdown_tx s, s)"

record GatewayMqttConfig =
  gm_gateway_url :: string
  gm_username :: string
  gm_password :: string
  gm_broker_cafile :: "path option"
  gm_broker_tls :: bool

record gateway_mqtt_service =
  gq_config :: GatewayMqttConfig
  gq_outbound_rx :: bool
  gq_shutdown_tx :: bool

definition gateway_mqtt_new :: "GatewayMqttConfig \<Rightarrow> gateway_mqtt_service" where
  "gateway_mqtt_new cfg = \<lparr>gq_config = cfg, gq_outbound_rx = True, gq_shutdown_tx = False\<rparr>"

definition gateway_mqtt_start :: "service_env \<Rightarrow> gateway_mqtt_service \<Rightarrow> u32 result \<times> gateway_mqtt_service" where
  "gateway_mqtt_start e s =
     (if \<not> gq_outbound_rx s then (Err ''GatewayMqttService already started'', s)
      else (Ok 0, s\<lparr>gq_outbound_rx := False, gq_shutdown_tx := True\<rparr>))"

definition gateway_mqtt_stop :: "service_env \<Rightarrow> gateway_mqtt_service \<Rightarrow> unit result \<times> gateway_mqtt_service" where
  "gateway_mqtt_stop e s = (Ok (), s\<lparr>gq_shutdown_tx := False\<rparr>)"

definition gateway_mqtt_is_running :: "service_env \<Rightarrow> gateway_mqtt_service \<Rightarrow> bool \<times> gateway_mqtt_service" where
  "gateway_mqtt_is_running e s = (gq_shutdown_tx s, s)"

section \<open>Any of the five\<close>

datatype service =
    GatewaySvc gateway_service
  | MosquittoSvc mosquitto_service
  | MqttClientSvc mqtt_client_service
  | CloudGatewaySvc cloud_gateway_service
  | GatewayMqttSvc gateway_mqtt_service

fun service_start :: "service_env \<Rightarrow> service \<Rightarrow> u32 result \<times> service" where
  "service_start e (GatewaySvc s) = apsnd GatewaySvc (gateway_start e s)"
| "service_start e (MosquittoSvc s) = apsnd MosquittoSvc (mosquitto_start e s)"
| "service_start e (MqttClientSvc s) = apsnd MqttClientSvc (mqtt_client_start e s)"
| "service_start e (CloudGatewaySvc s) = apsnd CloudGatewaySvc (cloud_gateway_start e s)"
| "service_start e (GatewayMqttSvc s) = apsnd GatewayMqttSvc (gateway_mqtt_start e s)"

fun service_stop :: "service_env \<Rightarrow> service \<Rightarrow> unit result \<times> service" where
  "service_stop e (GatewaySvc s) = apsnd GatewaySvc (gateway_stop e s)"
| "service_stop e (MosquittoSvc s) = apsnd MosquittoSvc (mosquitto_stop e s)"
| "service_stop e (MqttClientSvc s) = apsnd MqttClientSvc (mqtt_client_stop e s)"
| "service_stop e (CloudGatewaySvc s) = apsnd CloudGatewaySvc (cloud_gateway_stop e s)"
| "service_stop e (GatewayMqttSvc s) = apsnd GatewayMqttSvc (gateway_mqtt_stop e s)"

fun service_is_running :: "service_env \<Rightarrow> service \<Rightarrow> bool \<times> service" where
  "service_is_running e (GatewaySvc s) = apsnd GatewaySvc (gateway_is_running e s)"
| "service_is_running e (MosquittoSvc s) = apsnd MosquittoSvc (mosquitto_is_running e s)"
| "service_is_running e (MqttClientSvc s) = apsnd MqttClientSvc (mqtt_client_is_running e s)"
| "service_is_running e (CloudGatewaySvc s) = apsnd CloudGatewaySvc (cloud_gateway_is_running e s)"
| "service_is_running e (GatewayMqttSvc s) = apsnd GatewayMqttSvc (gateway_mqtt_is_running e s)"

definition service_ops :: "(service_env, service) managed_service" where
  "service_ops = \<lparr>ms_start = service_start, ms_stop = service_stop, ms_is_running = service_is_running\<rparr>"

text \<open>
  A service is active while it holds what its \<^verbatim>\<open>stop\<close> releases: the shutdown sender of its tasks, or the
  handle of the broker process. It is alive while the task or the process itself exists. A task ends
  when it is told to; the broker process can exit by itself at any time, which \<open>broker_exit\<close> does.
\<close>

fun service_active :: "service \<Rightarrow> bool" where
  "service_active (GatewaySvc s) = (gs_shutdown_tx s \<and> gs_serving s)"
| "service_active (MosquittoSvc s) = (mq_child s \<noteq> None)"
| "service_active (MqttClientSvc s) = cs_shutdown_tx s"
| "service_active (CloudGatewaySvc s) = cg_shutdown_tx s"
| "service_active (GatewayMqttSvc s) = gq_shutdown_tx s"

fun service_alive :: "service \<Rightarrow> bool" where
  "service_alive (GatewaySvc s) = gs_serving s"
| "service_alive (MosquittoSvc s) = mq_alive s"
| "service_alive (MqttClientSvc s) = cs_shutdown_tx s"
| "service_alive (CloudGatewaySvc s) = cg_shutdown_tx s"
| "service_alive (GatewayMqttSvc s) = gq_shutdown_tx s"

fun broker_exit :: "service \<Rightarrow> service" where
  "broker_exit (MosquittoSvc s) = MosquittoSvc (s\<lparr>mq_alive := False\<rparr>)"
| "broker_exit svc = svc"

text \<open>What a supervisor lives through: the commands it is sent, and exits of the broker process.\<close>

datatype sup_event = Command "service_env \<times> service_env" SupervisorCommand | BrokerExit ServiceId

fun supervisor_event :: "sup_event \<Rightarrow> service supervisor \<Rightarrow> service supervisor" where
  "supervisor_event (Command env cmd) sv = snd (supervisor_step service_ops env cmd sv)"
| "supervisor_event (BrokerExit i) sv =
     sv\<lparr>services := (services sv)(i := map_option broker_exit (services sv i))\<rparr>"

definition supervisor_run :: "sup_event list \<Rightarrow> service supervisor \<Rightarrow> service supervisor" where
  "supervisor_run evs sv = fold supervisor_event evs sv"

lemmas start_defs = gateway_start_def mosquitto_start_def mqtt_client_start_def cloud_gateway_start_def
  gateway_mqtt_start_def take_channels_def Let_def

lemmas stop_defs = gateway_stop_def mosquitto_stop_def mqtt_client_stop_def cloud_gateway_stop_def
  gateway_mqtt_stop_def

lemma service_ops_simps [simp]:
  "ms_start service_ops = service_start" "ms_stop service_ops = service_stop"
  by (simp_all add: service_ops_def)

interpretation svc: managed_lifecycle service_ops service_active
proof
  show "ms_start service_ops e s = (Ok pid, s') \<Longrightarrow> service_active s'" for e s pid s'
    by (cases s) (auto simp: start_defs apsnd_def map_prod_def split: if_splits sum.splits option.splits prod.splits)
  show "ms_stop service_ops e s = (Ok u, s') \<Longrightarrow> \<not> service_active s'" for e s u s'
    by (cases s) (auto simp: stop_defs split: if_splits option.splits)
  show "service_active s \<Longrightarrow> \<exists>s'. ms_stop service_ops e s = (Ok (), s')" for e s
    by (cases s) (auto simp: stop_defs)
qed

lemma service_stop_inactive: "\<not> service_active (snd (service_stop e s))"
  by (cases s) (auto simp: stop_defs split: option.splits)

section \<open>Services that can be started once\<close>

text \<open>
  A service of which a start takes something that is never put back: once spent, every start fails
  and leaves it spent, and so does a stop.
\<close>

definition is_down :: "('s \<Rightarrow> bool) \<Rightarrow> ServiceId \<Rightarrow> 's supervisor \<Rightarrow> bool" where
  "is_down spent i sv \<longleftrightarrow>
     (\<exists>svc. services sv i = Some svc \<and> spent svc) \<and> (\<forall>pid. statuses sv i \<noteq> Some (Running pid))"

definition running_spent :: "('s \<Rightarrow> bool) \<Rightarrow> ('s \<Rightarrow> bool) \<Rightarrow> 's supervisor \<Rightarrow> bool" where
  "running_spent once spent sv \<longleftrightarrow>
     (\<forall>i pid svc. statuses sv i = Some (Running pid) \<longrightarrow> services sv i = Some svc \<longrightarrow> once svc \<longrightarrow> spent svc)"

locale single_use = managed_lifecycle +
  fixes once :: "'b \<Rightarrow> bool" and spent :: "'b \<Rightarrow> bool"
  assumes start_spends: "ms_start ops e s = (Ok pid, s') \<Longrightarrow> once s' \<Longrightarrow> spent s'"
    and spent_start: "spent s \<Longrightarrow> \<exists>err s'. ms_start ops e s = (Err err, s') \<and> spent s'"
    and spent_stop: "spent s \<Longrightarrow> spent (snd (ms_stop ops e s))"
begin

lemma down_start:
  "is_down spent i sv \<Longrightarrow>
   is_down spent i (snd (handle_start ops e i sv)) \<and> \<not> is_ok (fst (handle_start ops e i sv))"
  using spent_start [of _ e] unfolding is_down_def
  by (fastforce simp: handle_start_def Let_def split: option.splits)

lemma stop_spent:
  assumes "services sv i = Some svc" and "spent svc"
  shows "\<exists>svc'. services (snd (handle_stop ops e i sv)) i = Some svc' \<and> spent svc'"
  using assms spent_stop [OF assms(2), of e] by (auto simp: handle_stop_eq split: option.splits prod.splits)

lemma down_stop: "is_down spent i sv \<Longrightarrow> is_down spent i (snd (handle_stop ops e i sv))"
  using stop_spent [of sv i _ e] handle_stop_statuses [of ops e i sv] unfolding is_down_def by auto

lemma down_step: "is_down spent i sv \<Longrightarrow> is_down spent i (snd (supervisor_step ops env cmd sv))"
proof (cases "command_target cmd = Some i")
  case False
  then show "is_down spent i sv \<Longrightarrow> ?thesis" unfolding is_down_def by (simp add: supervisor_step_frame)
next
  case True
  assume d: "is_down spent i sv"
  have "handle_restart ops e1 e2 i sv = handle_start ops e2 i sv" for e1 e2
    using d by (auto simp: is_down_def handle_restart_def split: option.splits ServiceStatus.splits)
  with True d show ?thesis by (cases env; cases cmd) (auto simp: down_start down_stop)
qed

lemma down_loop: "is_down spent i sv \<Longrightarrow> is_down spent i (snd (supervisor_loop ops cmds sv))"
  by (rule supervisor_loop_invariant [where P = "is_down spent i"]) (rule down_step)

lemma stop_goes_down:
  assumes "supervisor_inv active sv" and "statuses sv i = Some (Running pid)"
    and "services sv i = Some svc" and "spent svc"
  shows "is_down spent i (snd (handle_stop ops e i sv))"
  using stop_running(2) [OF assms(1,2), of e] stop_spent [OF assms(3,4), of e] by (simp add: is_down_def)

lemma restart_fails:
  assumes "supervisor_inv active sv" and "statuses sv i = Some (Running pid)"
    and "services sv i = Some svc" and "spent svc"
  shows "\<not> is_ok (fst (handle_restart ops e1 e2 i sv)) \<and> is_down spent i (snd (handle_restart ops e1 e2 i sv))"
  using down_start [OF stop_goes_down [OF assms, of e1], of e2] assms(2) by (simp add: handle_restart_def)

lemma running_spent_start:
  "running_spent once spent sv \<Longrightarrow> running_spent once spent (snd (handle_start ops e i sv))"
  using start_spends [of e] unfolding running_spent_def
  by (auto simp: handle_start_def Let_def split: option.splits prod.splits sum.splits if_splits)

lemma running_spent_stop:
  assumes "supervisor_inv active sv" and "running_spent once spent sv"
  shows "running_spent once spent (snd (handle_stop ops e i sv))"
proof -
  have "statuses (snd (handle_stop ops e i sv)) i \<noteq> Some (Running pid)" for pid
  proof (cases "\<exists>pid. statuses sv i = Some (Running pid)")
    case True
    with stop_running(2) [OF assms(1)] show ?thesis by auto
  next
    case False
    with handle_stop_statuses [of ops e i sv] show ?thesis by auto
  qed
  then show ?thesis
    using assms(2) handlers_frame(3,4) [where i = i and ops = ops and e = e and sv = sv]
    unfolding running_spent_def by metis
qed

lemma running_spent_step:
  assumes "supervisor_inv active sv" and "running_spent once spent sv"
  shows "running_spent once spent (snd (supervisor_step ops env cmd sv))"
  using assms running_spent_start running_spent_stop inv_handle_stop
  by (cases env; cases cmd) (auto simp: handle_restart_def split: option.splits ServiceStatus.splits)

lemma running_spent_loop:
  assumes "supervisor_inv active sv" and "running_spent once spent sv"
  shows "running_spent once spent (snd (supervisor_loop ops cmds sv))"
proof -
  have "supervisor_inv active (snd (supervisor_loop ops cmds sv)) \<and>
      running_spent once spent (snd (supervisor_loop ops cmds sv))"
    by (rule supervisor_loop_invariant [where P = "\<lambda>s. supervisor_inv active s \<and> running_spent once spent s"])
      (auto simp: assms inv_step running_spent_step)
  then show ?thesis ..
qed

end

fun service_once :: "service \<Rightarrow> bool" where
  "service_once (GatewaySvc s) = False"
| "service_once (MosquittoSvc s) = False"
| "service_once (MqttClientSvc s) = True"
| "service_once (CloudGatewaySvc s) = True"
| "service_once (GatewayMqttSvc s) = True"

fun service_spent :: "service \<Rightarrow> bool" where
  "service_spent (GatewaySvc s) = False"
| "service_spent (MosquittoSvc s) = False"
| "service_spent (MqttClientSvc s) = (\<not> cs_cmd_rx s)"
| "service_spent (CloudGatewaySvc s) = (\<not> cg_outbound_rx s)"
| "service_spent (GatewayMqttSvc s) = (\<not> gq_outbound_rx s)"

interpretation once: single_use service_ops service_active service_once service_spent
proof
  show "ms_start service_ops e s = (Ok pid, s') \<Longrightarrow> service_once s' \<Longrightarrow> service_spent s'" for s e pid s'
    by (cases s) (auto simp: start_defs apsnd_def map_prod_def split: if_splits sum.splits prod.splits)
  show "service_spent s \<Longrightarrow> \<exists>err s'. ms_start service_ops e s = (Err err, s') \<and> service_spent s'" for s e
    by (cases s) (auto simp: start_defs)
  show "service_spent s \<Longrightarrow> service_spent (snd (ms_stop service_ops e s))" for s e
    by (cases s) (auto simp: stop_defs)
qed

section \<open>The program's supervisor\<close>

text \<open>A supervisor with the given registrations, after the given commands.\<close>

definition registered :: "(ServiceId \<times> service \<times> bool) list \<Rightarrow> service supervisor" where
  "registered regs = fold (\<lambda>(i, s, available). register i s available) regs supervisor_new"

lemma registered_inv:
  assumes "\<forall>(i, s, b)\<in>set regs. \<not> service_active s"
  shows "supervisor_inv service_active (registered regs) \<and> running_spent service_once service_spent (registered regs)"
proof -
  let ?P = "\<lambda>sv. supervisor_inv service_active sv \<and> (\<forall>i pid. statuses sv i \<noteq> Some (Running pid))"
  have "?P (fold (\<lambda>(i, s, available). register i s available) regs sv)" if "?P sv" for sv
    using assms that
  proof (induction regs arbitrary: sv)
    case (Cons x regs)
    obtain i s b where x: "x = (i, s, b)" by (cases x)
    have "supervisor_inv service_active (register i s b sv)" using Cons.prems x svc.inv_register by auto
    moreover have "statuses (register i s b sv) j \<noteq> Some (Running pid)" for j pid
      using Cons.prems(2) by (auto simp: register_def Let_def)
    ultimately show ?case using Cons.IH [of "register i s b sv"] Cons.prems(1) x by simp
  qed simp
  moreover have "?P supervisor_new" using svc.inv_new by (simp add: supervisor_new_def)
  ultimately show ?thesis unfolding registered_def running_spent_def by blast
qed

section \<open>Commands interleaved with exits of the broker process\<close>

lemma service_start_alive: "service_start e s = (Ok pid, s') \<Longrightarrow> service_alive s'"
  by (cases s) (auto simp: start_defs apsnd_def map_prod_def split: if_splits sum.splits option.splits prod.splits)

lemma service_start_Err_quiet:
  assumes "service_start e s = (Err err, s')" and "\<not> service_active s" and "\<not> service_alive s"
  shows "\<not> service_active s' \<and> \<not> service_alive s'"
  using assms
  by (cases s) (auto simp: start_defs apsnd_def map_prod_def split: if_splits sum.splits option.splits prod.splits)

lemma service_stop_dead: "(service_alive s \<longrightarrow> service_active s) \<Longrightarrow> \<not> service_alive (snd (service_stop e s))"
  by (cases s) (auto simp: stop_defs split: option.splits)

lemma service_stop_active: "service_active s \<Longrightarrow> fst (service_stop e s) = Ok ()"
  by (cases s) (auto simp: stop_defs)

lemma broker_exit_active [simp]: "service_active (broker_exit s) = service_active s"
  by (cases s) auto

lemma broker_exit_alive: "service_alive (broker_exit s) \<Longrightarrow> service_alive s"
  by (cases s) auto

text \<open>Nothing lives without its handle, and none holds a handle behind a status other than \<^verbatim>\<open>Running\<close>.\<close>

definition quiet_unless_running :: "service supervisor \<Rightarrow> bool" where
  "quiet_unless_running sv \<longleftrightarrow>
     (\<forall>i s. services sv i = Some s \<longrightarrow> (service_alive s \<longrightarrow> service_active s) \<and>
        (service_active s \<longrightarrow> (\<exists>pid. statuses sv i = Some (Running pid))))"

definition running_alive :: "ServiceId \<Rightarrow> service supervisor \<Rightarrow> bool" where
  "running_alive i sv \<longleftrightarrow>
     (\<forall>pid. statuses sv i = Some (Running pid) \<longrightarrow> (\<exists>s. services sv i = Some s \<and> service_alive s))"

lemma quiet_handle_start:
  assumes "quiet_unless_running sv" and "supervisor_inv service_active sv"
  shows "quiet_unless_running (snd (handle_start service_ops e i sv))"
proof (cases "start_refused i (statuses sv i)")
  case None
  have ta: "tables_agree sv" using assms(2) by (simp add: supervisor_inv_def)
  from None have n: "statuses sv i \<noteq> Some (Running pid)" for pid by auto
  obtain r s' where r: "service_start e (the (services sv i)) = (r, s')" by fastforce
  obtain s where s: "services sv i = Some s"
    using None ta by (auto simp: start_refused_None tables_agree_def)
  have old: "\<not> service_active s" "\<not> service_alive s" using assms(1) n s unfolding quiet_unless_running_def by blast+
  have new: "(service_alive s' \<longrightarrow> service_active s') \<and> (service_active s' \<longrightarrow> is_ok r)"
    using r s old service_start_Err_quiet [of e s _ s'] svc.start_ok_active [of e s _ s'] by (cases r) auto
  then show ?thesis
    using assms(1) by (auto simp: handle_start_eq [OF ta] None r quiet_unless_running_def split: sum.splits)
qed (use assms(1) in \<open>simp add: handle_start_refused\<close>)

lemma quiet_handle_stop:
  assumes "quiet_unless_running sv" and "supervisor_inv service_active sv"
  shows "quiet_unless_running (snd (handle_stop service_ops e i sv))"
proof -
  have "\<not> service_active (snd (service_stop e s)) \<and> \<not> service_alive (snd (service_stop e s))"
    if "services sv i = Some s" for s
    using assms(1) that service_stop_inactive service_stop_dead unfolding quiet_unless_running_def by blast
  then show ?thesis using assms(1)
    by (auto simp: handle_stop_eq quiet_unless_running_def split_beta split: option.splits)
qed

lemma quiet_step:
  assumes "quiet_unless_running sv" and "supervisor_inv service_active sv"
  shows "quiet_unless_running (snd (supervisor_step service_ops env cmd sv))"
  using assms quiet_handle_start quiet_handle_stop svc.inv_handle_stop
  by (cases env; cases cmd) (auto simp: handle_restart_def split: option.splits ServiceStatus.splits)

lemma running_alive_handle_start:
  assumes "running_alive i sv"
  shows "running_alive i (snd (handle_start service_ops e i sv))"
  using assms service_start_alive [of e] unfolding running_alive_def
  by (auto simp: handle_start_def Let_def split: option.splits prod.splits sum.splits if_splits)

lemma running_alive_handle_stop:
  assumes "supervisor_inv service_active sv"
  shows "running_alive i (snd (handle_stop service_ops e i sv))"
proof (cases "\<exists>pid. statuses sv i = Some (Running pid)")
  case True
  with svc.stop_running(2) [OF assms] show ?thesis by (auto simp: running_alive_def)
next
  case False
  with handle_stop_statuses [of service_ops e i sv] show ?thesis by (auto simp: running_alive_def)
qed

lemma running_alive_step:
  assumes "running_alive i sv" and "supervisor_inv service_active sv"
  shows "running_alive i (snd (supervisor_step service_ops env cmd sv))"
proof (cases "command_target cmd = Some i")
  case True
  then show ?thesis using assms running_alive_handle_start running_alive_handle_stop
    by (cases env; cases cmd) (auto simp: handle_restart_def split: option.splits ServiceStatus.splits)
qed (use assms(1) in \<open>simp add: running_alive_def supervisor_step_frame\<close>)

lemma supervisor_event_inv:
  "supervisor_inv service_active sv \<Longrightarrow> supervisor_inv service_active (supervisor_event ev sv)"
proof (cases ev)
  case (BrokerExit i)
  assume inv: "supervisor_inv service_active sv"
  have "status_truthful service_active st (broker_exit s) = status_truthful service_active st s" for st s
    by (cases st) (simp_all add: status_truthful_def)
  moreover have "dom ((services sv)(i := map_option broker_exit (services sv i))) = dom (services sv)"
    by (cases "services sv i") auto
  ultimately show ?thesis using inv unfolding BrokerExit by (auto simp: supervisor_inv_def tables_agree_def)
qed (use svc.inv_step in auto)

lemma supervisor_run_inv:
  "supervisor_inv service_active sv \<Longrightarrow> supervisor_inv service_active (supervisor_run evs sv)"
  unfolding supervisor_run_def by (induction evs arbitrary: sv) (auto simp: supervisor_event_inv)

lemma quiet_event:
  assumes "quiet_unless_running sv" and "supervisor_inv service_active sv"
  shows "quiet_unless_running (supervisor_event ev sv)"
proof (cases ev)
  case (BrokerExit i)
  from assms(1) show ?thesis unfolding BrokerExit quiet_unless_running_def
    by (auto dest: broker_exit_alive)
next
  case (Command env cmd)
  with quiet_step [OF assms] show ?thesis by simp
qed

lemma quiet_run:
  assumes "quiet_unless_running sv" and "supervisor_inv service_active sv"
  shows "quiet_unless_running (supervisor_run evs sv)"
  using assms unfolding supervisor_run_def
proof (induction evs arbitrary: sv)
  case (Cons ev evs)
  then show ?case using quiet_event supervisor_event_inv by simp
qed simp

lemma running_alive_run:
  assumes "BrokerExit i \<notin> set evs" and "running_alive i sv" and "supervisor_inv service_active sv"
  shows "running_alive i (supervisor_run evs sv)"
  using assms unfolding supervisor_run_def
proof (induction evs arbitrary: sv)
  case (Cons ev evs)
  have "running_alive i (supervisor_event ev sv)"
    using Cons.prems running_alive_step by (cases ev) (auto simp: running_alive_def)
  then show ?case using Cons by (simp add: supervisor_event_inv)
qed simp

lemma registered_quiet:
  assumes "\<forall>(i, s, b)\<in>set regs. \<not> service_active s \<and> \<not> service_alive s"
  shows "quiet_unless_running (registered regs)"
proof -
  define Q where "Q sv \<longleftrightarrow> (\<forall>i s. services sv i = Some s \<longrightarrow> \<not> service_active s \<and> \<not> service_alive s)"
    for sv :: "service supervisor"
  have "Q (fold (\<lambda>(i, s, available). register i s available) regs sv)" if "Q sv" for sv
    using assms that
  proof (induction regs arbitrary: sv)
    case (Cons x regs)
    obtain i s b where x: "x = (i, s, b)" by (cases x)
    have "Q (register i s b sv)" using Cons.prems x by (simp add: Q_def register_def Let_def)
    then show ?case using Cons.IH [of "register i s b sv"] Cons.prems(1) x by simp
  qed simp
  moreover have "Q supervisor_new" by (simp add: Q_def supervisor_new_def)
  ultimately have "Q (registered regs)" unfolding registered_def by blast
  then show ?thesis by (simp add: Q_def quiet_unless_running_def)
qed

section \<open>Properties\<close>


text \<open>An environment in which everything works, and one in which the TLS configuration fails.\<close>

definition demo_senv :: "unit result \<Rightarrow> service_env" where
  "demo_senv tls = \<lparr>se_bind = Ok (), se_local_addr = Ok (), se_tls_config = tls,
     se_tls_lib = \<lparr>pem_certs = (\<lambda>t. [Ok t]), root_add = (\<lambda>_. Ok ())\<rparr>, se_read = (\<lambda>p. Ok p),
     se_config_exists = True, se_spawn = Ok (Some 42), se_wait = ChildExited, se_try_wait = Ok False\<rparr>"

definition demo_regs :: "(ServiceId \<times> service \<times> bool) list" where
  "demo_regs = [(CloudGateway, CloudGatewaySvc (cloud_gateway_new ''http://h'' ''https://g''), True),
     (Gateway, GatewaySvc (gateway_service_new (HttpConfig_from_env (\<lambda>_. None))), True)]"

lemma demo_regs_inactive: "\<forall>(i, s, b)\<in>set demo_regs. \<not> service_active s"
  by (simp add: demo_regs_def cloud_gateway_new_def gateway_service_new_def)

lemma demo_regs_fresh: "\<forall>(i, s, b)\<in>set demo_regs. \<not> service_active s \<and> \<not> service_alive s"
  by (simp add: demo_regs_def cloud_gateway_new_def gateway_service_new_def)


text \<open>Claim C21. The MQTT client and the two cloud gateway clients give away their receivers when they
  start, so they can run only once: restarting one that runs stops it and fails, and after a restart
  or a stop no sequence of commands ever brings it back.\<close>

theorem single_use_services_never_return:
  assumes "\<forall>(i, s, b)\<in>set regs. \<not> service_active s"
    and "sv = snd (supervisor_loop service_ops cmds (registered regs))"
    and "statuses sv i = Some (Running pid)" and "services sv i = Some s" and "service_once s"
  shows "\<not> is_ok (fst (handle_restart service_ops e1 e2 i sv)) \<and>
    (\<forall>later pid'. statuses (snd (supervisor_loop service_ops later (snd (handle_restart service_ops e1 e2 i sv)))) i
        \<noteq> Some (Running pid') \<and>
      statuses (snd (supervisor_loop service_ops later (snd (handle_stop service_ops e1 i sv)))) i \<noteq> Some (Running pid'))"
proof -
  from registered_inv [OF assms(1)] have inv: "supervisor_inv service_active sv"
    and sp: "running_spent service_once service_spent sv"
    unfolding assms(2) using svc.inv_loop once.running_spent_loop by blast+
  from sp assms(3-5) have "service_spent s" by (auto simp: running_spent_def)
  note r = once.restart_fails [OF inv assms(3,4) this, of e1 e2] and
    d = once.stop_goes_down [OF inv assms(3,4) this, of e1]
  show ?thesis
    using r once.down_loop [of i] d unfolding is_down_def by blast
qed

theorem single_use_services_never_return_witness:
  "let e = demo_senv (Ok ()); sv = snd (supervisor_loop service_ops [((e, e), Start CloudGateway)] (registered demo_regs))
   in statuses sv CloudGateway = Some (Running 0) \<and> \<not> is_ok (fst (handle_restart service_ops e e CloudGateway sv))"
proof -
  let ?e = "demo_senv (Ok ())"
  let ?sv = "snd (supervisor_loop service_ops [((?e, ?e), Start CloudGateway)] (registered demo_regs))"
  have r: "statuses ?sv CloudGateway = Some (Running 0)"
    and s: "services ?sv CloudGateway = Some (CloudGatewaySvc \<lparr>cg_server_url = ''http://h'',
      cg_gateway_url = ''https://g'', cg_outbound_rx = False, cg_shutdown_tx = True\<rparr>)"
    by (simp_all add: registered_def demo_regs_def register_def supervisor_new_def handle_start_def Let_def
        cloud_gateway_start_def cloud_gateway_new_def split: prod.splits)
  from single_use_services_never_return [OF demo_regs_inactive refl r s] r show ?thesis
    unfolding Let_def by simp
qed

text \<open>Claim C33. A start of the HTTPS gateway that fails after the listener was bound, because no TLS
  configuration can be built, leaves the service holding its shutdown sender: it reports itself as
  running while it serves nothing, and a second start is refused as already running even when the
  cause is gone. Stopping it first makes the next start succeed.\<close>

theorem gateway_tls_failure_sticks:
  assumes "services sv i = Some (GatewaySvc g)" and "statuses sv i = Some Stopped"
    and "\<not> gs_shutdown_tx g" and "\<not> gs_serving g" and "ht_tls_enabled (gs_config g)"
    and "gateway_initialize e g = Ok ()" and "se_tls_config e = Err err"
    and "gateway_initialize e' g = Ok ()" and "se_tls_config e' = Ok ()"
  shows "\<exists>sv1 sv2 g1. handle_start service_ops e i sv = (Err err, sv1) \<and>
    services sv1 i = Some (GatewaySvc g1) \<and> gateway_is_running e g1 = (True, g1) \<and> \<not> gs_serving g1 \<and>
    fst (handle_start service_ops e' i sv1) = Err ''GatewayService is already running'' \<and>
    handle_stop service_ops e' i sv1 = (Ok (), sv2) \<and> fst (handle_start service_ops e' i sv2) = Ok ()"
proof -
  let ?g1 = "g\<lparr>gs_shutdown_tx := True\<rparr>"
  let ?sv1 = "sv\<lparr>services := (services sv)(i \<mapsto> GatewaySvc ?g1), statuses := (statuses sv)(i \<mapsto> Failed err)\<rparr>"
  let ?sv2 = "sv\<lparr>services := (services sv)(i \<mapsto> GatewaySvc g), statuses := (statuses sv)(i \<mapsto> Stopped)\<rparr>"
  have start: "gateway_start e g = (Err err, ?g1)"
    using assms by (simp add: gateway_start_def)
  have g: "?g1\<lparr>gs_shutdown_tx := False, gs_serving := False\<rparr> = g"
    using assms(3,4) by (cases g) simp
  have "handle_start service_ops e i sv = (Err err, ?sv1)"
    using assms(1,2) start by (simp add: handle_start_def)
  moreover have "fst (handle_start service_ops e' i ?sv1) = Err ''GatewayService is already running''"
    by (simp add: handle_start_def gateway_start_def)
  moreover have "handle_stop service_ops e' i ?sv1 = (Ok (), ?sv2)"
    using g by (simp add: handle_stop_def gateway_stop_def)
  moreover have "fst (handle_start service_ops e' i ?sv2) = Ok ()"
    using assms(3,5,8,9) by (simp add: handle_start_def gateway_start_def Let_def)
  ultimately show ?thesis using assms(4) by (auto simp: gateway_is_running_def)
qed

theorem gateway_tls_failure_sticks_witness:
  "\<exists>sv1. handle_start service_ops (demo_senv (Err ''CA not initialised'')) Gateway (registered demo_regs)
      = (Err ''CA not initialised'', sv1) \<and>
    fst (handle_start service_ops (demo_senv (Ok ())) Gateway sv1) = Err ''GatewayService is already running''"
proof -
  let ?g = "gateway_service_new (HttpConfig_from_env (\<lambda>_. None))"
  have "services (registered demo_regs) Gateway = Some (GatewaySvc ?g)"
    "statuses (registered demo_regs) Gateway = Some Stopped"
    by (simp_all add: registered_def demo_regs_def register_def supervisor_new_def Let_def)
  moreover have "ht_tls_enabled (gs_config ?g)"
    by (simp add: gateway_service_new_def HttpConfig_from_env_def is_true_def env_or_def eq_ignore_ascii_case_def
        to_ascii_lower_def trim_def is_ascii_ws_def)
  moreover have "\<not> gs_shutdown_tx ?g" "\<not> gs_serving ?g" by (simp_all add: gateway_service_new_def)
  moreover have "gateway_initialize (demo_senv r) ?g = Ok ()" "se_tls_config (demo_senv r) = r" for r
    by (simp_all add: gateway_initialize_def demo_senv_def)
  ultimately show ?thesis
    using gateway_tls_failure_sticks [of "registered demo_regs" Gateway ?g "demo_senv (Err ''CA not initialised'')"
        "''CA not initialised''" "demo_senv (Ok ())"] by blast
qed

end
