(* ===== verification/Gateway_Connections.thy ===== *)
theory Gateway_Connections
  imports Managed_Services Gateway_Url Gateway_Messages
begin

text \<open>
  The two connection tasks. The MQTT link to the cloud gateway (\<^verbatim>\<open>src/services/gateway_mqtt/tasks.rs\<close>
  with the login of \<^verbatim>\<open>login.rs\<close>) and the WebSocket link (\<^verbatim>\<open>spawn_connection_task\<close> of
  \<^verbatim>\<open>src/services/cloud_gateway/cloud_gateway_service.rs\<close>) are step functions over the events their
  \<^verbatim>\<open>select!\<close> branches and awaits can see; a step is \<^const>\<open>None\<close> when the event cannot occur in that
  phase. The lemmas give the shape of the reconnect delay, when a new login happens, how login
  failures are classified, and what becomes of queued messages.
\<close>

section \<open>The login\<close>

datatype LoginError = Unauthorized | Transient string

record http_request =
  hq_method :: string
  hq_uri :: string
  hq_host :: string
  hq_content_type :: string
  hq_body :: json

text \<open>What the network and the HTTP library answer; \<open>le_reason\<close> is the library's name of a status code.\<close>

record login_env =
  le_tls_lib :: tls_lib
  le_read :: "path \<Rightarrow> string result"
  le_connect :: "unit result"
  le_server_name :: "unit result"
  le_tls_handshake :: "unit result"
  le_http_handshake :: "unit result"
  le_build :: "http_request \<Rightarrow> unit result"
  le_response :: "http_request \<Rightarrow> (nat \<times> string result) result"
  le_reason :: "nat \<Rightarrow> string"
  le_parse :: "string \<Rightarrow> json option"
  le_parse_msg :: string

fun connector_roots :: "tls_lib \<Rightarrow> string result list \<Rightarrow> unit result" where
  "connector_roots L [] = Ok ()"
| "connector_roots L (c # cs) =
     (case c of
        Err e \<Rightarrow> Err (''parse gateway CA: '' @ e)
      | Ok cert \<Rightarrow>
          (case root_add L cert of
             Err e \<Rightarrow> Err (''add gateway CA: '' @ e)
           | Ok _ \<Rightarrow> connector_roots L cs))"

definition tls_connector :: "login_env \<Rightarrow> path option \<Rightarrow> unit result" where
  "tls_connector env cafile =
     (case cafile of
        None \<Rightarrow> Ok ()
      | Some p \<Rightarrow>
          (case le_read env p of
             Err e \<Rightarrow> Err (''read gateway CA '' @ quoted p @ '': '' @ e)
           | Ok pem \<Rightarrow> connector_roots (le_tls_lib env) (pem_certs (le_tls_lib env) pem)))"

definition login_http_request :: "string \<Rightarrow> string \<Rightarrow> json \<Rightarrow> http_request" where
  "login_http_request host path body =
     \<lparr>hq_method = ''POST'', hq_uri = path, hq_host = host, hq_content_type = ''application/json'', hq_body = body\<rparr>"

definition send_request :: "login_env \<Rightarrow> string \<Rightarrow> string \<Rightarrow> json \<Rightarrow> LoginError + LoginResponse" where
  "send_request env host path body =
     (case le_http_handshake env of
        Err e \<Rightarrow> Err (Transient (''http handshake: '' @ e))
      | Ok _ \<Rightarrow>
     (case le_build env (login_http_request host path body) of
        Err e \<Rightarrow> Err (Transient (''build request: '' @ e))
      | Ok _ \<Rightarrow>
     (case le_response env (login_http_request host path body) of
        Err e \<Rightarrow> Err (Transient (''send request: '' @ e))
      | Ok (status, answer) \<Rightarrow>
     (case answer of
        Err e \<Rightarrow> Err (Transient (''read body: '' @ e))
      | Ok text \<Rightarrow>
          if status = 401 then Err Unauthorized
          else if \<not> (200 \<le> status \<and> status < 300)
          then Err (Transient (''login returned '' @ show_nat status @ '' '' @ le_reason env status @ '': '' @ text))
          else (case Option.bind (le_parse env text) LoginResponse_from_json of
                  None \<Rightarrow> Err (Transient (''parse login response: '' @ le_parse_msg env))
                | Some resp \<Rightarrow> Ok resp)))))"

definition login :: "login_env \<Rightarrow> string \<Rightarrow> LoginRequest \<Rightarrow> path option \<Rightarrow> LoginError + LoginResponse" where
  "login env base_url req cafile =
     (case Url_parse base_url of
        Err e \<Rightarrow> Err (Transient e)
      | Ok url \<Rightarrow>
     (let path = login_path url; body = LoginRequest_to_json req
      in case le_connect env of
        Err e \<Rightarrow> Err (Transient (''connect '' @ url_host url @ '':'' @ show_u16 (url_port url) @ '': '' @ e))
      | Ok _ \<Rightarrow>
          if url_tls url then
            (case tls_connector env cafile of
               Err e \<Rightarrow> Err (Transient e)
             | Ok _ \<Rightarrow>
            (case le_server_name env of
               Err e \<Rightarrow> Err (Transient (''invalid server name: '' @ e))
             | Ok _ \<Rightarrow>
            (case le_tls_handshake env of
               Err e \<Rightarrow> Err (Transient (''tls handshake: '' @ e))
             | Ok _ \<Rightarrow> send_request env (url_host url) path body)))
          else send_request env (url_host url) path body))"

section \<open>The MQTT link\<close>

definition INITIAL_RECONNECT_DELAY :: nat where "INITIAL_RECONNECT_DELAY = 2"
definition MAX_RECONNECT_DELAY :: nat where "MAX_RECONNECT_DELAY = 60"

definition next_delay :: "nat \<Rightarrow> nat" where
  "next_delay d = min (d * 2) MAX_RECONNECT_DELAY"

definition gateway_client_cfg :: "GatewayMqttConfig \<Rightarrow> LoginResponse \<Rightarrow> MqttClientConfig" where
  "gateway_client_cfg config creds =
     \<lparr>mc_client_id = lr_device_id creds, mc_host = br_host (lr_broker creds), mc_port = br_port (lr_broker creds),
      mc_tls_mode = (if gm_broker_tls config then ServerOnly else TlsNone),
      mc_cafile = gm_broker_cafile config, mc_certfile = None, mc_keyfile = None,
      mc_username = lr_mqtt_username creds, mc_password = lr_mqtt_password creds\<rparr>"

datatype gm_phase = LoggingIn | Building LoginResponse | InLoop LoginResponse | BackingOff | TaskStopped

text \<open>
  The log holds the requests made of the MQTT library with its answer: accepted, or refused with an
  error that is only logged, in which case the message is lost. What becomes of an accepted request is
  the library's business: one that is still in its queue when the connection breaks is dropped with
  the client, and one it does not answer because that queue is full blocks the task, so that the run
  has no further event.
\<close>

datatype gm_action = SubscribeTo string | SubscribeFailed string
  | PublishTo string "json + bytes" | PublishFailed string "json + bytes"

record gm_state =
  gm_delay :: nat
  gm_cached :: "LoginResponse option"
  gm_phase :: gm_phase
  gm_log :: "gm_action list"
  gm_queue :: "MqttMessage list"

datatype gm_event = GmShutdown | GmLogin login_env | GmBuild tls_lib "path \<Rightarrow> string result"
  | GmOutbound "unit result" | GmConnAck "unit result" "unit result" "unit result" | GmPublish | GmOther | GmRefused | GmError string | GmElapsed
  | GmEnqueue MqttMessage

definition gm_init :: gm_state where
  "gm_init = \<lparr>gm_delay = INITIAL_RECONNECT_DELAY, gm_cached = None, gm_phase = LoggingIn, gm_log = [], gm_queue = []\<rparr>"

text \<open>The head of the reconnect loop: cached credentials are used without a login.\<close>

definition loop_head :: "gm_state \<Rightarrow> gm_state" where
  "loop_head st = st\<lparr>gm_phase := (case gm_cached st of Some c \<Rightarrow> Building c | None \<Rightarrow> LoggingIn)\<rparr>"

definition subscribe_request :: "unit result \<Rightarrow> string \<Rightarrow> gm_action" where
  "subscribe_request r topic = (case r of Ok _ \<Rightarrow> SubscribeTo topic | Err _ \<Rightarrow> SubscribeFailed topic)"

definition publish_request :: "unit result \<Rightarrow> string \<Rightarrow> json + bytes \<Rightarrow> gm_action" where
  "publish_request r topic payload = (case r of Ok _ \<Rightarrow> PublishTo topic payload | Err _ \<Rightarrow> PublishFailed topic payload)"

definition on_connected :: "unit result \<Rightarrow> unit result \<Rightarrow> unit result \<Rightarrow> LoginResponse \<Rightarrow> gm_action list" where
  "on_connected r1 r2 r3 creds =
     [subscribe_request r1 (dt_cmds (lr_topics creds)), subscribe_request r2 (dt_connect (lr_topics creds)),
      publish_request r3 (dt_notify (lr_topics creds)) (Inl (Envelope_to_json (Alive (lr_device_id creds))))]"

text \<open>Inbound messages are only logged: as the envelope they decode to, if they do.\<close>

definition gm_handle_inbound :: "(bytes \<Rightarrow> json option) \<Rightarrow> bytes \<Rightarrow> Envelope option" where
  "gm_handle_inbound parse payload = Option.bind (parse payload) Envelope_from_json"

text \<open>\<open>GmEnqueue\<close> is \<^verbatim>\<open>GatewayMqttHandle::publish\<close>, which waits while the queue is full and fails once the task
  is gone; \<open>GmOutbound\<close> takes the next queued message.\<close>

definition gm_publish :: "MqttMessage \<Rightarrow> gm_state \<Rightarrow> unit result \<times> gm_state" where
  "gm_publish m st =
     (if gm_phase st = TaskStopped then (Err ''gateway mqtt channel closed'', st)
      else (Ok (), st\<lparr>gm_queue := gm_queue st @ [m]\<rparr>))"

fun gm_step :: "GatewayMqttConfig \<Rightarrow> gm_event \<Rightarrow> gm_state \<Rightarrow> gm_state option" where
  "gm_step config (GmEnqueue m) st =
     (if length (gm_queue st) < 64 \<and> gm_phase st \<noteq> TaskStopped then Some (snd (gm_publish m st)) else None)"
| "gm_step config e st =
     (case gm_phase st of
        LoggingIn \<Rightarrow>
          (case e of
             GmShutdown \<Rightarrow> Some (st\<lparr>gm_phase := TaskStopped\<rparr>)
           | GmLogin env \<Rightarrow>
               (case login env (gm_gateway_url config)
                       \<lparr>lq_username = gm_username config, lq_password = gm_password config\<rparr> (gm_broker_cafile config) of
                  Ok resp \<Rightarrow> Some (st\<lparr>gm_cached := Some resp, gm_phase := Building resp\<rparr>)
                | Err Unauthorized \<Rightarrow> Some (st\<lparr>gm_phase := BackingOff\<rparr>)
                | Err (Transient msg) \<Rightarrow> Some (st\<lparr>gm_phase := BackingOff\<rparr>))
           | _ \<Rightarrow> None)
      | Building creds \<Rightarrow>
          (case e of
             GmBuild L read \<Rightarrow>
               (case build_mqtt_opts L read (gateway_client_cfg config creds) of
                  Ok opts \<Rightarrow> Some (st\<lparr>gm_phase := InLoop creds\<rparr>)
                | Err msg \<Rightarrow> Some (st\<lparr>gm_phase := BackingOff\<rparr>))
           | _ \<Rightarrow> None)
      | InLoop creds \<Rightarrow>
          (case e of
             GmShutdown \<Rightarrow> Some (st\<lparr>gm_phase := TaskStopped\<rparr>)
           | GmOutbound r \<Rightarrow>
               (case gm_queue st of
                  [] \<Rightarrow> None
                | m # ms \<Rightarrow>
                    Some (st\<lparr>gm_queue := ms, gm_log := gm_log st @ [publish_request r (msg_topic m) (Inr (msg_payload m))]\<rparr>))
           | GmConnAck r1 r2 r3 \<Rightarrow>
               Some (st\<lparr>gm_delay := INITIAL_RECONNECT_DELAY, gm_log := gm_log st @ on_connected r1 r2 r3 creds\<rparr>)
           | GmPublish \<Rightarrow> Some st
           | GmOther \<Rightarrow> Some st
           | GmRefused \<Rightarrow> Some (st\<lparr>gm_cached := None, gm_phase := BackingOff\<rparr>)
           | GmError msg \<Rightarrow> Some (st\<lparr>gm_phase := BackingOff\<rparr>)
           | _ \<Rightarrow> None)
      | BackingOff \<Rightarrow>
          (case e of
             GmShutdown \<Rightarrow> Some (st\<lparr>gm_delay := next_delay (gm_delay st), gm_phase := TaskStopped\<rparr>)
           | GmElapsed \<Rightarrow> Some (loop_head (st\<lparr>gm_delay := next_delay (gm_delay st)\<rparr>))
           | _ \<Rightarrow> None)
      | TaskStopped \<Rightarrow> None)"

fun gm_run :: "GatewayMqttConfig \<Rightarrow> gm_event list \<Rightarrow> gm_state \<Rightarrow> gm_state option" where
  "gm_run config [] st = Some st"
| "gm_run config (e # es) st = Option.bind (gm_step config e st) (gm_run config es)"

section \<open>The WebSocket link\<close>

datatype ws_phase = WsConnecting | WsRegistering | WsInLoop | WsSleeping | WsStopped

datatype ws_entry = Opened | RegisterFrame string | Frame GatewayMessage | Pong | CloseFrame | Slept nat | Lost GatewayMessage

record ws_state =
  ws_delay :: nat
  ws_queue :: "GatewayMessage list"
  ws_phase :: ws_phase
  ws_log :: "ws_entry list"

text \<open>\<open>RegisterFrame\<close> is the \<^verbatim>\<open>Register\<close> message sent first on a connection. \<open>WsOutbound\<close> takes the next queued message and \<open>WsEnqueue\<close> is the handle's side of the queue.\<close>

datatype ws_event = WsShutdown | WsConnect "unit result" | WsSendRegister "unit result" | WsOutbound "unit result"
  | WsText | WsPing | WsClosed | WsError | WsOther | WsElapsed | WsEnqueue GatewayMessage

definition ws_init :: ws_state where
  "ws_init = \<lparr>ws_delay = INITIAL_RECONNECT_DELAY, ws_queue = [], ws_phase = WsConnecting, ws_log = []\<rparr>"

fun ws_step :: "string \<Rightarrow> ws_event \<Rightarrow> ws_state \<Rightarrow> ws_state option" where
  "ws_step server_url (WsEnqueue m) st =
     (if length (ws_queue st) < 64 \<and> ws_phase st \<noteq> WsStopped then Some (st\<lparr>ws_queue := ws_queue st @ [m]\<rparr>) else None)"
| "ws_step server_url e st =
     (case ws_phase st of
        WsConnecting \<Rightarrow>
          (case e of
             WsShutdown \<Rightarrow> Some (st\<lparr>ws_phase := WsStopped\<rparr>)
           | WsConnect (Err _) \<Rightarrow> Some (st\<lparr>ws_phase := WsSleeping\<rparr>)
           | WsConnect (Ok _) \<Rightarrow>
               Some (st\<lparr>ws_delay := INITIAL_RECONNECT_DELAY, ws_phase := WsRegistering, ws_log := ws_log st @ [Opened]\<rparr>)
           | _ \<Rightarrow> None)
      | WsRegistering \<Rightarrow>
          (case e of
             WsSendRegister (Ok _) \<Rightarrow>
               Some (st\<lparr>ws_phase := WsInLoop, ws_log := ws_log st @ [RegisterFrame server_url]\<rparr>)
           | WsSendRegister (Err _) \<Rightarrow> Some (st\<lparr>ws_phase := WsConnecting\<rparr>)
           | _ \<Rightarrow> None)
      | WsInLoop \<Rightarrow>
          (case e of
             WsShutdown \<Rightarrow> Some (st\<lparr>ws_phase := WsStopped, ws_log := ws_log st @ [CloseFrame]\<rparr>)
           | WsOutbound r \<Rightarrow>
               (case ws_queue st of
                  [] \<Rightarrow> None
                | m # ms \<Rightarrow>
                    (case r of
                       Ok _ \<Rightarrow> Some (st\<lparr>ws_queue := ms, ws_log := ws_log st @ [Frame m]\<rparr>)
                     | Err _ \<Rightarrow> Some (st\<lparr>ws_queue := ms, ws_phase := WsSleeping, ws_log := ws_log st @ [Lost m]\<rparr>)))
           | WsText \<Rightarrow> Some st
           | WsPing \<Rightarrow> Some (st\<lparr>ws_log := ws_log st @ [Pong]\<rparr>)
           | WsClosed \<Rightarrow> Some (st\<lparr>ws_phase := WsSleeping\<rparr>)
           | WsError \<Rightarrow> Some (st\<lparr>ws_phase := WsSleeping\<rparr>)
           | WsOther \<Rightarrow> Some st
           | _ \<Rightarrow> None)
      | WsSleeping \<Rightarrow>
          (case e of
             WsElapsed \<Rightarrow>
               Some (st\<lparr>ws_delay := next_delay (ws_delay st), ws_phase := WsConnecting,
                        ws_log := ws_log st @ [Slept (ws_delay st)]\<rparr>)
           | _ \<Rightarrow> None)
      | WsStopped \<Rightarrow> None)"

fun ws_run :: "string \<Rightarrow> ws_event list \<Rightarrow> ws_state \<Rightarrow> ws_state option" where
  "ws_run server_url [] st = Some st"
| "ws_run server_url (e # es) st = Option.bind (ws_step server_url e st) (ws_run server_url es)"

section \<open>The MQTT link: lemmas\<close>

lemma next_delay_power: "next_delay (min (2 ^ Suc k) 60) = min (2 ^ Suc (Suc k)) 60"
  by (auto simp: next_delay_def MAX_RECONNECT_DELAY_def min_def)

text \<open>How many waits a run has made since its last acknowledged connection.\<close>

fun count_wait :: "gm_event \<Rightarrow> nat \<Rightarrow> nat" where
  "count_wait (GmConnAck _ _ _) n = 0"
| "count_wait GmElapsed n = Suc n"
| "count_wait _ n = n"

definition gm_inv :: "gm_state \<Rightarrow> bool" where
  "gm_inv st \<longleftrightarrow>
     (case gm_phase st of
        LoggingIn \<Rightarrow> gm_cached st = None
      | Building c \<Rightarrow> gm_cached st = Some c
      | InLoop c \<Rightarrow> gm_cached st = Some c
      | _ \<Rightarrow> True)"

lemma gm_inv_step: "gm_inv st \<Longrightarrow> gm_step config e st = Some st' \<Longrightarrow> gm_inv st'"
  by (cases e) (auto simp: gm_inv_def gm_publish_def loop_head_def
      split: gm_phase.splits sum.splits LoginError.splits option.splits list.splits if_splits)

lemma gm_delay_step:
  assumes "gm_step config e st = Some st'" and "gm_phase st' \<noteq> TaskStopped" and "gm_delay st = min (2 ^ Suc k) 60"
  shows "gm_delay st' = min (2 ^ Suc (count_wait e k)) 60"
  using assms
  by (cases e) (auto simp: loop_head_def gm_publish_def next_delay_power [simplified] INITIAL_RECONNECT_DELAY_def
      split: gm_phase.splits sum.splits LoginError.splits list.splits if_splits)

lemma gm_step_running: "gm_step config e st = Some st' \<Longrightarrow> gm_phase st \<noteq> TaskStopped"
  by (cases e) (auto split: if_splits)

lemma gm_run_Cons:
  "gm_run config (e # es) st = Some st' \<longleftrightarrow> (\<exists>st1. gm_step config e st = Some st1 \<and> gm_run config es st1 = Some st')"
  by (auto simp: bind_eq_Some_conv simp del: gm_step.simps)

lemma gm_run_inv: "gm_inv st \<Longrightarrow> gm_run config es st = Some st' \<Longrightarrow> gm_inv st'"
proof (induction es arbitrary: st)
  case (Cons e es)
  then show ?case unfolding gm_run_Cons using gm_inv_step by blast
qed simp

lemma gm_run_delay:
  assumes "gm_run config es st = Some st'" and "gm_phase st' \<noteq> TaskStopped" and "gm_delay st = min (2 ^ Suc k) 60"
  shows "gm_delay st' = min (2 ^ Suc (fold count_wait es k)) 60"
  using assms(1,3)
proof (induction es arbitrary: st k)
  case Nil
  then show ?case by simp
next
  case (Cons e es)
  from Cons.prems(1) obtain st1 where st1: "gm_step config e st = Some st1" "gm_run config es st1 = Some st'"
    unfolding gm_run_Cons by blast
  have "gm_phase st1 \<noteq> TaskStopped"
  proof (cases es)
    case Nil
    with st1(2) assms(2) show ?thesis by simp
  next
    case (Cons e' es')
    with st1(2) show ?thesis unfolding gm_run_Cons Cons using gm_step_running by blast
  qed
  from Cons.IH [OF st1(2) gm_delay_step [OF st1(1) this Cons.prems(2)]] show ?case by simp
qed

lemma gm_step_cached:
  assumes "gm_inv st" and "gm_cached st = Some c" and "gm_step config e st = Some st'" and "e \<noteq> GmRefused"
  shows "gm_cached st' = Some c \<and> (\<forall>env. e \<noteq> GmLogin env)"
  using assms
  by (cases e) (auto simp: gm_inv_def loop_head_def gm_publish_def
      split: gm_phase.splits sum.splits LoginError.splits list.splits if_splits)

lemma gm_run_cached:
  "gm_inv st \<Longrightarrow> gm_cached st = Some c \<Longrightarrow> gm_run config es st = Some st' \<Longrightarrow> GmRefused \<notin> set es \<Longrightarrow>
   gm_cached st' = Some c \<and> (\<forall>env. GmLogin env \<notin> set es)"
proof (induction es arbitrary: st)
  case (Cons e es)
  from Cons.prems(3) obtain st1 where st1: "gm_step config e st = Some st1" "gm_run config es st1 = Some st'"
    unfolding gm_run_Cons by blast
  have ne: "e \<noteq> GmRefused" and "GmRefused \<notin> set es" using Cons.prems(4) by auto
  with gm_step_cached [OF Cons.prems(1,2) st1(1) ne] Cons.IH [OF gm_inv_step [OF Cons.prems(1) st1(1)] _ st1(2)]
  show ?case by auto
qed simp

text \<open>The messages taken from the queue, each with whether the library accepted it, those that were put into
  the queue, and the library's answers to them in a run.\<close>

definition taken_out :: "gm_action list \<Rightarrow> (bool \<times> MqttMessage) list" where
  "taken_out log = concat (map (\<lambda>a. case a of
      PublishTo t (Inr p) \<Rightarrow> [(True, \<lparr>msg_topic = t, msg_payload = p\<rparr>)]
    | PublishFailed t (Inr p) \<Rightarrow> [(False, \<lparr>msg_topic = t, msg_payload = p\<rparr>)]
    | _ \<Rightarrow> []) log)"

definition handed_over :: "gm_event list \<Rightarrow> MqttMessage list" where
  "handed_over es = concat (map (\<lambda>e. case e of GmEnqueue m \<Rightarrow> [m] | _ \<Rightarrow> []) es)"

definition library_answers :: "gm_event list \<Rightarrow> bool list" where
  "library_answers es = concat (map (\<lambda>e. case e of GmOutbound r \<Rightarrow> [is_ok r] | _ \<Rightarrow> []) es)"

lemma gm_step_queue:
  "gm_step config e st = Some st' \<Longrightarrow>
   map snd (taken_out (gm_log st')) @ gm_queue st' = map snd (taken_out (gm_log st)) @ gm_queue st @ handed_over [e] \<and>
   map fst (taken_out (gm_log st')) = map fst (taken_out (gm_log st)) @ library_answers [e]"
  by (cases e) (auto simp: taken_out_def handed_over_def library_answers_def gm_publish_def on_connected_def subscribe_request_def
      publish_request_def loop_head_def
      split: gm_phase.splits sum.splits LoginError.splits list.splits if_splits)

lemma gm_run_queue:
  "gm_run config es st = Some st' \<Longrightarrow>
   map snd (taken_out (gm_log st')) @ gm_queue st' = map snd (taken_out (gm_log st)) @ gm_queue st @ handed_over es \<and>
   map fst (taken_out (gm_log st')) = map fst (taken_out (gm_log st)) @ library_answers es"
proof (induction es arbitrary: st)
  case Nil
  then show ?case by (simp add: handed_over_def library_answers_def)
next
  case (Cons e es)
  then obtain st1 where "gm_step config e st = Some st1" "gm_run config es st1 = Some st'" unfolding gm_run_Cons by blast
  with Cons.IH gm_step_queue [of config e st st1] show ?case by (simp add: handed_over_def library_answers_def)
qed

lemma gm_inv_init: "gm_inv gm_init"
  by (simp add: gm_inv_def gm_init_def)

section \<open>The WebSocket link: lemmas\<close>

lemma ws_run_Cons:
  "ws_run s (e # es) st = Some st' \<longleftrightarrow> (\<exists>st1. ws_step s e st = Some st1 \<and> ws_run s es st1 = Some st')"
  by (auto simp: bind_eq_Some_conv)

text \<open>The messages taken from the queue so far, sent or lost, and the messages put into it.\<close>

definition taken :: "ws_entry list \<Rightarrow> GatewayMessage list" where
  "taken log = concat (map (\<lambda>x. case x of Frame m \<Rightarrow> [m] | Lost m \<Rightarrow> [m] | _ \<Rightarrow> []) log)"

definition enqueued :: "ws_event list \<Rightarrow> GatewayMessage list" where
  "enqueued es = concat (map (\<lambda>e. case e of WsEnqueue m \<Rightarrow> [m] | _ \<Rightarrow> []) es)"

lemma taken_append [simp]: "taken (xs @ ys) = taken xs @ taken ys"
  by (simp add: taken_def)

lemma ws_step_queue:
  "ws_step s e st = Some st' \<Longrightarrow> taken (ws_log st') @ ws_queue st' = taken (ws_log st) @ ws_queue st @ enqueued [e]"
  by (cases e) (auto simp: taken_def enqueued_def split: ws_phase.splits sum.splits list.splits if_splits)

lemma ws_run_queue:
  "ws_run s es st = Some st' \<Longrightarrow> taken (ws_log st') @ ws_queue st' = taken (ws_log st) @ ws_queue st @ enqueued es"
proof (induction es arbitrary: st)
  case Nil
  then show ?case by (simp add: enqueued_def)
next
  case (Cons e es)
  then obtain st1 where "ws_step s e st = Some st1" "ws_run s es st1 = Some st'" unfolding ws_run_Cons by blast
  with Cons.IH ws_step_queue [of s e st st1] show ?case by (simp add: enqueued_def)
qed

text \<open>A point of the log at which the current connection has been registered.\<close>

definition in_session :: "string \<Rightarrow> ws_entry list \<Rightarrow> bool" where
  "in_session s log \<longleftrightarrow> (\<exists>us vs. log = us @ [Opened, RegisterFrame s] @ vs \<and> Opened \<notin> set vs \<and> (\<forall>d. Slept d \<notin> set vs))"

definition ws_inv :: "string \<Rightarrow> ws_state \<Rightarrow> bool" where
  "ws_inv s st \<longleftrightarrow>
     (ws_phase st = WsRegistering \<longrightarrow> (\<exists>us. ws_log st = us @ [Opened])) \<and>
     (ws_phase st = WsInLoop \<longrightarrow> in_session s (ws_log st)) \<and>
     (\<forall>xs m ys. ws_log st = xs @ Frame m # ys \<longrightarrow> in_session s xs) \<and>
     2 \<le> ws_delay st \<and> ws_delay st \<le> 60 \<and> (\<forall>d. Slept d \<in> set (ws_log st) \<longrightarrow> 2 \<le> d \<and> d \<le> 60)"

lemma in_session_more: "in_session s log \<Longrightarrow> x \<noteq> Opened \<Longrightarrow> (\<forall>d. x \<noteq> Slept d) \<Longrightarrow> in_session s (log @ [x])"
  unfolding in_session_def by (metis (no_types, lifting) append.assoc insertE list.set(1) list.set(2) rotate1.simps(2) set_rotate1 singletonD)

lemma in_session_registered: "in_session s (us @ [Opened] @ [RegisterFrame s])"
  unfolding in_session_def by (rule exI [of _ us], rule exI [of _ "[]"]) simp

lemma frames_snoc:
  assumes "\<forall>xs m ys. log = xs @ Frame m # ys \<longrightarrow> in_session s xs" and "\<forall>m. x = Frame m \<longrightarrow> in_session s log"
  shows "\<forall>xs m ys. log @ [x] = xs @ Frame m # ys \<longrightarrow> in_session s xs"
proof (intro allI impI)
  fix xs m ys
  assume eq: "log @ [x] = xs @ Frame m # ys"
  show "in_session s xs"
  proof (cases ys rule: rev_cases)
    case Nil
    with eq assms(2) show ?thesis by auto
  next
    case (snoc zs z)
    with eq have "log = xs @ Frame m # zs" by simp
    with assms(1) show ?thesis by blast
  qed
qed

lemma next_delay_bounds: "2 \<le> d \<Longrightarrow> 2 \<le> next_delay d \<and> next_delay d \<le> 60"
  by (auto simp: next_delay_def MAX_RECONNECT_DELAY_def)

text \<open>The log grows by at most one entry per step; what the invariant needs to know of it.\<close>

lemma ws_inv_snoc:
  assumes "ws_inv s st" and "ws_log st' = ws_log st @ [x]" and "2 \<le> ws_delay st'" "ws_delay st' \<le> 60"
    and "\<forall>m. x = Frame m \<longrightarrow> in_session s (ws_log st)" and "\<forall>d. x = Slept d \<longrightarrow> 2 \<le> d \<and> d \<le> 60"
    and "ws_phase st' = WsRegistering \<longrightarrow> x = Opened"
    and "ws_phase st' = WsInLoop \<longrightarrow> in_session s (ws_log st @ [x])"
  shows "ws_inv s st'"
proof -
  have f: "\<forall>xs m ys. ws_log st @ [x] = xs @ Frame m # ys \<longrightarrow> in_session s xs"
    by (rule frames_snoc [OF _ assms(5)]) (use assms(1) in \<open>unfold ws_inv_def, blast\<close>)
  have "\<forall>d. Slept d \<in> set (ws_log st @ [x]) \<longrightarrow> 2 \<le> d \<and> d \<le> 60"
    using assms(1,6) unfolding ws_inv_def by (metis Un_iff empty_iff list.set(1) list.set(2) insert_iff set_append)
  with f assms(3,4,7,8) show ?thesis unfolding ws_inv_def assms(2) by blast
qed

lemma ws_inv_quiet:
  assumes "ws_inv s st" and "ws_log st' = ws_log st" and "ws_delay st' = ws_delay st"
    and "ws_phase st' = ws_phase st \<or> ws_phase st' \<notin> {WsRegistering, WsInLoop}"
  shows "ws_inv s st'"
  using assms unfolding ws_inv_def by auto

lemma ws_inv_step:
  assumes inv: "ws_inv s st" and step: "ws_step s e st = Some st'"
  shows "ws_inv s st'"
proof -
  have d: "2 \<le> ws_delay st" "ws_delay st \<le> 60" using inv by (auto simp: ws_inv_def)
  show ?thesis
  proof (cases "\<exists>m. e = WsEnqueue m")
    case True
    with step show ?thesis using ws_inv_quiet [OF inv] by (auto split: if_splits)
  next
    case False
    show ?thesis
    proof (cases "ws_phase st")
      case WsConnecting
      with False step consider "st' = st\<lparr>ws_phase := WsStopped\<rparr>" | "st' = st\<lparr>ws_phase := WsSleeping\<rparr>"
        | "st' = st\<lparr>ws_delay := 2, ws_phase := WsRegistering, ws_log := ws_log st @ [Opened]\<rparr>"
        by (cases e) (auto simp: INITIAL_RECONNECT_DELAY_def split: sum.splits)
      then show ?thesis
        by cases (rule ws_inv_quiet [OF inv], simp_all, rule ws_inv_quiet [OF inv], simp_all, rule ws_inv_snoc [OF inv], simp_all)
    next
      case WsRegistering
      then obtain us where us: "ws_log st = us @ [Opened]" using inv by (auto simp: ws_inv_def)
      from WsRegistering False step consider "st' = st\<lparr>ws_phase := WsConnecting\<rparr>"
        | "st' = st\<lparr>ws_phase := WsInLoop, ws_log := ws_log st @ [RegisterFrame s]\<rparr>"
        by (cases e) (auto split: sum.splits)
      then show ?thesis
        using d in_session_registered [of s us] us
        by cases (rule ws_inv_quiet [OF inv], simp_all, rule ws_inv_snoc [OF inv], simp_all)
    next
      case WsInLoop
      then have ses: "in_session s (ws_log st)" using inv by (simp add: ws_inv_def)
      from WsInLoop False step consider (quiet) "ws_log st' = ws_log st" "ws_delay st' = ws_delay st"
          "ws_phase st' = ws_phase st \<or> ws_phase st' = WsSleeping"
        | (more) x where "ws_log st' = ws_log st @ [x]" "ws_delay st' = ws_delay st" "x = Pong \<or> (\<exists>m. x = Frame m)"
          "ws_phase st' = WsInLoop"
        | (left) x where "ws_log st' = ws_log st @ [x]" "ws_delay st' = ws_delay st" "x = CloseFrame \<or> (\<exists>m. x = Lost m)"
          "ws_phase st' = WsStopped \<or> ws_phase st' = WsSleeping"
        by (cases e) (auto split: list.splits sum.splits)
      then show ?thesis
      proof cases
        case quiet
        then show ?thesis using ws_inv_quiet [OF inv] by auto
      next
        case (more x)
        then have "in_session s (ws_log st @ [x])" using in_session_more [OF ses, of x] by auto
        with more d ses show ?thesis using ws_inv_snoc [OF inv more(1)] by auto
      next
        case (left x)
        with d show ?thesis using ws_inv_snoc [OF inv left(1)] by auto
      qed
    next
      case WsSleeping
      with False step have "st' = st\<lparr>ws_delay := next_delay (ws_delay st), ws_phase := WsConnecting,
          ws_log := ws_log st @ [Slept (ws_delay st)]\<rparr>" by (cases e) auto
      with d next_delay_bounds [OF d(1)] show ?thesis by (intro ws_inv_snoc [OF inv]) auto
    next
      case WsStopped
      with False step show ?thesis by (cases e) auto
    qed
  qed
qed

lemma ws_inv_run: "ws_inv s st \<Longrightarrow> ws_run s es st = Some st' \<Longrightarrow> ws_inv s st'"
proof (induction es arbitrary: st)
  case (Cons e es)
  then show ?case unfolding ws_run_Cons using ws_inv_step by blast
qed simp

lemma ws_inv_init: "ws_inv s ws_init"
  by (simp add: ws_inv_def ws_init_def INITIAL_RECONNECT_DELAY_def)

section \<open>Properties\<close>

text \<open>Claim C11. The gateway link backs off as documented: the delay before the next attempt is the smaller
  of sixty seconds and two to the power of one plus the number of waits since the last acknowledged
  connection. Credentials are kept: once logged in, no login happens again before the broker refuses
  the connection, and a refusal is followed, after the wait, by a login. The messages handed to the
  link are taken from its queue in order, each once, and passed to the MQTT library: those the library
  accepted, those it refused, which are lost, and those still waiting are, in order, all that were handed
  over, and which of them are lost is decided by the library's answers alone.\<close>

theorem gateway_link_discipline:
  assumes "gm_run config es gm_init = Some st"
  shows "(gm_phase st \<noteq> TaskStopped \<longrightarrow> gm_delay st = min (2 ^ Suc (fold count_wait es 0)) 60) \<and>
    (\<forall>later st' c. gm_cached st = Some c \<longrightarrow> gm_run config later st = Some st' \<longrightarrow> GmRefused \<notin> set later \<longrightarrow>
       gm_cached st' = Some c \<and> (\<forall>env. GmLogin env \<notin> set later)) \<and>
    (\<forall>st'. gm_run config [GmRefused, GmElapsed] st = Some st' \<longrightarrow> gm_phase st' = LoggingIn) \<and>
    map snd (taken_out (gm_log st)) @ gm_queue st = handed_over es \<and> map fst (taken_out (gm_log st)) = library_answers es"
proof -
  have "gm_inv st" by (rule gm_run_inv [OF gm_inv_init assms])
  moreover have "gm_delay gm_init = min (2 ^ Suc 0) 60" by (simp add: gm_init_def INITIAL_RECONNECT_DELAY_def)
  moreover have "gm_phase st' = LoggingIn" if "gm_run config [GmRefused, GmElapsed] st = Some st'" for st'
    using that by (cases "gm_phase st") (auto simp: loop_head_def)
  moreover have "map snd (taken_out (gm_log st)) @ gm_queue st = handed_over es" "map fst (taken_out (gm_log st)) = library_answers es"
    using gm_run_queue [OF assms] by (simp_all add: gm_init_def taken_out_def)
  ultimately show ?thesis
    using gm_run_delay [OF assms, of 0] gm_run_cached [of st] by blast
qed

text \<open>An unreachable gateway, and one that answers a login.\<close>

definition demo_login :: "unit result \<Rightarrow> nat \<Rightarrow> login_env" where
  "demo_login conn status = \<lparr>le_tls_lib = \<lparr>pem_certs = (\<lambda>t. [Ok t]), root_add = (\<lambda>_. Ok ())\<rparr>, le_read = (\<lambda>p. Ok p),
     le_connect = conn, le_server_name = Ok (), le_tls_handshake = Ok (), le_http_handshake = Ok (), le_build = (\<lambda>_. Ok ()),
     le_response = (\<lambda>_. Ok (status, Ok ''{}'')), le_reason = (\<lambda>_. ''reason''),
     le_parse = (\<lambda>_. Some (JObject [(''protocol_version'', JString ''1''), (''device_id'', JString ''d''),
       (''mqtt_username'', JString ''u''), (''mqtt_password'', JString ''p''),
       (''broker'', JObject [(''host'', JString ''b''), (''port'', JNumber (JInt 8883))]),
       (''topics'', JObject [(''cmds'', JString ''d/cmds''), (''connect'', JString ''d/connect''), (''notify'', JString ''d/notify'')])])),
     le_parse_msg = ''bad''\<rparr>"

definition demo_gm_config :: GatewayMqttConfig where
  "demo_gm_config = \<lparr>gm_gateway_url = ''http://g'', gm_username = ''u'', gm_password = ''p'', gm_broker_cafile = None,
     gm_broker_tls = False\<rparr>"

lemma demo_url: "Url_parse ''http://g'' = Ok \<lparr>url_tls = False, url_host = ''g'', url_port = 80, url_path = ''/''\<rparr>"
  by (simp add: Url_parse_def find_split_def rsplit_once_def)

theorem gateway_link_discipline_witness:
  "\<exists>st. gm_run demo_gm_config [GmLogin (demo_login (Err ''refused'') 0), GmElapsed, GmLogin (demo_login (Err ''refused'') 0),
       GmElapsed] gm_init = Some st \<and> gm_delay st = 8"
proof -
  have r: "login (demo_login (Err ''refused'') 0) (gm_gateway_url demo_gm_config) q c =
      Err (Transient (''connect '' @ ''g'' @ '':'' @ show_u16 80 @ '': '' @ ''refused''))" for q c
    by (simp add: login_def demo_gm_config_def demo_url demo_login_def)
  then obtain st where run: "gm_run demo_gm_config [GmLogin (demo_login (Err ''refused'') 0), GmElapsed,
       GmLogin (demo_login (Err ''refused'') 0), GmElapsed] gm_init = Some st" and "gm_phase st = LoggingIn"
    by (simp add: gm_init_def loop_head_def)
  with gateway_link_discipline [OF run] show ?thesis by simp
qed

text \<open>Claim C31. A login posts the credentials to the base URL's path without trailing slashes followed by
  \<^verbatim>\<open>/api/login\<close>. It fails as unauthorised only when the gateway answered that request with 401, and over
  plaintext always then; it succeeds only on a 2xx answer whose body is a complete login response, which
  it returns. Everything else is transient.\<close>

theorem login_classification:
  assumes "Url_parse base = Ok url"
    and "post = \<lparr>hq_method = ''POST'', hq_uri = trim_end_matches (CHR ''/'') (url_path url) @ ''/api/login'',
      hq_host = url_host url, hq_content_type = ''application/json'', hq_body = LoginRequest_to_json req\<rparr>"
  shows "(login env base req cafile = Err Unauthorized \<longrightarrow> (\<exists>body. le_response env post = Ok (401, Ok body))) \<and>
   (login env base req cafile = Ok resp \<longrightarrow>
     (\<exists>status body. le_response env post = Ok (status, Ok body) \<and> 200 \<le> status \<and> status < 300 \<and>
        Option.bind (le_parse env body) LoginResponse_from_json = Some resp)) \<and>
   (\<forall>body. \<not> url_tls url \<longrightarrow> le_connect env = Ok () \<longrightarrow> le_http_handshake env = Ok () \<longrightarrow>
      le_build env post = Ok () \<longrightarrow> le_response env post = Ok (401, Ok body) \<longrightarrow> login env base req cafile = Err Unauthorized)"
proof -
  have post: "post = login_http_request (url_host url) (login_path url) (LoginRequest_to_json req)"
    by (simp add: assms(2) login_http_request_def login_path_def)
  let ?send = "send_request env (url_host url) (login_path url) (LoginRequest_to_json req)"
  have req: "?send = Err Unauthorized \<Longrightarrow> \<exists>body. le_response env post = Ok (401, Ok body)"
    "?send = Ok resp \<Longrightarrow> \<exists>status body. le_response env post = Ok (status, Ok body) \<and> 200 \<le> status \<and> status < 300 \<and>
        Option.bind (le_parse env body) LoginResponse_from_json = Some resp"
    by (auto simp: send_request_def post split: sum.splits if_splits option.splits)
  have via: "login env base req cafile = ?send \<or> (\<exists>e. login env base req cafile = Err (Transient e))"
    by (auto simp: login_def assms(1) Let_def split: sum.splits)
  have "login env base req cafile = Err Unauthorized"
    if "\<not> url_tls url" "le_connect env = Ok ()" "le_http_handshake env = Ok ()" "le_build env post = Ok ()"
      "le_response env post = Ok (401, Ok body)" for body
    using that by (simp add: login_def send_request_def assms(1) post Let_def)
  with via req show ?thesis by auto
qed

theorem login_classification_witness:
  "login (demo_login (Ok ()) 401) ''http://g'' \<lparr>lq_username = ''u'', lq_password = ''p''\<rparr> None = Err Unauthorized"
  using login_classification [OF demo_url refl, of "demo_login (Ok ()) 401" "\<lparr>lq_username = ''u'', lq_password = ''p''\<rparr>" None]
  by (simp add: demo_login_def)

text \<open>Claim C12. On the WebSocket link messages are taken from the queue in the order they were put in, each
  once: those sent, those lost when a send failed, and those still waiting make up exactly what was
  queued. No queued message is sent on a connection before the \<^verbatim>\<open>Register\<close> frame of that connection,
  and every pause lasts between two and sixty seconds.\<close>

theorem websocket_fifo_after_register:
  assumes "ws_run server_url es ws_init = Some st"
  shows "enqueued es = taken (ws_log st) @ ws_queue st \<and>
    (\<forall>xs m ys. ws_log st = xs @ Frame m # ys \<longrightarrow> in_session server_url xs) \<and>
    (\<forall>d. Slept d \<in> set (ws_log st) \<longrightarrow> 2 \<le> d \<and> d \<le> 60)"
proof -
  have "ws_inv server_url st" by (rule ws_inv_run [OF ws_inv_init assms])
  moreover have "taken (ws_log st) @ ws_queue st = enqueued es"
    using ws_run_queue [OF assms] by (simp add: ws_init_def taken_def)
  ultimately show ?thesis by (simp add: ws_inv_def)
qed

definition demo_ws :: "ws_event list" where
  "demo_ws = [WsEnqueue (Connect ''a''), WsConnect (Err ''down''), WsElapsed, WsConnect (Ok ()), WsSendRegister (Ok ()),
     WsOutbound (Ok ()), WsEnqueue (Connect ''b''), WsOutbound (Err ''broken'')]"

theorem websocket_fifo_after_register_witness:
  "\<exists>st. ws_run ''http://h'' demo_ws ws_init = Some st \<and> enqueued demo_ws = taken (ws_log st) @ ws_queue st \<and>
     ws_log st = [Slept 2, Opened, RegisterFrame ''http://h'', Frame (Connect ''a''), Lost (Connect ''b'')]"
proof -
  obtain st where run: "ws_run ''http://h'' demo_ws ws_init = Some st"
    and "ws_log st = [Slept 2, Opened, RegisterFrame ''http://h'', Frame (Connect ''a''), Lost (Connect ''b'')]"
    by (simp add: demo_ws_def ws_init_def INITIAL_RECONNECT_DELAY_def)
  with websocket_fifo_after_register [OF run] show ?thesis by blast
qed

text \<open>Claim C36. A gateway that accepts connections but lets the \<^verbatim>\<open>Register\<close> frame fail is reconnected to
  without any pause: any number of attempts may follow each other, each opening a connection, with no
  sleep between them.\<close>

theorem register_failure_hot_loop:
  "\<exists>st. ws_run server_url (concat (replicate n [WsConnect (Ok ()), WsSendRegister (Err e)])) ws_init = Some st \<and>
     ws_phase st = WsConnecting \<and> ws_log st = replicate n Opened"
proof -
  have "\<exists>st'. ws_run server_url (concat (replicate n [WsConnect (Ok ()), WsSendRegister (Err e)])) st = Some st' \<and>
     ws_phase st' = WsConnecting \<and> ws_log st' = ws_log st @ replicate n Opened" if "ws_phase st = WsConnecting" for st
    using that
  proof (induction n arbitrary: st)
    case (Suc n)
    let ?st = "st\<lparr>ws_delay := INITIAL_RECONNECT_DELAY, ws_log := ws_log st @ [Opened], ws_phase := WsConnecting\<rparr>"
    from Suc.IH [of ?st] Suc.prems show ?case by simp
  qed simp
  from this [of ws_init] show ?thesis by (simp add: ws_init_def)
qed

end
