(* ===== verification/Key_Management.thy ===== *)
theory Key_Management
  imports Hamlet_Prelude
begin

text \<open>
  Broadcast keys (\<^verbatim>\<open>src/services/beacon_management/key_management.rs\<close> and the table of
  \<^verbatim>\<open>migrations/0004_broadcast_keys.sql\<close>): the table is the list of its rows in rowid order, each
  query of the code is a function on it, and the clock readings, the random bytes and the errors the
  database may return are the fields of an environment record, one per call the code makes.
  HMAC-SHA256 is a parameter. The lemmas show that at most one key is active, what a rotation and a
  sweep do to every row, when the returned key is usable, and the shape of the over-the-air fields.
\<close>

section \<open>Data\<close>

record BroadcastKey =
  key_id :: bytes
  key_material :: bytes
  rotates_at :: int
  expires_at :: int

record key_row =
  row_key_id :: bytes
  row_key_material :: bytes
  row_created_at :: int
  row_rotates_at :: int
  row_expires_at :: int
  row_is_active :: int

type_synonym key_table = "key_row list"

record key_manager =
  rotation_interval :: nat
  key_expiry :: nat

record key_env =
  clock_get :: int
  clock_rotate :: int
  rand_material :: bytes
  rand_id :: bytes
  query_err :: "string option"
  retire_err :: "string option"
  insert_err :: "string option"
  unique_msg :: string

definition key_env_ok :: "key_env \<Rightarrow> bool" where
  "key_env_ok env \<longleftrightarrow> length (rand_material env) = 16 \<and> length (rand_id env) = 4"

section \<open>Operations\<close>

text \<open>A clock before the epoch reads as zero; the conversion to \<^verbatim>\<open>i64\<close> wraps.\<close>

definition unix_now :: "int \<Rightarrow> int" where
  "unix_now clock = (if clock < 0 then 0 else wrap_i64 clock)"

definition hex_encode :: "bytes \<Rightarrow> string" where
  "hex_encode bs = concat (map show_hex_byte bs)"

definition build_key :: "bytes \<Rightarrow> bytes \<Rightarrow> int \<Rightarrow> int \<Rightarrow> BroadcastKey result" where
  "build_key kid km rot exp =
     (if length kid \<noteq> 4
      then Err (''Corrupt broadcast_keys row: key_id is '' @ show_nat (length kid) @ '' bytes, expected 4'')
      else if length km \<noteq> 16
      then Err (''Corrupt broadcast_keys row: key_material is '' @ show_nat (length km)
                @ '' bytes, expected 16'')
      else Ok \<lparr>key_id = kid, key_material = km, rotates_at = rot, expires_at = exp\<rparr>)"

text \<open>\<^verbatim>\<open>WHERE is_active = 1 AND rotates_at > ? ORDER BY rotates_at DESC LIMIT 1\<close>.\<close>

fun latest_rotation :: "key_table \<Rightarrow> key_row option" where
  "latest_rotation [] = None"
| "latest_rotation (r # rs) =
     (case latest_rotation rs of
        None \<Rightarrow> Some r
      | Some q \<Rightarrow> if row_rotates_at q \<le> row_rotates_at r then Some r else Some q)"

definition select_active :: "int \<Rightarrow> key_table \<Rightarrow> key_row option" where
  "select_active now t = latest_rotation (filter (\<lambda>r. row_is_active r = 1 \<and> now < row_rotates_at r) t)"

definition retire :: "key_row \<Rightarrow> key_row" where
  "retire r = (if row_is_active r = 1 then r\<lparr>row_is_active := 0\<rparr> else r)"

definition rotate_key ::
  "key_manager \<Rightarrow> key_env \<Rightarrow> key_table \<Rightarrow> BroadcastKey result \<times> key_table" where
  "rotate_key mgr env t =
     (let now = unix_now (clock_rotate env);
          rot = wrap_i64 (now + wrap_i64 (int (rotation_interval mgr)));
          exp = wrap_i64 (now + wrap_i64 (int (key_expiry mgr)))
      in (case retire_err env of
            Some e \<Rightarrow> (Err (''Failed to retire active broadcast keys: '' @ e), t)
          | None \<Rightarrow>
              let t1 = map retire t
              in (case insert_err env of
                    Some e \<Rightarrow> (Err (''Failed to insert new broadcast key: '' @ e), t1)
                  | None \<Rightarrow>
                      if rand_id env \<in> set (map row_key_id t1)
                      then (Err (''Failed to insert new broadcast key: '' @ unique_msg env), t1)
                      else (Ok \<lparr>key_id = rand_id env, key_material = rand_material env,
                                rotates_at = rot, expires_at = exp\<rparr>,
                            t1 @ [\<lparr>row_key_id = rand_id env, row_key_material = rand_material env,
                                   row_created_at = now, row_rotates_at = rot,
                                   row_expires_at = exp, row_is_active = 1\<rparr>]))))"

definition get_or_rotate_key ::
  "key_manager \<Rightarrow> key_env \<Rightarrow> key_table \<Rightarrow> BroadcastKey result \<times> key_table" where
  "get_or_rotate_key mgr env t =
     (case query_err env of
        Some e \<Rightarrow> (Err (''Failed to query broadcast keys: '' @ e), t)
      | None \<Rightarrow>
          (case select_active (unix_now (clock_get env)) t of
             Some r \<Rightarrow> (build_key (row_key_id r) (row_key_material r) (row_rotates_at r) (row_expires_at r), t)
           | None \<Rightarrow> rotate_key mgr env t))"

definition sweep_expired :: "int \<Rightarrow> string option \<Rightarrow> key_table \<Rightarrow> nat result \<times> key_table" where
  "sweep_expired clock err t =
     (case err of
        Some e \<Rightarrow> (Err (''Failed to sweep expired broadcast keys: '' @ e), t)
      | None \<Rightarrow>
          let t' = filter (\<lambda>r. \<not> row_expires_at r \<le> unix_now clock) t
          in (Ok (length t - length t'), t'))"

text \<open>\<^verbatim>\<open>u64::to_be_bytes\<close>, the time slot and the truncated token.\<close>

definition to_be_bytes :: "u64 \<Rightarrow> bytes" where
  "to_be_bytes w = map (\<lambda>i. of_nat (unat w div 256 ^ i)) [7, 6, 5, 4, 3, 2, 1, 0]"

definition token_slot :: "key_manager \<Rightarrow> int \<Rightarrow> u64" where
  "token_slot mgr clock =
     (let rotation_secs = max (rotation_interval mgr) 1
      in of_int (unix_now clock) div of_nat rotation_secs)"

definition generate_token ::
  "(bytes \<Rightarrow> bytes \<Rightarrow> bytes) \<Rightarrow> key_manager \<Rightarrow> int \<Rightarrow> BroadcastKey \<Rightarrow> bytes" where
  "generate_token hmac mgr clock key =
     take 4 (hmac (key_material key) (to_be_bytes (token_slot mgr clock)))"

definition ota_fields ::
  "(bytes \<Rightarrow> bytes \<Rightarrow> bytes) \<Rightarrow> key_manager \<Rightarrow> int \<Rightarrow> BroadcastKey \<Rightarrow> string \<times> string" where
  "ota_fields hmac mgr clock key =
     (hex_encode (key_id key), hex_encode (generate_token hmac mgr clock key))"

section \<open>Well-formed tables\<close>

definition is_active :: "key_row \<Rightarrow> bool" where
  "is_active r \<longleftrightarrow> row_is_active r = 1"

definition row_ok :: "key_row \<Rightarrow> bool" where
  "row_ok r \<longleftrightarrow> length (row_key_id r) = 4 \<and> length (row_key_material r) = 16 \<and>
     row_is_active r \<in> {0, 1}"

definition table_inv :: "key_table \<Rightarrow> bool" where
  "table_inv t \<longleftrightarrow>
     distinct (map row_key_id t) \<and> length (filter is_active t) \<le> 1 \<and> list_all row_ok t"

lemma retire_simps [simp]:
  "row_key_id (retire r) = row_key_id r" "row_key_material (retire r) = row_key_material r"
  "row_rotates_at (retire r) = row_rotates_at r" "row_expires_at (retire r) = row_expires_at r"
  "row_created_at (retire r) = row_created_at r" "\<not> is_active (retire r)"
  by (simp_all add: retire_def is_active_def)

lemma row_ok_retire [simp]: "row_ok r \<Longrightarrow> row_ok (retire r)"
  by (auto simp: row_ok_def retire_def)

lemma map_id_retire [simp]: "map row_key_id (map retire t) = map row_key_id t"
  by simp

lemma filter_active_retire [simp]: "filter is_active (map retire t) = []"
  by (induction t) auto

lemma table_inv_retire: "table_inv t \<Longrightarrow> table_inv (map retire t)"
  by (auto simp: table_inv_def list_all_iff comp_def)

lemma table_inv_filter: "table_inv t \<Longrightarrow> table_inv (filter P t)"
proof -
  assume t: "table_inv t"
  have "length (filter is_active (filter P t)) \<le> length (filter is_active t)"
    by (induction t) auto
  with t show ?thesis by (auto simp: table_inv_def distinct_map_filter list_all_iff)
qed

lemma latest_rotation_in: "latest_rotation rs = Some r \<Longrightarrow> r \<in> set rs"
  by (induction rs arbitrary: r) (auto split: option.splits if_splits)

lemma latest_rotation_None: "latest_rotation rs = None \<longleftrightarrow> rs = []"
  by (cases rs) (auto split: option.splits)

lemma latest_rotation_max:
  "latest_rotation rs = Some r \<Longrightarrow> q \<in> set rs \<Longrightarrow> row_rotates_at q \<le> row_rotates_at r"
proof (induction rs arbitrary: r q)
  case Nil
  then show ?case by simp
next
  case (Cons a rs)
  show ?case
  proof (cases "latest_rotation rs")
    case None
    with Cons.prems show ?thesis by (auto simp: latest_rotation_None)
  next
    case (Some b)
    with Cons show ?thesis by (fastforce split: if_splits)
  qed
qed

lemma select_active_Some:
  assumes "select_active now t = Some r"
  shows "r \<in> set t" "is_active r" "now < row_rotates_at r"
  using latest_rotation_in [OF assms [unfolded select_active_def]] by (auto simp: is_active_def)

lemma select_active_None:
  "select_active now t = None \<longleftrightarrow> (\<forall>r\<in>set t. is_active r \<longrightarrow> row_rotates_at r \<le> now)"
  by (auto simp: select_active_def latest_rotation_None filter_empty_conv is_active_def)

lemma at_most_one_active:
  assumes "table_inv t" and "r \<in> set t" and "is_active r" and "q \<in> set t" and "is_active q"
  shows "r = q"
proof -
  from assms have "r \<in> set (filter is_active t)" "q \<in> set (filter is_active t)" by auto
  moreover from assms(1) have "length (filter is_active t) \<le> 1" by (simp add: table_inv_def)
  ultimately show ?thesis by (cases "filter is_active t") auto
qed

section \<open>What the operations do\<close>

text \<open>The three ways a rotation ends.\<close>

lemma rotate_key_cases:
  obtains (retire_failed) e where "retire_err env = Some e"
      "rotate_key mgr env t = (Err (''Failed to retire active broadcast keys: '' @ e), t)"
  | (insert_failed) e where "retire_err env = None"
      "insert_err env \<noteq> None \<or> rand_id env \<in> set (map row_key_id t)"
      "rotate_key mgr env t = (Err (''Failed to insert new broadcast key: '' @ e), map retire t)"
  | (rotated) key row where "retire_err env = None" "insert_err env = None"
      "rand_id env \<notin> set (map row_key_id t)"
      "rotate_key mgr env t = (Ok key, map retire t @ [row])"
      "key_id key = row_key_id row" "key_material key = row_key_material row"
      "rotates_at key = row_rotates_at row" "expires_at key = row_expires_at row"
      "row_key_id row = rand_id env" "row_key_material row = rand_material env"
      "row_created_at row = unix_now (clock_rotate env)"
      "row_rotates_at row = wrap_i64 (unix_now (clock_rotate env) + wrap_i64 (int (rotation_interval mgr)))"
      "row_expires_at row = wrap_i64 (unix_now (clock_rotate env) + wrap_i64 (int (key_expiry mgr)))"
      "is_active row"
proof (cases "retire_err env")
  case (Some e)
  then show ?thesis by (intro retire_failed) (auto simp: rotate_key_def)
next
  case None
  show ?thesis
  proof (cases "insert_err env = None \<and> rand_id env \<notin> set (map row_key_id t)")
    case True
    with None show ?thesis
      by (intro rotated) (auto simp: rotate_key_def Let_def is_active_def comp_def)
  next
    case False
    show ?thesis
    proof (cases "insert_err env")
      case None
      with False \<open>retire_err env = None\<close> show ?thesis
        by (intro insert_failed [of "unique_msg env"]) (auto simp: rotate_key_def Let_def image_image)
    next
      case (Some e)
      with \<open>retire_err env = None\<close> show ?thesis
        by (intro insert_failed [of e]) (auto simp: rotate_key_def Let_def)
    qed
  qed
qed

lemma table_inv_append:
  "table_inv t \<Longrightarrow> filter is_active t = [] \<Longrightarrow> row_ok r \<Longrightarrow> row_key_id r \<notin> set (map row_key_id t) \<Longrightarrow>
   table_inv (t @ [r])"
  by (auto simp: table_inv_def)

lemma table_inv_rotate:
  assumes "table_inv t" and "key_env_ok env"
  shows "table_inv (snd (rotate_key mgr env t))"
proof (cases rule: rotate_key_cases [of env mgr t])
  case (rotated key row)
  have "row_ok row" using rotated assms(2) by (simp add: row_ok_def key_env_ok_def is_active_def)
  moreover have "row_key_id row \<notin> set (map row_key_id (map retire t))"
    using rotated by simp
  ultimately have "table_inv (map retire t @ [row])"
    using table_inv_append [OF table_inv_retire [OF assms(1)]] by (simp del: map_map)
  with rotated show ?thesis by simp
qed (auto simp: assms(1) table_inv_retire)

lemma table_inv_get:
  assumes "table_inv t" and "key_env_ok env"
  shows "table_inv (snd (get_or_rotate_key mgr env t))"
  using table_inv_rotate [OF assms] assms(1)
  by (auto simp: get_or_rotate_key_def split: option.splits)

lemma table_inv_sweep: "table_inv t \<Longrightarrow> table_inv (snd (sweep_expired clock err t))"
  by (auto simp: sweep_expired_def Let_def table_inv_filter split: option.splits)

lemma build_key_ok:
  "row_ok r \<Longrightarrow> build_key (row_key_id r) (row_key_material r) rot exp =
   Ok \<lparr>key_id = row_key_id r, key_material = row_key_material r, rotates_at = rot, expires_at = exp\<rparr>"
  by (simp add: build_key_def row_ok_def)

text \<open>A key row as the record handed to the broadcast loop.\<close>

definition key_of_row :: "key_row \<Rightarrow> BroadcastKey" where
  "key_of_row r = \<lparr>key_id = row_key_id r, key_material = row_key_material r,
     rotates_at = row_rotates_at r, expires_at = row_expires_at r\<rparr>"

lemma get_or_rotate_key_Ok:
  assumes "table_inv t" and "get_or_rotate_key mgr env t = (Ok key, t')"
  obtains r where "r \<in> set t'" "is_active r" "key = key_of_row r"
    "t' = t \<and> unix_now (clock_get env) < row_rotates_at r \<or>
     select_active (unix_now (clock_get env)) t = None \<and> t' = map retire t @ [r] \<and>
     rotate_key mgr env t = (Ok key, t')"
proof -
  from assms(2) have q: "query_err env = None"
    by (cases "query_err env") (auto simp: get_or_rotate_key_def)
  show ?thesis
  proof (cases "select_active (unix_now (clock_get env)) t")
    case (Some r)
    note sel = select_active_Some [OF Some]
    from sel(1) assms(1) have "row_ok r" by (auto simp: table_inv_def list_all_iff)
    with assms(2) Some q have "key = key_of_row r" "t' = t"
      by (auto simp: get_or_rotate_key_def build_key_ok key_of_row_def)
    with sel show ?thesis by (intro that) auto
  next
    case None
    with assms(2) q have rot: "rotate_key mgr env t = (Ok key, t')"
      by (simp add: get_or_rotate_key_def)
    then show ?thesis
    proof (cases rule: rotate_key_cases [of env mgr t])
      case (rotated key' row)
      with rot have "key = key_of_row row" "t' = map retire t @ [row]"
        by (auto simp: key_of_row_def)
      with rotated None rot show ?thesis by (intro that [of row]) auto
    qed (use rot in auto)
  qed
qed

text \<open>Within the range of the clock nothing wraps.\<close>

lemma no_wrap:
  assumes "0 \<le> clock" and "clock + int n < 2 ^ 63"
  shows "wrap_i64 (unix_now clock + wrap_i64 (int n)) = clock + int n"
  using assms by (simp add: unix_now_def wrap_i64_id)

section \<open>Any sequence of operations on the table\<close>

datatype key_op = KeyGet key_env | KeyRotate key_env | KeySweep int "string option"

fun key_step :: "key_manager \<Rightarrow> key_op \<Rightarrow> key_table \<Rightarrow> key_table" where
  "key_step mgr (KeyGet env) t = snd (get_or_rotate_key mgr env t)"
| "key_step mgr (KeyRotate env) t = snd (rotate_key mgr env t)"
| "key_step mgr (KeySweep clock err) t = snd (sweep_expired clock err t)"

definition key_run :: "key_manager \<Rightarrow> key_op list \<Rightarrow> key_table \<Rightarrow> key_table" where
  "key_run mgr ops t = fold (key_step mgr) ops t"

text \<open>The row of a key is stored, retired if so demanded.\<close>

definition row_stored :: "bool \<Rightarrow> BroadcastKey \<Rightarrow> key_table \<Rightarrow> bool" where
  "row_stored retired key t \<longleftrightarrow> (\<exists>r\<in>set t. key = key_of_row r \<and> (retired \<longrightarrow> \<not> is_active r))"

lemma key_of_row_retire [simp]: "key_of_row (retire r) = key_of_row r"
  by (simp add: key_of_row_def)

lemma retire_idem [simp]: "retire (retire r) = retire r"
  by (simp add: retire_def)

lemma row_stored_retire: "row_stored b key t \<Longrightarrow> row_stored c key (map retire t @ rs)"
  unfolding row_stored_def by (metis UnI1 imageI key_of_row_retire list.set_map retire_simps(6) set_append)

lemma row_stored_rotate: "row_stored b key t \<Longrightarrow> row_stored b key (snd (rotate_key mgr env t))"
  by (cases rule: rotate_key_cases [of env mgr t])
    (auto dest: row_stored_retire [where rs = "[]"] intro: row_stored_retire)

lemma row_stored_rotated:
  "rotate_key mgr env t = (Ok key', t') \<Longrightarrow> row_stored b key t \<Longrightarrow> row_stored True key t'"
  by (cases rule: rotate_key_cases [of env mgr t]) (auto intro: row_stored_retire)

lemma row_stored_step:
  assumes "row_stored b key t" and "\<And>clock. op = KeySweep clock None \<Longrightarrow> unix_now clock < expires_at key"
  shows "row_stored b key (key_step mgr op t)"
proof (cases op)
  case (KeySweep clock err)
  then show ?thesis
    using assms by (cases err) (auto simp: row_stored_def sweep_expired_def Let_def key_of_row_def)
qed (use assms(1) row_stored_rotate in \<open>auto simp: get_or_rotate_key_def split: option.splits\<close>)

lemma row_stored_run:
  assumes "row_stored b key t" and "\<And>clock. KeySweep clock None \<in> set ops \<Longrightarrow> unix_now clock < expires_at key"
  shows "row_stored b key (key_run mgr ops t)"
  using assms unfolding key_run_def
  by (induction ops arbitrary: t) (auto simp: row_stored_step)

section \<open>Hexadecimal fields and slots\<close>

lemma hex_encode_simps [simp]:
  "hex_encode [] = []" "hex_encode (b # bs) = show_hex_byte b @ hex_encode bs"
  by (simp_all add: hex_encode_def)

lemma length_hex_encode [simp]: "length (hex_encode bs) = 2 * length bs"
  by (induction bs) (auto simp: show_hex_byte_def)

text \<open>The receiver's decoder, the inverse of \<^const>\<open>hex_encode\<close>.\<close>

fun hex_decode :: "string \<Rightarrow> bytes option" where
  "hex_decode [] = Some []"
| "hex_decode [c] = None"
| "hex_decode (c # d # cs) =
     (case (hex_value c, hex_value d, hex_decode cs) of
        (Some h, Some l, Some bs) \<Rightarrow> Some (of_nat (16 * h + l) # bs)
      | _ \<Rightarrow> None)"

lemma unat_byte_bound: "unat (b :: u8) < 256"
  using unsigned_less [of b] by simp

lemma hex_decode_encode [simp]: "hex_decode (hex_encode bs) = Some bs"
proof (induction bs)
  case Nil
  then show ?case by simp
next
  case (Cons b bs)
  have "unat b div 16 < 16" "unat b mod 16 < 16" using unat_byte_bound [of b] by auto
  moreover have "(of_nat (16 * (unat b div 16) + unat b mod 16) :: u8) = b"
    by (simp only: mult_div_mod_eq) simp
  ultimately show ?case
    using Cons by (simp add: show_hex_byte_def del: of_nat_add of_nat_mult)
qed

lemma hex_encode_inj: "hex_encode bs = hex_encode cs \<Longrightarrow> bs = cs"
  by (metis hex_decode_encode option.inject)

fun from_be :: "nat \<Rightarrow> bytes \<Rightarrow> nat" where
  "from_be acc [] = acc"
| "from_be acc (b # bs) = from_be (256 * acc + unat b) bs"

lemma from_be_to_be_bytes: "from_be 0 (to_be_bytes w) = unat w"
proof -
  let ?n = "unat w"
  have "?n < 2 ^ 64" using unsigned_less [of w] by simp
  then have top: "?n div 256 ^ 7 mod 256 = ?n div 256 ^ 7"
    by (simp add: div_less_iff_less_mult)
  have b: "unat (of_nat k :: u8) = k mod 256" for k
    by (simp add: unat_of_nat)
  have step: "256 * (?n div 256 ^ (i + 1)) + ?n div 256 ^ i mod 256 = ?n div 256 ^ i" for i
    using mult_div_mod_eq [of 256 "?n div 256 ^ i"] by (simp add: div_mult2_eq [symmetric] mult.commute)
  show ?thesis
    using step [of 6] step [of 5] step [of 4] step [of 3] step [of 2] step [of 1] step [of 0] top
    unfolding to_be_bytes_def list.map from_be.simps b by simp
qed

lemma to_be_bytes_inj: "to_be_bytes v = to_be_bytes w \<Longrightarrow> v = w"
  by (metis from_be_to_be_bytes unsigned_word_eqI)


lemma unat_of_int_clock: "0 \<le> clock \<Longrightarrow> clock < 2 ^ 63 \<Longrightarrow> unat (of_int clock :: u64) = nat clock"
proof -
  assume "0 \<le> clock" "clock < 2 ^ 63"
  then have "uint (of_int clock :: u64) = clock"
    by (simp add: uint_word_of_int take_bit_int_eq_self)
  then show ?thesis by (metis unat_eq_nat_uint)
qed

lemma unat_token_slot:
  assumes "0 \<le> clock" "clock < 2 ^ 63" "rotation_interval mgr < 2 ^ 64"
  shows "unat (token_slot mgr clock) = nat clock div max (rotation_interval mgr) 1"
proof -
  let ?s = "max (rotation_interval mgr) 1"
  have "unat (of_nat ?s :: u64) = ?s"
    using assms(3) by (simp add: unat_of_nat max_def)
  moreover have "unix_now clock = clock"
    using assms by (simp add: unix_now_def wrap_i64_id)
  ultimately show ?thesis
    using assms unat_of_int_clock [of clock] by (simp add: token_slot_def Let_def unat_div)
qed

section \<open>Properties\<close>

text \<open>Claim C5. The key returned by a successful \<^verbatim>\<open>get_or_rotate_key\<close> is the one active row of the
  table it leaves behind, every other row is retired, and the key is either not yet due for rotation
  at the clock reading of the query or was created by this very call with the full rotation interval
  ahead of it.\<close>

theorem get_or_rotate_key_current:
  assumes "table_inv t" and "key_env_ok env"
    and "0 \<le> clock_rotate env" and "clock_rotate env + int (rotation_interval mgr) < 2 ^ 63"
    and "get_or_rotate_key mgr env t = (Ok key, t')"
  shows "\<exists>r\<in>set t'. key = key_of_row r \<and> is_active r \<and> (\<forall>q\<in>set t'. is_active q \<longrightarrow> q = r) \<and>
    (t' = t \<and> unix_now (clock_get env) < rotates_at key \<or>
     key_id key = rand_id env \<and> rotates_at key = clock_rotate env + int (rotation_interval mgr))"
proof -
  from assms(1,5) obtain r where r: "r \<in> set t'" "is_active r" "key = key_of_row r"
    and or: "t' = t \<and> unix_now (clock_get env) < row_rotates_at r \<or>
     select_active (unix_now (clock_get env)) t = None \<and> t' = map retire t @ [r] \<and>
     rotate_key mgr env t = (Ok key, t')"
    by (rule get_or_rotate_key_Ok)
  have "table_inv t'" using table_inv_get [OF assms(1,2), of mgr] assms(5) by simp
  then have one: "\<forall>q\<in>set t'. is_active q \<longrightarrow> q = r"
    using r at_most_one_active by blast
  from or have "t' = t \<and> unix_now (clock_get env) < rotates_at key \<or>
     key_id key = rand_id env \<and> rotates_at key = clock_rotate env + int (rotation_interval mgr)"
  proof (elim disjE conjE)
    assume rot: "rotate_key mgr env t = (Ok key, t')"
    then show ?thesis
      using no_wrap [OF assms(3,4)] by (cases rule: rotate_key_cases [of env mgr t]) auto
  qed (use r in \<open>auto simp: key_of_row_def\<close>)
  with r one show ?thesis by blast
qed

text \<open>A manager with the default intervals, an environment and a table for the witnesses.\<close>

definition demo_mgr :: key_manager where
  "demo_mgr = \<lparr>rotation_interval = 3600, key_expiry = 7200\<rparr>"

definition demo_env :: "int \<Rightarrow> u8 \<Rightarrow> key_env" where
  "demo_env c b = \<lparr>clock_get = c, clock_rotate = c, rand_material = replicate 16 b,
     rand_id = replicate 4 b, query_err = None, retire_err = None, insert_err = None,
     unique_msg = ''UNIQUE constraint failed: broadcast_keys.key_id''\<rparr>"

definition demo_table :: key_table where
  "demo_table = [\<lparr>row_key_id = replicate 4 7, row_key_material = replicate 16 7,
     row_created_at = 1000, row_rotates_at = 4600, row_expires_at = 8200, row_is_active = 1\<rparr>]"

lemmas demo_defs = demo_mgr_def demo_env_def demo_table_def

lemma demo_table_inv: "table_inv demo_table"
  by (simp add: demo_table_def table_inv_def row_ok_def is_active_def)

lemma demo_env_ok: "key_env_ok (demo_env c b)"
  by (simp add: demo_env_def key_env_ok_def)

lemma demo_rotation:
  "get_or_rotate_key demo_mgr (demo_env 5000 9) demo_table =
   (Ok \<lparr>key_id = replicate 4 9, key_material = replicate 16 9, rotates_at = 8600, expires_at = 12200\<rparr>,
    [\<lparr>row_key_id = replicate 4 7, row_key_material = replicate 16 7,
      row_created_at = 1000, row_rotates_at = 4600, row_expires_at = 8200, row_is_active = 0\<rparr>,
     \<lparr>row_key_id = replicate 4 9, row_key_material = replicate 16 9,
      row_created_at = 5000, row_rotates_at = 8600, row_expires_at = 12200, row_is_active = 1\<rparr>])"
  by (simp add: get_or_rotate_key_def select_active_def rotate_key_def retire_def unix_now_def
      wrap_i64_def demo_defs eval_nat_numeral)

theorem get_or_rotate_key_current_witness:
  "\<exists>key t'. get_or_rotate_key demo_mgr (demo_env 5000 9) demo_table = (Ok key, t') \<and>
     (\<exists>r\<in>set t'. key = key_of_row r \<and> is_active r \<and> (\<forall>q\<in>set t'. is_active q \<longrightarrow> q = r) \<and>
      (t' = demo_table \<and> unix_now (clock_get (demo_env 5000 9)) < rotates_at key \<or>
       key_id key = rand_id (demo_env 5000 9) \<and>
       rotates_at key = clock_rotate (demo_env 5000 9) + int (rotation_interval demo_mgr)))"
proof -
  have "0 \<le> clock_rotate (demo_env 5000 9)"
    and "clock_rotate (demo_env 5000 9) + int (rotation_interval demo_mgr) < 2 ^ 63"
    by (simp_all add: demo_defs)
  from get_or_rotate_key_current [OF demo_table_inv demo_env_ok this demo_rotation] demo_rotation
  show ?thesis by blast
qed

text \<open>Claim C23. The two statements of a rotation are not one transaction: when the insert is refused
  (a collision of the random 4-byte identifier, or a database error) the call returns an error with
  every key already retired and no row lost, and the next call with a fresh identifier and a working
  database returns a new key and appends its row, the only active one, to those rows.\<close>

theorem rotation_failure_recovers:
  assumes "table_inv t" and "retire_err env = None"
    and "insert_err env \<noteq> None \<or> rand_id env \<in> set (map row_key_id t)"
    and "query_err env = None" and "select_active (unix_now (clock_get env)) t = None"
    and "query_err env' = None" and "retire_err env' = None" and "insert_err env' = None"
    and "rand_id env' \<notin> set (map row_key_id t)"
  shows "\<exists>e t1 key row. get_or_rotate_key mgr env t = (Err e, t1) \<and>
    map row_key_id t1 = map row_key_id t \<and> map key_of_row t1 = map key_of_row t \<and> (\<forall>r\<in>set t1. \<not> is_active r) \<and>
    get_or_rotate_key mgr env' t1 = (Ok key, t1 @ [row]) \<and> key_id key = rand_id env' \<and>
    is_active row \<and> key = key_of_row row"
proof -
  obtain e where rot: "rotate_key mgr env t = (Err e, map retire t)"
    using assms(2,3) by (cases rule: rotate_key_cases [of env mgr t]) auto
  then have get: "get_or_rotate_key mgr env t = (Err e, map retire t)"
    using assms(4,5) by (simp add: get_or_rotate_key_def)
  have sel: "select_active (unix_now (clock_get env')) (map retire t) = None"
    by (auto simp: select_active_None)
  have twice: "map retire (map retire t) = map retire t" by simp
  have "\<exists>key row. rotate_key mgr env' (map retire t) = (Ok key, map retire t @ [row]) \<and> key_id key = rand_id env' \<and>
      is_active row \<and> key = key_of_row row"
    using assms(7-9) twice
    by (cases rule: rotate_key_cases [of env' mgr "map retire t"]) (auto simp: key_of_row_def simp del: map_map)
  then obtain key row where "get_or_rotate_key mgr env' (map retire t) = (Ok key, map retire t @ [row])"
    "key_id key = rand_id env'" "is_active row" "key = key_of_row row"
    using sel assms(6) by (auto simp: get_or_rotate_key_def)
  moreover have "map key_of_row (map retire t) = map key_of_row t" by simp
  ultimately show ?thesis using get map_id_retire [of t] by (intro exI [of _ e] exI [of _ "map retire t"]) auto
qed

theorem rotation_failure_recovers_witness:
  "\<exists>e t1 key row. get_or_rotate_key demo_mgr (demo_env 5000 7) demo_table = (Err e, t1) \<and>
    map row_key_id t1 = map row_key_id demo_table \<and> map key_of_row t1 = map key_of_row demo_table \<and>
    (\<forall>r\<in>set t1. \<not> is_active r) \<and>
    get_or_rotate_key demo_mgr (demo_env 5060 9) t1 = (Ok key, t1 @ [row]) \<and>
    key_id key = rand_id (demo_env 5060 9) \<and> is_active row \<and> key = key_of_row row"
proof (rule rotation_failure_recovers [OF demo_table_inv])
  show "select_active (unix_now (clock_get (demo_env 5000 7))) demo_table = None"
    by (simp add: select_active_def demo_defs unix_now_def wrap_i64_def)
qed (simp_all add: demo_defs eval_nat_numeral)

text \<open>Claim C24. A retired key never becomes active again: after either operation a row that carries the
  identifier of an inactive row is still inactive.\<close>

theorem retired_stays_retired:
  assumes "table_inv t" and "r \<in> set t" and "\<not> is_active r"
    and "t' = snd (get_or_rotate_key mgr env t) \<or> t' = snd (sweep_expired clock err t)"
    and "q \<in> set t'" and "row_key_id q = row_key_id r"
  shows "\<not> is_active q"
proof -
  have same: "q \<in> set t \<Longrightarrow> q = r"
    using assms(1,2,6) by (auto simp: table_inv_def distinct_map inj_on_def)
  have rot: "t' = snd (rotate_key mgr env t) \<Longrightarrow> \<not> is_active q"
    using assms(2,3,5,6) same by (cases rule: rotate_key_cases [of env mgr t]) auto
  from assms(4) consider "t' = t" | "t' = snd (rotate_key mgr env t)"
    | "t' = filter (\<lambda>r. \<not> row_expires_at r \<le> unix_now clock) t"
    by (auto simp: get_or_rotate_key_def sweep_expired_def Let_def split: option.splits)
  then show ?thesis using rot same assms(3,5) by cases auto
qed

theorem retired_stays_retired_witness:
  "\<not> is_active (hd (snd (get_or_rotate_key demo_mgr (demo_env 5060 3)
      (snd (get_or_rotate_key demo_mgr (demo_env 5000 9) demo_table)))))"
proof -
  let ?t = "snd (get_or_rotate_key demo_mgr (demo_env 5000 9) demo_table)"
  let ?t' = "snd (get_or_rotate_key demo_mgr (demo_env 5060 3) ?t)"
  have eq: "?t' = ?t"
    unfolding demo_rotation
    by (simp add: get_or_rotate_key_def select_active_def demo_env_def unix_now_def wrap_i64_def)
  have "table_inv ?t" by (rule table_inv_get [OF demo_table_inv demo_env_ok])
  moreover have "hd ?t \<in> set ?t" "\<not> is_active (hd ?t)"
    by (simp_all add: demo_rotation is_active_def)
  ultimately show ?thesis
    using retired_stays_retired [of ?t "hd ?t" ?t' demo_mgr "demo_env 5060 3" 0 None "hd ?t'"]
    by (simp add: eq)
qed

text \<open>A successful sweep deletes exactly the expired rows, keeps the others in order and
  reports how many it deleted.\<close>

theorem sweep_expired_exact:
  "\<exists>n t'. sweep_expired clock None t = (Ok n, t') \<and>
     t' = filter (\<lambda>r. unix_now clock < row_expires_at r) t \<and>
     n = length (filter (\<lambda>r. row_expires_at r \<le> unix_now clock) t) \<and> n + length t' = length t"
proof -
  have "length (filter (\<lambda>r. row_expires_at r \<le> unix_now clock) t) +
      length (filter (\<lambda>r. \<not> row_expires_at r \<le> unix_now clock) t) = length t"
    by (rule sum_length_filter_compl)
  then show ?thesis
    by (auto simp: sweep_expired_def Let_def not_le)
qed

text \<open>Claim C25. The retention of a retired key counts from its creation, not from its rotation. Let a
  key be created by a rotation, later be retired by another rotation, and let any lookups, rotations
  and sweeps happen before, between and after, with no successful sweep as late as \<open>key_expiry -
  rotation_interval\<close> seconds after the key's own rotation deadline. Then its row is still there,
  inactive and unchanged, and the next sweep deletes it exactly when the clock has reached that
  moment. When that difference is not positive the key is thus deleted no later than its own deadline,
  whatever the configuration says about retention.\<close>

theorem retention_counts_from_creation:
  assumes "rotate_key mgr env t = (Ok key, t1)"
    and "0 \<le> clock_rotate env" and "clock_rotate env + int (rotation_interval mgr) < 2 ^ 63"
    and "clock_rotate env + int (key_expiry mgr) < 2 ^ 63"
    and "deadline = rotates_at key + (int (key_expiry mgr) - int (rotation_interval mgr))"
    and "rotate_key mgr env2 (key_run mgr ops1 t1) = (Ok key2, t2)" and "t3 = key_run mgr ops2 t2"
    and "\<forall>clock. KeySweep clock None \<in> set (ops1 @ ops2) \<longrightarrow> unix_now clock < deadline"
    and "0 \<le> clock" and "clock < 2 ^ 63"
  shows "\<exists>r\<in>set t3. key = key_of_row r \<and> \<not> is_active r \<and>
    (r \<notin> set (snd (sweep_expired clock None t3)) \<longleftrightarrow> deadline \<le> clock)"
proof -
  have k: "row_stored False key t1 \<and> expires_at key = deadline"
    using assms(1)
  proof (cases rule: rotate_key_cases [of env mgr t])
    case (rotated key' row)
    then show ?thesis
      using no_wrap [OF assms(2,3)] no_wrap [OF assms(2,4)] assms(1,5) by (auto simp: row_stored_def key_of_row_def)
  qed auto
  have "row_stored False key (key_run mgr ops1 t1)"
    by (rule row_stored_run) (use k assms(8) in auto)
  from row_stored_rotated [OF assms(6) this] have "row_stored True key t2" .
  then have "row_stored True key t3" unfolding assms(7)
    by (rule row_stored_run) (use k assms(8) in auto)
  then obtain r where r: "r \<in> set t3" "key = key_of_row r" "\<not> is_active r" by (auto simp: row_stored_def)
  have "unix_now clock = clock" using assms(9,10) by (simp add: unix_now_def wrap_i64_id)
  with r k show ?thesis
    by (intro bexI [of _ r]) (auto simp: sweep_expired_def Let_def key_of_row_def)
qed

theorem retention_counts_from_creation_witness:
  "\<exists>key t1 key2 t2. rotate_key demo_mgr (demo_env 5000 9) [] = (Ok key, t1) \<and>
     rotate_key demo_mgr (demo_env 8600 8) (key_run demo_mgr [KeySweep 8600 None] t1) = (Ok key2, t2) \<and>
     (\<exists>r\<in>set t2. key = key_of_row r \<and> r \<notin> set (snd (sweep_expired 12200 None t2)))"
proof -
  obtain key t1 where rot: "rotate_key demo_mgr (demo_env 5000 9) [] = (Ok key, t1)"
    and key: "rotates_at key = 8600" and ids: "map row_key_id t1 = [replicate 4 9]"
    by (simp add: rotate_key_def demo_defs unix_now_def wrap_i64_def)
  have "set (map row_key_id (key_run demo_mgr [KeySweep 8600 None] t1)) \<subseteq> {replicate 4 9}"
    using ids by (auto simp: key_run_def sweep_expired_def Let_def)
  then have "rand_id (demo_env 8600 8) \<notin> set (map row_key_id (key_run demo_mgr [KeySweep 8600 None] t1))"
    by (auto simp: demo_defs eval_nat_numeral)
  then obtain key2 t2 where rot2: "rotate_key demo_mgr (demo_env 8600 8) (key_run demo_mgr [KeySweep 8600 None] t1) = (Ok key2, t2)"
    by (cases rule: rotate_key_cases [of "demo_env 8600 8" demo_mgr "key_run demo_mgr [KeySweep 8600 None] t1"])
      (auto simp: demo_defs)
  have c: "rotates_at key + (int (key_expiry demo_mgr) - int (rotation_interval demo_mgr)) = 12200"
    by (simp add: key demo_mgr_def)
  have "\<exists>r\<in>set t2. key = key_of_row r \<and> \<not> is_active r \<and>
      (r \<notin> set (snd (sweep_expired 12200 None t2)) \<longleftrightarrow> (12200 :: int) \<le> 12200)"
    using retention_counts_from_creation [OF rot _ _ _ c [symmetric] rot2, of t2 "[]" 12200]
    by (simp add: demo_defs key_run_def unix_now_def wrap_i64_def)
  with rot rot2 show ?thesis by auto
qed

text \<open>Claim C26. The over-the-air fields are two strings of eight lowercase hexadecimal digits that
  decode to the key identifier and to the first four bytes of the authenticator. The only fact used
  of HMAC-SHA256 is its 32-byte output.\<close>

theorem ota_fields_shape:
  assumes "\<And>k m. length (hmac k m) = 32" and "length (key_id key) = 4"
    and "ota_fields hmac mgr clock key = (kid, tok)"
  shows "length kid = 8 \<and> length tok = 8 \<and> hex_decode kid = Some (key_id key) \<and>
    hex_decode tok = Some (take 4 (hmac (key_material key) (to_be_bytes (token_slot mgr clock))))"
  using assms by (auto simp: ota_fields_def generate_token_def)

theorem ota_fields_shape_witness:
  "\<exists>kid tok. ota_fields (\<lambda>k m. take 32 (k @ m @ replicate 32 0)) demo_mgr 5000 (key_of_row (hd demo_table))
      = (kid, tok) \<and> length kid = 8 \<and> length tok = 8 \<and> hex_decode kid = Some [7, 7, 7, 7]"
proof -
  let ?h = "\<lambda>k m. take 32 (k @ m @ replicate 32 0) :: bytes"
  have "length (?h k m) = 32" for k m by simp
  moreover have "length (key_id (key_of_row (hd demo_table))) = 4"
    by (simp add: key_of_row_def demo_table_def)
  ultimately show ?thesis
    using ota_fields_shape [of ?h "key_of_row (hd demo_table)" demo_mgr 5000]
    by (auto simp: ota_fields_def key_of_row_def demo_table_def eval_nat_numeral)
qed

text \<open>Claim C27. Two broadcasts authenticate the same eight-byte message exactly when they fall into the
  same slot of \<open>rotation_interval\<close> seconds (of one second when the interval is zero); so a token stays
  valid for its slot and the message changes with every slot.\<close>

theorem token_message_iff_same_slot:
  assumes "0 \<le> c1" "c1 < 2 ^ 63" "0 \<le> c2" "c2 < 2 ^ 63" "rotation_interval mgr < 2 ^ 32"
  shows "to_be_bytes (token_slot mgr c1) = to_be_bytes (token_slot mgr c2) \<longleftrightarrow>
    c1 div max (int (rotation_interval mgr)) 1 = c2 div max (int (rotation_interval mgr)) 1"
proof -
  let ?m = "max (rotation_interval mgr) 1"
  have m: "max (int (rotation_interval mgr)) 1 = int ?m" by simp
  have "rotation_interval mgr < 2 ^ 64" using assms(5) by simp
  then have "to_be_bytes (token_slot mgr c1) = to_be_bytes (token_slot mgr c2) \<longleftrightarrow>
      nat c1 div ?m = nat c2 div ?m"
    using assms unat_token_slot by (metis to_be_bytes_inj unsigned_word_eqI)
  also have "\<dots> \<longleftrightarrow> int (nat c1 div ?m) = int (nat c2 div ?m)" by simp
  also have "\<dots> \<longleftrightarrow> c1 div int ?m = c2 div int ?m"
    using assms by (simp add: of_nat_div)
  finally show ?thesis unfolding m .
qed

theorem token_message_iff_same_slot_witness:
  "to_be_bytes (token_slot demo_mgr 3600) = to_be_bytes (token_slot demo_mgr 7199) \<and>
   to_be_bytes (token_slot demo_mgr 7199) \<noteq> to_be_bytes (token_slot demo_mgr 7200)"
  using token_message_iff_same_slot [of 3600 7199 demo_mgr] token_message_iff_same_slot [of 7199 7200 demo_mgr]
  by (simp add: demo_mgr_def)

end
