(* ===== verification/Broadcast.thy ===== *)
theory Broadcast
  imports Key_Management Beacon_Loop
begin

text \<open>
  The broadcast loop (\<^verbatim>\<open>BroadcastState::run_broadcast_loop\<close> of \<^verbatim>\<open>src/app.rs\<close>): one cycle obtains the
  current key, sweeps expired keys, builds the payload and publishes it to every topic of the shared
  list. The loop relies on the key manager through the interface \<open>key_store\<close>, which is interpreted
  on \<^const>\<open>get_or_rotate_key\<close> and \<^const>\<open>sweep_expired\<close>. The lemmas show that every cycle keeps the
  table well formed, and what a cycle publishes.
\<close>

section \<open>Definitions\<close>

text \<open>The environment of one cycle: that of the key query, the clock and error of the sweep, and the
  clock of the token.\<close>

record cycle_env =
  cy_key :: key_env
  cy_sweep_clock :: int
  cy_sweep_err :: "string option"
  cy_token_clock :: int

record publication =
  pb_topic :: string
  pb_qos :: QoS
  pb_payload :: json

definition broadcast_payload :: "string \<Rightarrow> string \<times> string \<Rightarrow> json" where
  "broadcast_payload server_url ota =
     JObject [(''url'', JString server_url), (''kid'', JString (fst ota)), (''tok'', JString (snd ota))]"

definition broadcast_cycle ::
  "(bytes \<Rightarrow> bytes \<Rightarrow> bytes) \<Rightarrow> key_manager \<Rightarrow> string \<Rightarrow> cycle_env \<Rightarrow> string list \<Rightarrow> key_table \<Rightarrow>
   publication list \<times> key_table" where
  "broadcast_cycle hmac mgr server_url env topics t =
     (case get_or_rotate_key mgr (cy_key env) t of
        (Err e, t1) \<Rightarrow> ([], t1)
      | (Ok key, t1) \<Rightarrow>
          (case sweep_expired (cy_sweep_clock env) (cy_sweep_err env) t1 of
             (r, t2) \<Rightarrow>
               let payload = broadcast_payload server_url (ota_fields hmac mgr (cy_token_clock env) key)
               in (map (\<lambda>topic. \<lparr>pb_topic = topic, pb_qos = AtLeastOnce, pb_payload = payload\<rparr>) topics, t2)))"

text \<open>With jitter, a pause of one to ten seconds precedes each publication and the rest of the interval
  follows the last one; without it the loop waits for the next tick only.\<close>

definition jitter_secs :: "u64 \<Rightarrow> nat" where
  "jitter_secs r = unat (r mod 10 + 1)"

definition cycle_pauses :: "bool \<Rightarrow> u16 \<Rightarrow> u64 list \<Rightarrow> nat \<Rightarrow> nat list" where
  "cycle_pauses use_jitter broadcast_interval rands elapsed =
     (if use_jitter
      then map jitter_secs rands @
        (let remaining = unat broadcast_interval - elapsed in if remaining = 0 then [] else [remaining])
      else [])"

text \<open>The loop: each cycle finds the topics of its time.\<close>

fun run_broadcast_loop ::
  "(bytes \<Rightarrow> bytes \<Rightarrow> bytes) \<Rightarrow> key_manager \<Rightarrow> string \<Rightarrow> (cycle_env \<times> string list) list \<Rightarrow> key_table \<Rightarrow>
   publication list list \<times> key_table" where
  "run_broadcast_loop hmac mgr server_url [] t = ([], t)"
| "run_broadcast_loop hmac mgr server_url ((env, topics) # cycles) t =
     (case broadcast_cycle hmac mgr server_url env topics t of
        (ps, t1) \<Rightarrow> (case run_broadcast_loop hmac mgr server_url cycles t1 of (pss, t2) \<Rightarrow> (ps # pss, t2)))"

section \<open>The interface of the key manager\<close>

locale key_store =
  fixes get_key :: "'e \<Rightarrow> 't \<Rightarrow> 'key result \<times> 't" and sweep :: "int \<Rightarrow> string option \<Rightarrow> 't \<Rightarrow> nat result \<times> 't"
    and inv :: "'t \<Rightarrow> bool" and env_ok :: "'e \<Rightarrow> bool" and good :: "'key \<Rightarrow> bool"
  assumes get_inv: "inv t \<Longrightarrow> env_ok e \<Longrightarrow> inv (snd (get_key e t))"
    and sweep_inv: "inv t \<Longrightarrow> inv (snd (sweep c err t))"
    and get_good: "inv t \<Longrightarrow> env_ok e \<Longrightarrow> get_key e t = (Ok key, t') \<Longrightarrow> good key"
begin

text \<open>The state after a cycle that uses the key manager this way.\<close>

lemma cycle_inv:
  assumes "inv t" and "env_ok e" and "get_key e t = (r, t1)"
  shows "inv t1" and "inv (snd (sweep c err t1))"
  using get_inv [OF assms(1,2)] sweep_inv assms(3) by auto

end

definition key_shape :: "BroadcastKey \<Rightarrow> bool" where
  "key_shape key \<longleftrightarrow> length (key_id key) = 4 \<and> length (key_material key) = 16"

lemma get_or_rotate_key_shape:
  assumes "table_inv t" and "key_env_ok env" and "get_or_rotate_key mgr env t = (Ok key, t')"
  shows "key_shape key"
proof -
  obtain r where r: "r \<in> set t'" "key = key_of_row r" by (rule get_or_rotate_key_Ok [OF assms(1,3)]) blast
  have "table_inv t'" using table_inv_get [OF assms(1,2), of mgr] assms(3) by simp
  with r show ?thesis by (auto simp: table_inv_def list_all_iff row_ok_def key_of_row_def key_shape_def)
qed

interpretation keys: key_store "get_or_rotate_key mgr" sweep_expired table_inv key_env_ok key_shape for mgr
  by unfold_locales (auto intro: table_inv_get table_inv_sweep get_or_rotate_key_shape)

section \<open>Lemmas\<close>

lemma broadcast_cycle_inv:
  assumes "table_inv t" and "key_env_ok (cy_key env)"
  shows "table_inv (snd (broadcast_cycle hmac mgr server_url env topics t))"
proof -
  obtain r t1 where g: "get_or_rotate_key mgr (cy_key env) t = (r, t1)" by fastforce
  from keys.cycle_inv [OF assms g] show ?thesis
    by (cases r) (simp_all add: broadcast_cycle_def g Let_def split_beta)
qed

lemma run_broadcast_loop_inv:
  "table_inv t \<Longrightarrow> \<forall>(env, topics)\<in>set cycles. key_env_ok (cy_key env) \<Longrightarrow>
   table_inv (snd (run_broadcast_loop hmac mgr server_url cycles t))"
proof (induction hmac mgr server_url cycles t rule: run_broadcast_loop.induct)
  case (2 hmac mgr server_url env topics cycles t)
  have "table_inv (snd (broadcast_cycle hmac mgr server_url env topics t))"
    using broadcast_cycle_inv 2(2,3) by auto
  with 2 show ?case by (auto split: prod.splits)
qed simp

lemma broadcast_cycle_publishes:
  assumes "table_inv t" and "key_env_ok (cy_key env)" and "\<And>k m. length (hmac k m) = 32"
    and "broadcast_cycle hmac mgr server_url env topics t = (pubs, t')"
  shows "(\<exists>e. fst (get_or_rotate_key mgr (cy_key env) t) = Err e) \<and> pubs = [] \<or>
    (\<exists>key kid tok. fst (get_or_rotate_key mgr (cy_key env) t) = Ok key \<and> length kid = 8 \<and> length tok = 8 \<and>
       hex_decode kid = Some (key_id key) \<and>
       pubs = map (\<lambda>topic. \<lparr>pb_topic = topic, pb_qos = AtLeastOnce, pb_payload = broadcast_payload server_url (kid, tok)\<rparr>) topics)"
proof -
  obtain r t1 where g: "get_or_rotate_key mgr (cy_key env) t = (r, t1)" by fastforce
  show ?thesis
  proof (cases r)
    case (Inl e)
    with g assms(4) show ?thesis by (auto simp: broadcast_cycle_def)
  next
    case (Inr key)
    have "key_shape key" using keys.get_good [OF assms(1,2)] g Inr by blast
    then have len: "length (key_id key) = 4" by (simp add: key_shape_def)
    obtain kid tok where o: "ota_fields hmac mgr (cy_token_clock env) key = (kid, tok)" by fastforce
    then have "kid = hex_encode (key_id key)" "tok = hex_encode (generate_token hmac mgr (cy_token_clock env) key)"
      by (simp_all add: ota_fields_def)
    then have "length kid = 8" "length tok = 8" "hex_decode kid = Some (key_id key)"
      using len assms(3) by (simp_all add: generate_token_def)
    with g Inr o assms(4) show ?thesis by (auto simp: broadcast_cycle_def Let_def split: prod.splits)
  qed
qed

lemma jitter_secs_range: "1 \<le> jitter_secs r \<and> jitter_secs r \<le> 10"
proof -
  have "unat (r mod 10) < 10" by (simp add: unat_mod)
  then have "unat (r mod 10 + 1) = unat (r mod 10) + 1" by (simp add: unat_word_ariths)
  with \<open>unat (r mod 10) < 10\<close> show ?thesis by (simp add: jitter_secs_def)
qed

end
