(* ===== verification/App.thy ===== *)
theory App
  imports Http Gateway_Connections Broadcast
begin

text \<open>
  Startup (\<^verbatim>\<open>App::initialize\<close> of \<^verbatim>\<open>src/app.rs\<close>): detection of the installed binaries
  (\<^verbatim>\<open>src/services/capabilities.rs\<close>), the password file and certificate files of the broker
  (\<^verbatim>\<open>mqtt_brokerage/mosquitto_brokerage_service.rs\<close>), the registration and start functions of the five
  \<^verbatim>\<open>manager.rs\<close> files, and their composition. Commands and file writes that fail are values of the
  environment; the process exits are values of the result. The lemmas show which services exist after
  startup and in which status.
\<close>

section \<open>Capabilities\<close>

record BinaryInfo =
  bn_path :: string
  bn_version :: "string option"

type_synonym ServiceCapabilities = "string \<rightharpoonup> BinaryInfo option"

definition is_available :: "ServiceCapabilities \<Rightarrow> string \<Rightarrow> bool" where
  "is_available caps b = (case caps b of Some info \<Rightarrow> info \<noteq> None | None \<Rightarrow> False)"

definition binary_path :: "ServiceCapabilities \<Rightarrow> string \<Rightarrow> string option" where
  "binary_path caps b = map_option bn_path (Option.bind (caps b) (\<lambda>info. info))"

text \<open>The output of a command: whether it succeeded, its standard output and its standard error.\<close>

record command_output =
  co_success :: bool
  co_stdout :: string
  co_stderr :: string

text \<open>\<^verbatim>\<open>str::lines().next()\<close>: nothing for the empty text, and a carriage return before the line break
  belongs to it.\<close>

definition first_line :: "string \<Rightarrow> string option" where
  "first_line s =
     (if s = [] then None
      else if newline \<in> set s
      then let l = takeWhile (\<lambda>c. c \<noteq> newline) s
           in Some (if l \<noteq> [] \<and> last l = CHR 0x0D then butlast l else l)
      else Some s)"

text \<open>\<open>run\<close> executes a program with one argument, if it can be executed.\<close>

definition detect_binary :: "(string \<Rightarrow> string \<Rightarrow> command_output option) \<Rightarrow> string \<Rightarrow> BinaryInfo option" where
  "detect_binary run name =
     (case run ''which'' name of
        None \<Rightarrow> None
      | Some out \<Rightarrow>
          if \<not> co_success out then None
          else
            let path = trim (co_stdout out);
                version = Option.bind (run path ''--version'') (\<lambda>o1.
                  let text = (if co_stdout o1 = [] then co_stderr o1 else co_stdout o1)
                  in Option.bind (first_line text) (\<lambda>l.
                       let f = trim l in if f = [] then None else Some f))
            in Some \<lparr>bn_path = path, bn_version = version\<rparr>)"

definition detect_capabilities ::
  "(string \<Rightarrow> string \<Rightarrow> command_output option) \<Rightarrow> string list \<Rightarrow> ServiceCapabilities" where
  "detect_capabilities run required = fold (\<lambda>name m. m(name \<mapsto> detect_binary run name)) required Map.empty"

section \<open>The broker's files\<close>

datatype passwd_command = PasswdCreate path string string | PasswdUpdate path string string | PasswdDelete path string

definition passwd_result :: "command_output result \<Rightarrow> unit result" where
  "passwd_result out =
     (case out of
        Err e \<Rightarrow> Err (''Failed to run mosquitto_passwd: '' @ e)
      | Ok o1 \<Rightarrow> if co_success o1 then Ok () else Err (''mosquitto_passwd failed: '' @ co_stderr o1))"

definition set_password ::
  "(passwd_command \<Rightarrow> command_output result) \<Rightarrow> (path \<Rightarrow> bool) \<Rightarrow> mosquitto_service \<Rightarrow> path \<Rightarrow> string \<Rightarrow> string \<Rightarrow>
   unit result \<times> passwd_command list" where
  "set_password exec exists_file s password_file username password =
     (case mq_password_binary s of
        None \<Rightarrow> (Err ''mosquitto_passwd is not installed'', [])
      | Some bin \<Rightarrow>
          let cmd = (if \<not> exists_file password_file then PasswdCreate password_file username password
                     else PasswdUpdate password_file username password)
          in (passwd_result (exec cmd), [cmd]))"

definition delete_user ::
  "(passwd_command \<Rightarrow> command_output result) \<Rightarrow> (path \<Rightarrow> bool) \<Rightarrow> mosquitto_service \<Rightarrow> path \<Rightarrow> string \<Rightarrow>
   unit result \<times> passwd_command list" where
  "delete_user exec exists_file s password_file username =
     (case mq_password_binary s of
        None \<Rightarrow> (Err ''mosquitto_passwd is not installed'', [])
      | Some bin \<Rightarrow>
          if \<not> exists_file password_file then (Err ''Password file does not exist'', [])
          else (passwd_result (exec (PasswdDelete password_file username)), [PasswdDelete password_file username]))"

text \<open>Writing one file of a sequence: what failed is prefixed to the error.\<close>

definition write_step :: "write_outcome \<Rightarrow> string \<Rightarrow> path \<Rightarrow> string \<Rightarrow> files \<Rightarrow> unit result \<times> files" where
  "write_step w msg p text fs = apfst (map_sum (\<lambda>e. msg @ e) id) (fs_write w p text fs)"

record file_env =
  fe_mkdir :: "unit result"
  fe_write1 :: write_outcome
  fe_write2 :: write_outcome
  fe_write3 :: write_outcome

text \<open>The list \<^verbatim>\<open>getifaddrs\<close> gives, if it succeeds: for each interface no address, the four or sixteen bytes of
  an internet address in network order, or an address of another family.\<close>

datatype sockaddr = NoAddr | AfInet "u8 list" | AfInet6 "u8 list" | OtherFamily

fun ipv6_segments :: "u8 list \<Rightarrow> u16 list" where
  "ipv6_segments (a # b # bs) = octet_pair a b # ipv6_segments bs"
| "ipv6_segments _ = []"

fun interface_ip :: "sockaddr \<Rightarrow> IpAddr option" where
  "interface_ip (AfInet os) = (if take 1 os = [127] then None else Some (V4 os))"
| "interface_ip (AfInet6 bs) =
     (let segs = ipv6_segments bs in if segs = [0, 0, 0, 0, 0, 0, 0, 1] then None else Some (V6 segs))"
| "interface_ip _ = None"

definition get_local_ips :: "sockaddr list option \<Rightarrow> IpAddr list" where
  "get_local_ips ifaddrs =
     (case ifaddrs of None \<Rightarrow> [] | Some as \<Rightarrow> List.map_filter interface_ip as) @ [V4 [127, 0, 0, 1]]"

definition broker_san_ips :: "sockaddr list option \<Rightarrow> MqttBrokerageConfig \<Rightarrow> IpAddr list" where
  "broker_san_ips ifaddrs cfg = (if mb_san_ips cfg = [] then get_local_ips ifaddrs else mb_san_ips cfg)"

definition provision_mqtt_broker_cert ::
  "('k, 'c, 'r) rcgen \<Rightarrow> 'k ca_env \<Rightarrow> file_env \<Rightarrow> sockaddr list option \<Rightarrow> ('k, 'c) CaService \<Rightarrow> MqttBrokerageConfig \<Rightarrow> files \<Rightarrow>
   unit result \<times> files" where
  "provision_mqtt_broker_cert R env fe ifaddrs ca cfg fs =
     (case (if path_parent (mb_certfile cfg) = None then Ok () else fe_mkdir fe) of
        Err e \<Rightarrow> (Err (''Failed to create broker cert dir: '' @ e), fs)
      | Ok _ \<Rightarrow>
     (case ca_cert_pem R ca of
        Err e \<Rightarrow> (Err e, fs)
      | Ok ca_pem \<Rightarrow>
     (case write_step (fe_write1 fe) ''Failed to write broker CA cert: '' (mb_cafile cfg) ca_pem fs of
        (Err e, fs1) \<Rightarrow> (Err e, fs1)
      | (Ok _, fs1) \<Rightarrow>
     (case generate_broker_cert R env (broker_san_ips ifaddrs cfg) (''localhost'' # mb_san_hostnames cfg) ca of
        Err e \<Rightarrow> (Err e, fs1)
      | Ok (cert, key) \<Rightarrow>
     (case write_step (fe_write2 fe) ''Failed to write broker cert: '' (mb_certfile cfg) cert fs1 of
        (Err e, fs2) \<Rightarrow> (Err e, fs2)
      | (Ok _, fs2) \<Rightarrow> write_step (fe_write3 fe) ''Failed to write broker key: '' (mb_keyfile cfg) key fs2)))))"

definition provision_node_identity ::
  "('k, 'c, 'r) rcgen \<Rightarrow> 'k ca_env \<Rightarrow> file_env \<Rightarrow> ('k, 'c) CaService \<Rightarrow> MqttClientConfig \<Rightarrow> files \<Rightarrow>
   unit result \<times> ('k, 'c) CaService \<times> files" where
  "provision_node_identity R env fe ca cfg fs =
     (case mc_certfile cfg of
        None \<Rightarrow> (Err ''provision_node_identity requires a client cert path'', ca, fs)
      | Some certfile \<Rightarrow>
     (case mc_keyfile cfg of
        None \<Rightarrow> (Err ''provision_node_identity requires a client key path'', ca, fs)
      | Some keyfile \<Rightarrow>
     (case ensure_node_identity R env ca of
        (Err e, ca1) \<Rightarrow> (Err e, ca1, fs)
      | (Ok (cert, key), ca1) \<Rightarrow>
     (case (if path_parent certfile = None then Ok () else fe_mkdir fe) of
        Err e \<Rightarrow> (Err (''Failed to create cert dir: '' @ e), ca1, fs)
      | Ok _ \<Rightarrow>
     (case write_step (fe_write1 fe) ''Failed to write node cert: '' certfile cert fs of
        (Err e, fs1) \<Rightarrow> (Err e, ca1, fs1)
      | (Ok _, fs1) \<Rightarrow>
          (case write_step (fe_write2 fe) ''Failed to write node key: '' keyfile key fs1 of
             (r, fs2) \<Rightarrow> (r, ca1, fs2)))))))"

section \<open>Registration\<close>

definition register_gateway :: "HttpConfig \<Rightarrow> service supervisor \<Rightarrow> service supervisor" where
  "register_gateway cfg sv = register Gateway (GatewaySvc (gateway_service_new cfg)) True sv"

definition register_mqtt_client :: "MqttClientConfig \<Rightarrow> bool \<Rightarrow> service supervisor \<Rightarrow> service supervisor" where
  "register_mqtt_client cfg available sv = register MqttClient (MqttClientSvc (mqtt_client_new cfg)) available sv"

text \<open>The result tells whether a handle is returned.\<close>

definition register_cloud_gateway ::
  "string \<Rightarrow> string option \<Rightarrow> service supervisor \<Rightarrow> bool \<times> service supervisor" where
  "register_cloud_gateway server_url gw sv =
     (case gw of
        None \<Rightarrow> (False, sv)
      | Some url \<Rightarrow> (True, register CloudGateway (CloudGatewaySvc (cloud_gateway_new server_url url)) True sv))"

definition register_gateway_mqtt ::
  "GatewayRegistrationConfig \<Rightarrow> service supervisor \<Rightarrow> bool \<times> service supervisor" where
  "register_gateway_mqtt cfg sv =
     (case gr_gateway_url cfg of
        None \<Rightarrow> (False, sv)
      | Some url \<Rightarrow>
          if gr_username cfg = [] \<or> gr_password cfg = [] then (False, sv)
          else (True, register GatewayMqttClient (GatewayMqttSvc (gateway_mqtt_new
                  \<lparr>gm_gateway_url = url, gm_username = gr_username cfg, gm_password = gr_password cfg,
                   gm_broker_cafile = gr_broker_cafile cfg, gm_broker_tls = gr_broker_tls cfg\<rparr>)) True sv))"

record broker_env =
  be_mkdir :: "unit result"
  be_write :: write_outcome
  be_exists :: "path \<Rightarrow> bool"
  be_passwd :: "passwd_command \<Rightarrow> command_output result"

definition register_mqtt_broker ::
  "broker_env \<Rightarrow> ServiceCapabilities \<Rightarrow> MqttBrokerageConfig \<Rightarrow> files \<Rightarrow> service supervisor \<Rightarrow>
   bool \<times> passwd_command list \<times> files \<times> service supervisor" where
  "register_mqtt_broker env caps cfg fs sv =
     (let available = is_available caps ''mosquitto'';
          svc = mosquitto_new (case binary_path caps ''mosquitto'' of Some p \<Rightarrow> p | None \<Rightarrow> ''mosquitto'')
                  (binary_path caps ''mosquitto_passwd'') (mb_config_file cfg);
          fs1 = (if available then snd (write_config (be_mkdir env) (be_write env) cfg fs) else fs);
          cmds = (if available \<and> \<not> mb_tls_enabled cfg
                  then snd (set_password (be_passwd env) (be_exists env) svc (mb_password_file cfg)
                              (mb_username cfg) (mb_password cfg))
                  else [])
      in (available, cmds, fs1, register Mosquitto (MosquittoSvc svc) available sv))"

section \<open>Startup\<close>

text \<open>A start through the supervisor's handle; its result is only logged.\<close>

definition start_via :: "service_env \<Rightarrow> ServiceId \<Rightarrow> service supervisor \<Rightarrow> service supervisor" where
  "start_via e i sv = snd (supervisor_step service_ops (e, e) (Start i) sv)"

definition start_mosquitto_brokerage :: "service_env \<Rightarrow> bool \<Rightarrow> service supervisor \<Rightarrow> service supervisor" where
  "start_mosquitto_brokerage e mosquitto_available sv = (if mosquitto_available then start_via e Mosquitto sv else sv)"

definition start_mqtt_client :: "service_env \<Rightarrow> bool \<Rightarrow> service supervisor \<Rightarrow> service supervisor" where
  "start_mqtt_client e mosquitto_available sv = (if mosquitto_available then start_via e MqttClient sv else sv)"

definition start_gateway :: "service_env \<Rightarrow> service supervisor \<Rightarrow> service supervisor" where
  "start_gateway e sv = start_via e Gateway sv"

definition start_cloud_gateway :: "service_env \<Rightarrow> service supervisor \<Rightarrow> service supervisor" where
  "start_cloud_gateway e sv = start_via e CloudGateway sv"

definition start_gateway_mqtt :: "service_env \<Rightarrow> service supervisor \<Rightarrow> service supervisor" where
  "start_gateway_mqtt e sv = start_via e GatewayMqttClient sv"

lemmas start_via_defs = start_mosquitto_brokerage_def start_mqtt_client_def start_gateway_def start_gateway_mqtt_def

text \<open>The answers of the system during startup. The certificate authority is asked for its own key, for the
  broker's certificate and for the node's identity, each with an environment of its own. \<open>ae_events\<close> is what the event loop task of the MQTT client
  sees once the client runs.\<close>

record 'k app_env =
  ae_run :: "string \<Rightarrow> string \<Rightarrow> command_output option"
  ae_db_options :: "unit result"
  ae_db_opened :: "ca_db result"
  ae_migrate_err :: "string option"
  ae_ca :: "'k ca_env"
  ae_ca_broker :: "'k ca_env"
  ae_ca_node :: "'k ca_env"
  ae_ifaddrs :: "sockaddr list option"
  ae_broker_files :: file_env
  ae_node_files :: file_env
  ae_broker :: broker_env
  ae_start :: "ServiceId \<Rightarrow> service_env"
  ae_events :: "(bool \<times> eventloop_event) list"
  ae_subscribe :: "MqttCommand \<Rightarrow> unit result"

text \<open>What waiting for the readiness signal gives: the signal, the error of a dropped sender, or nothing
  while the sender is held by a task that still runs. A client that failed to start has dropped it.\<close>

datatype wait_result = Connected | SenderDropped | StillWaiting

definition await_connected :: "(bool \<times> eventloop_event) list \<Rightarrow> service supervisor \<Rightarrow> wait_result" where
  "await_connected events sv =
     (case statuses sv MqttClient of
        Some (Running _) \<Rightarrow>
          (let s = eventloop_run events spawn_eventloop_task
           in if el_ready s > 0 then Connected else if el_running s then StillWaiting else SenderDropped)
      | _ \<Rightarrow> SenderDropped)"

record ('k, 'c) app =
  ap_supervisor :: "service supervisor"
  ap_ca :: "('k, 'c) CaService"
  ap_files :: files
  ap_brokerage_info :: MqttBrokerageInfo
  ap_subscribed :: "MqttCommand list"
  ap_server_url :: string
  ap_own_gateway_url :: "string option"
  ap_broadcast_topics :: "string list"
  ap_beacon_config :: BeaconManagementConfig
  ap_key_management :: key_manager

text \<open>The outcomes of \<^verbatim>\<open>App::initialize\<close>: an exit of the process with the logged error, a wait for the
  broker that the events so far do not end, or the application.\<close>

datatype ('k, 'c) startup = Exit string | Blocked "service supervisor" files | Ready "('k, 'c) app"

text \<open>The first half, up to \<^verbatim>\<open>supervisor.spawn()\<close>: certificates, files and registrations. It gives
  whether the broker is available, whether the cloud gateway client is, the advertised broker, the
  certificate authority, the files and the supervisor.\<close>

definition initialize_services ::
  "('k, 'c, 'r) rcgen \<Rightarrow> 'k app_env \<Rightarrow> config \<Rightarrow> files \<Rightarrow>
   (bool \<times> bool \<times> MqttBrokerageInfo \<times> ('k, 'c) CaService \<times> files \<times> service supervisor) result" where
  "initialize_services R env cfg fs =
     (let caps = detect_capabilities (ae_run env) [''mosquitto'', ''mosquitto_passwd'']
      in (case CaService_register R (ae_db_options env) (ae_db_opened env) (ae_migrate_err env) (ae_ca env) of
            Err e \<Rightarrow> Err e
          | Ok ca \<Rightarrow>
     (case ca_cert_pem R ca of
        Err e \<Rightarrow> Err e
      | Ok ca_pem \<Rightarrow>
     (let info = build_brokerage_info (cf_mqtt_brokerage cfg) ca_pem
      in (case (if mb_tls_enabled (cf_mqtt_brokerage cfg)
                then provision_mqtt_broker_cert R (ae_ca_broker env) (ae_broker_files env) (ae_ifaddrs env) ca
                       (cf_mqtt_brokerage cfg) fs
                else (Ok (), fs)) of
            (Err e, _) \<Rightarrow> Err e
          | (Ok _, fs1) \<Rightarrow>
     (case register_mqtt_broker (ae_broker env) caps (cf_mqtt_brokerage cfg) fs1 supervisor_new of
        (broker_available, _, fs2, sv1) \<Rightarrow>
     (let sv2 = register_gateway (cf_http cfg) sv1
      in (case (if mc_tls_mode (cf_mqtt_client cfg) = Mutual
                then provision_node_identity R (ae_ca_node env) (ae_node_files env) ca (cf_mqtt_client cfg) fs2
                else (Ok (), ca, fs2)) of
            (Err e, _, _) \<Rightarrow> Err e
          | (Ok _, ca1, fs3) \<Rightarrow>
     (case register_gateway_mqtt (cf_gateway_registration cfg)
             (register_mqtt_client (cf_mqtt_client cfg) broker_available sv2) of
        (cloud_gateway_available, sv3) \<Rightarrow>
          Ok (broker_available, cloud_gateway_available, info, ca1, fs3, sv3))))))))))"

definition start_broker_side :: "'k app_env \<Rightarrow> bool \<Rightarrow> service supervisor \<Rightarrow> service supervisor" where
  "start_broker_side env broker_available sv =
     start_mqtt_client (ae_start env MqttClient) broker_available
       (start_mosquitto_brokerage (ae_start env Mosquitto) broker_available sv)"

definition start_gateway_side :: "'k app_env \<Rightarrow> bool \<Rightarrow> service supervisor \<Rightarrow> service supervisor" where
  "start_gateway_side env cloud_gateway_available sv =
     (let sv1 = start_gateway (ae_start env Gateway) sv
      in if cloud_gateway_available then start_gateway_mqtt (ae_start env GatewayMqttClient) sv1 else sv1)"

definition initialize :: "('k, 'c, 'r) rcgen \<Rightarrow> 'k app_env \<Rightarrow> config \<Rightarrow> files \<Rightarrow> ('k, 'c) startup" where
  "initialize R env cfg fs =
     (case initialize_services R env cfg fs of
        Err e \<Rightarrow> Exit e
      | Ok (broker_available, cloud_gateway_available, info, ca, fs1, sv) \<Rightarrow>
          let sv1 = start_broker_side env broker_available sv;
              wait = await_connected (ae_events env) sv1
          in if broker_available \<and> wait = StillWaiting then Blocked sv1 fs1
             else Ready
               \<lparr>ap_supervisor = start_gateway_side env cloud_gateway_available sv1, ap_ca = ca, ap_files = fs1,
                ap_brokerage_info = info,
                ap_subscribed = (if broker_available \<and> wait = Connected
                                 then snd (subscribe_all (ae_subscribe env) required_subscriptions) else []),
                ap_server_url = gr_server_url (cf_gateway_registration cfg),
                ap_own_gateway_url = gr_gateway_url (cf_gateway_registration cfg),
                ap_broadcast_topics = [],
                ap_beacon_config = cf_beacon_management cfg,
                ap_key_management =
                  \<lparr>rotation_interval = unat (bm_key_rotation_interval (cf_beacon_management cfg)),
                   key_expiry = unat (bm_key_expiry (cf_beacon_management cfg))\<rparr>\<rparr>)"

section \<open>Lemmas\<close>

lemma start_via_other: "j \<noteq> i \<Longrightarrow> statuses (start_via e i sv) j = statuses sv j"
  by (simp add: start_via_def handlers_frame)

lemma start_via_same:
  assumes "tables_agree sv" and "statuses sv i = Some Stopped"
  shows "(\<exists>pid. statuses (start_via e i sv) i = Some (Running pid)) \<or> (\<exists>err. statuses (start_via e i sv) i = Some (Failed err))"
  using handle_start_proceeds [of sv i service_ops e] assms by (auto simp: start_via_def)

lemma tables_agree_start_via: "tables_agree sv \<Longrightarrow> tables_agree (start_via e i sv)"
  unfolding start_via_def by (rule tables_agree_step)

lemma inv_start_via: "supervisor_inv service_active sv \<Longrightarrow> supervisor_inv service_active (start_via e i sv)"
  unfolding start_via_def by (rule svc.inv_step)

lemma register_statuses:
  "statuses (register i s b sv) j = (if j = i then Some (if b then Stopped else Unavailable) else statuses sv j)"
  by (simp add: register_def Let_def)

text \<open>The statuses after the registrations, which depend on the capabilities and the configuration only.\<close>

definition cloud_configured :: "config \<Rightarrow> bool" where
  "cloud_configured cfg \<longleftrightarrow> gr_gateway_url (cf_gateway_registration cfg) \<noteq> None \<and>
     gr_username (cf_gateway_registration cfg) \<noteq> [] \<and> gr_password (cf_gateway_registration cfg) \<noteq> []"

definition broker_installed :: "'k app_env \<Rightarrow> bool" where
  "broker_installed env \<longleftrightarrow> is_available (detect_capabilities (ae_run env) [''mosquitto'', ''mosquitto_passwd'']) ''mosquitto''"

lemmas register_defs = register_mqtt_broker_def register_gateway_def register_mqtt_client_def register_gateway_mqtt_def

lemmas new_defs = gateway_service_new_def mosquitto_new_def mqtt_client_new_def gateway_mqtt_new_def

lemma initialize_services_tables:
  assumes "initialize_services R env cfg fs = Ok (b, c, info, ca, fs', sv)"
  shows "b = broker_installed env \<and> (\<exists>msvc. register_gateway_mqtt (cf_gateway_registration cfg)
    (register_mqtt_client (cf_mqtt_client cfg) b (register_gateway (cf_http cfg)
      (register Mosquitto (MosquittoSvc (mosquitto_new msvc (binary_path (detect_capabilities (ae_run env)
        [''mosquitto'', ''mosquitto_passwd'']) ''mosquitto_passwd'') (mb_config_file (cf_mqtt_brokerage cfg)))) b supervisor_new))) = (c, sv))"
  using assms
  by (auto simp: initialize_services_def register_mqtt_broker_def broker_installed_def Let_def
      split: sum.splits prod.splits)

lemma initialize_services_statuses:
  assumes "initialize_services R env cfg fs = Ok (b, c, info, ca, fs', sv)"
  shows "b = broker_installed env" and "c = cloud_configured cfg"
    and "supervisor_inv service_active sv"
    and "statuses sv = (\<lambda>i. case i of
      Gateway \<Rightarrow> Some Stopped
    | Mosquitto \<Rightarrow> Some (if broker_installed env then Stopped else Unavailable)
    | MqttClient \<Rightarrow> Some (if broker_installed env then Stopped else Unavailable)
    | GatewayMqttClient \<Rightarrow> if cloud_configured cfg then Some Stopped else None
    | CloudGateway \<Rightarrow> None)"
proof -
  from initialize_services_tables [OF assms] obtain msvc pb cf where b: "b = broker_installed env"
    and r: "register_gateway_mqtt (cf_gateway_registration cfg)
      (register_mqtt_client (cf_mqtt_client cfg) b (register_gateway (cf_http cfg)
        (register Mosquitto (MosquittoSvc (mosquitto_new msvc pb cf)) b supervisor_new))) = (c, sv)" by blast
  show "b = broker_installed env" by (rule b)
  show c: "c = cloud_configured cfg"
    using r by (auto simp: register_gateway_mqtt_def cloud_configured_def split: option.splits if_splits)
  show "supervisor_inv service_active sv"
    using r by (auto simp: register_gateway_mqtt_def register_mqtt_client_def register_gateway_def new_defs
      intro!: svc.inv_register svc.inv_new split: option.splits if_splits)
  show "statuses sv = (\<lambda>i. case i of
      Gateway \<Rightarrow> Some Stopped
    | Mosquitto \<Rightarrow> Some (if broker_installed env then Stopped else Unavailable)
    | MqttClient \<Rightarrow> Some (if broker_installed env then Stopped else Unavailable)
    | GatewayMqttClient \<Rightarrow> if cloud_configured cfg then Some Stopped else None
    | CloudGateway \<Rightarrow> None)"
  proof
    fix i
    show "statuses sv i = (case i of
      Gateway \<Rightarrow> Some Stopped
    | Mosquitto \<Rightarrow> Some (if broker_installed env then Stopped else Unavailable)
    | MqttClient \<Rightarrow> Some (if broker_installed env then Stopped else Unavailable)
    | GatewayMqttClient \<Rightarrow> if cloud_configured cfg then Some Stopped else None
    | CloudGateway \<Rightarrow> None)"
      using r b by (cases i) (auto simp: register_gateway_mqtt_def register_mqtt_client_def register_gateway_def
        register_statuses supervisor_new_def cloud_configured_def split: option.splits if_splits)
  qed
qed

text \<open>A service whose start was attempted: it runs, or the start failed.\<close>

definition start_attempted :: "ServiceStatus option \<Rightarrow> bool" where
  "start_attempted st = (case st of Some (Running _) \<Rightarrow> True | Some (Failed _) \<Rightarrow> True | _ \<Rightarrow> False)"

lemma start_via_started:
  "supervisor_inv service_active sv \<Longrightarrow> statuses sv i = Some Stopped \<Longrightarrow> start_attempted (statuses (start_via e i sv) i)"
  using start_via_same [of sv i e] by (auto simp: supervisor_inv_def start_attempted_def)

text \<open>A service that runs with the given process id if its start can work, and is shown as failed otherwise.\<close>

definition shown_as :: "bool \<Rightarrow> u32 \<Rightarrow> ServiceStatus option \<Rightarrow> bool" where
  "shown_as works pid st \<longleftrightarrow> (if works then st = Some (Running pid) else \<exists>err. st = Some (Failed err))"

lemma start_via_status:
  assumes "supervisor_inv service_active sv" and "statuses sv i = Some Stopped" and "services sv i = Some s"
  shows "statuses (start_via e i sv) i =
    Some (case fst (service_start e s) of Ok pid \<Rightarrow> Running pid | Err err \<Rightarrow> Failed err)"
proof -
  have "tables_agree sv" using assms(1) by (simp add: supervisor_inv_def)
  with assms(2,3) show ?thesis by (simp add: start_via_def handle_start_eq split_beta)
qed

lemma start_via_services_other: "j \<noteq> i \<Longrightarrow> services (start_via e i sv) j = services sv j"
  by (simp add: start_via_def handlers_frame)

text \<open>What the first start of each service gives.\<close>

definition gateway_can_start :: "service_env \<Rightarrow> HttpConfig \<Rightarrow> bool" where
  "gateway_can_start e cfg \<longleftrightarrow> is_ok (se_bind e) \<and> is_ok (se_local_addr e) \<and> (ht_tls_enabled cfg \<longrightarrow> is_ok (se_tls_config e))"

lemma first_starts:
  "\<exists>err. fst (service_start e (GatewaySvc (gateway_service_new cfg))) = (if gateway_can_start e cfg then Ok 0 else Err err)"
  "se_config_exists e \<Longrightarrow> se_spawn e = Ok (Some pid) \<Longrightarrow> fst (service_start e (MosquittoSvc (mosquitto_new b p f))) = Ok pid"
  "\<not> se_config_exists e \<or> (\<forall>pid. se_spawn e \<noteq> Ok (Some pid)) \<Longrightarrow>
     \<exists>err. fst (service_start e (MosquittoSvc (mosquitto_new b p f))) = Err err"
  "\<exists>err. fst (service_start e (MqttClientSvc (mqtt_client_new ccfg))) =
     (if is_ok (build_mqtt_opts (se_tls_lib e) (se_read e) ccfg) then Ok 0 else Err err)"
  "fst (service_start e (GatewayMqttSvc (gateway_mqtt_new gcfg))) = Ok 0"
  by (auto simp: gateway_can_start_def gateway_start_def gateway_initialize_def mosquitto_start_def mqtt_client_start_def
      take_channels_def gateway_mqtt_start_def new_defs Let_def split: sum.splits option.splits)

lemma register_services: "services (register i s b sv) j = (if j = i then Some s else services sv j)"
  by (simp add: register_def Let_def)

lemma register_gateway_mqtt_services:
  assumes "register_gateway_mqtt g sv0 = (c, sv)"
  shows "j \<noteq> GatewayMqttClient \<Longrightarrow> services sv j = services sv0 j"
    and "c \<Longrightarrow> \<exists>q. services sv GatewayMqttClient = Some (GatewayMqttSvc (gateway_mqtt_new q))"
  using assms by (auto simp: register_gateway_mqtt_def register_services split: option.splits if_splits)

lemma initialize_services_registered:
  assumes "initialize_services R env cfg fs = Ok (b, c, info, ca, fs', sv)"
  shows "services sv Gateway = Some (GatewaySvc (gateway_service_new (cf_http cfg)))"
    and "\<exists>bin p f. services sv Mosquitto = Some (MosquittoSvc (mosquitto_new bin p f))"
    and "services sv MqttClient = Some (MqttClientSvc (mqtt_client_new (cf_mqtt_client cfg)))"
    and "c \<Longrightarrow> \<exists>g. services sv GatewayMqttClient = Some (GatewayMqttSvc (gateway_mqtt_new g))"
proof -
  from initialize_services_tables [OF assms] obtain bin p f where r: "register_gateway_mqtt (cf_gateway_registration cfg)
      (register_mqtt_client (cf_mqtt_client cfg) b (register_gateway (cf_http cfg)
        (register Mosquitto (MosquittoSvc (mosquitto_new bin p f)) b supervisor_new))) = (c, sv)" by blast
  note svcs = register_gateway_mqtt_services [OF r]
  show "services sv Gateway = Some (GatewaySvc (gateway_service_new (cf_http cfg)))"
    "services sv MqttClient = Some (MqttClientSvc (mqtt_client_new (cf_mqtt_client cfg)))"
    "\<exists>bin p f. services sv Mosquitto = Some (MosquittoSvc (mosquitto_new bin p f))"
    by (simp_all add: svcs(1) register_mqtt_client_def register_gateway_def register_services) blast?
  show "\<exists>g. services sv GatewayMqttClient = Some (GatewayMqttSvc (gateway_mqtt_new g))" if c by (rule svcs(2) [OF that])
qed

lemma eventloop_run_running:
  "el_running s \<Longrightarrow> el_running (eventloop_run es s) \<longleftrightarrow> (\<forall>(b, e)\<in>set es. e \<noteq> ElShutdown)"
proof (induction es s rule: eventloop_run.induct)
  case (2 b e es s)
  then show ?case
    by (cases "e = ElShutdown") (auto simp: eventloop_run_stopped eventloop_step_running)
qed simp

lemma until_shutdown_id: "\<forall>(b, e)\<in>set es. e \<noteq> ElShutdown \<Longrightarrow> until_shutdown es = es"
  by (induction es) auto

lemma await_connected_running:
  assumes "statuses sv MqttClient = Some (Running pid)"
  shows "await_connected events sv = Connected \<longleftrightarrow> (\<exists>b. (b, ElPoll PollConnAck) \<in> set (until_shutdown events))"
    and "await_connected events sv = StillWaiting \<longleftrightarrow>
      (\<forall>(b, e)\<in>set events. e \<noteq> ElShutdown \<and> e \<noteq> ElPoll PollConnAck)"
proof -
  have running: "el_running spawn_eventloop_task" "el_connected_tx spawn_eventloop_task" "el_ready spawn_eventloop_task = 0"
    by (simp_all add: spawn_eventloop_task_def)
  note facts = eventloop_run_ready [OF running(1), of events] eventloop_run_running [OF running(1), of events]
  show "await_connected events sv = Connected \<longleftrightarrow> (\<exists>b. (b, ElPoll PollConnAck) \<in> set (until_shutdown events))"
    using assms facts running by (auto simp: await_connected_def Let_def)
  show "await_connected events sv = StillWaiting \<longleftrightarrow>
      (\<forall>(b, e)\<in>set events. e \<noteq> ElShutdown \<and> e \<noteq> ElPoll PollConnAck)"
  proof (cases "\<forall>(b, e)\<in>set events. e \<noteq> ElShutdown")
    case True
    with assms facts running until_shutdown_id [OF True] show ?thesis
      by (auto simp: await_connected_def Let_def)
  next
    case False
    with assms facts running show ?thesis by (auto simp: await_connected_def Let_def)
  qed
qed

lemma start_broker_side_inv:
  "supervisor_inv service_active sv \<Longrightarrow> supervisor_inv service_active (start_broker_side env b sv)"
  by (simp add: start_broker_side_def start_via_defs inv_start_via)

lemma start_broker_side_statuses:
  assumes "supervisor_inv service_active sv"
  shows "i \<noteq> Mosquitto \<Longrightarrow> i \<noteq> MqttClient \<Longrightarrow> statuses (start_broker_side env b sv) i = statuses sv i"
    and "\<not> b \<Longrightarrow> start_broker_side env b sv = sv"
    and "b \<Longrightarrow> statuses sv i = Some Stopped \<Longrightarrow> i = Mosquitto \<or> i = MqttClient \<Longrightarrow>
      start_attempted (statuses (start_broker_side env b sv) i)"
  using assms by (auto simp: start_broker_side_def start_via_defs start_via_other inv_start_via intro!: start_via_started)

lemma start_gateway_side_statuses:
  assumes "supervisor_inv service_active sv"
  shows "supervisor_inv service_active (start_gateway_side env c sv)"
    and "i \<noteq> Gateway \<Longrightarrow> i \<noteq> GatewayMqttClient \<Longrightarrow> statuses (start_gateway_side env c sv) i = statuses sv i"
    and "statuses sv Gateway = Some Stopped \<Longrightarrow> start_attempted (statuses (start_gateway_side env c sv) Gateway)"
    and "statuses sv GatewayMqttClient = (if c then Some Stopped else None) \<Longrightarrow>
      (if c then start_attempted (statuses (start_gateway_side env c sv) GatewayMqttClient)
       else statuses (start_gateway_side env c sv) GatewayMqttClient = None)"
  using assms
  by (auto simp: start_gateway_side_def start_via_defs Let_def start_via_other inv_start_via intro!: start_via_started)

lemma gateway_side_outcomes:
  assumes "initialize_services R env cfg fs = Ok (b, c, info, ca, fs', sv)"
    and "sv' = start_gateway_side env c (start_broker_side env b sv)"
  shows "shown_as (gateway_can_start (ae_start env Gateway) (cf_http cfg)) 0 (statuses sv' Gateway)"
    and "c \<Longrightarrow> statuses sv' GatewayMqttClient = Some (Running 0)"
proof -
  note reg = initialize_services_statuses [OF assms(1)] and svcs = initialize_services_registered [OF assms(1)]
  let ?e = "ae_start env"
  have inv: "supervisor_inv service_active (start_broker_side env b sv)" by (rule start_broker_side_inv [OF reg(3)])
  have frame: "services (start_broker_side env b sv) j = services sv j" "statuses (start_broker_side env b sv) j = statuses sv j"
    if "j \<noteq> Mosquitto" "j \<noteq> MqttClient" for j
    using that by (simp_all add: start_broker_side_def start_via_defs start_via_other start_via_services_other)
  have g: "statuses sv' Gateway = Some (case fst (service_start (?e Gateway) (GatewaySvc (gateway_service_new (cf_http cfg))))
      of Ok pid \<Rightarrow> Running pid | Err err \<Rightarrow> Failed err)"
    using start_via_status [OF inv, of Gateway _ "?e Gateway"] frame [of Gateway] reg(4) svcs(1)
    by (simp add: assms(2) start_gateway_side_def start_via_defs Let_def start_via_other)
  show "shown_as (gateway_can_start (?e Gateway) (cf_http cfg)) 0 (statuses sv' Gateway)"
    using first_starts(1) [of "?e Gateway" "cf_http cfg"] unfolding g shown_as_def by (auto split: if_splits)
  show "statuses sv' GatewayMqttClient = Some (Running 0)" if conf: c
  proof -
    obtain gc where "services sv GatewayMqttClient = Some (GatewayMqttSvc (gateway_mqtt_new gc))" using svcs(4) [OF conf] by blast
    then show ?thesis
      using start_via_status [OF inv_start_via [OF inv, of "?e Gateway" Gateway], of GatewayMqttClient _ "?e GatewayMqttClient"]
        frame [of GatewayMqttClient] reg(2,4) conf first_starts(5) [of "?e GatewayMqttClient"]
      by (simp add: assms(2) start_gateway_side_def start_via_defs Let_def start_via_other start_via_services_other)
  qed
qed

lemma broker_side_outcomes:
  assumes "initialize_services R env cfg fs = Ok (b, c, info, ca, fs', sv)" and b
    and "sv' = start_gateway_side env c (start_broker_side env b sv)"
  shows "se_config_exists (ae_start env Mosquitto) \<Longrightarrow> se_spawn (ae_start env Mosquitto) = Ok (Some pid) \<Longrightarrow>
      statuses sv' Mosquitto = Some (Running pid)"
    and "\<not> se_config_exists (ae_start env Mosquitto) \<or> (\<forall>pid. se_spawn (ae_start env Mosquitto) \<noteq> Ok (Some pid)) \<Longrightarrow>
      \<exists>err. statuses sv' Mosquitto = Some (Failed err)"
    and "shown_as (is_ok (build_mqtt_opts (se_tls_lib (ae_start env MqttClient)) (se_read (ae_start env MqttClient))
        (cf_mqtt_client cfg))) 0 (statuses sv' MqttClient)"
proof -
  note reg = initialize_services_statuses [OF assms(1)] and svcs = initialize_services_registered [OF assms(1)]
  let ?e = "ae_start env"
  have later: "statuses sv' j = statuses (start_broker_side env b sv) j" if "j \<noteq> Gateway" "j \<noteq> GatewayMqttClient" for j
    using that by (simp add: assms(3) start_gateway_side_def start_via_defs Let_def start_via_other)
  obtain bin p f where mos: "services sv Mosquitto = Some (MosquittoSvc (mosquitto_new bin p f))" using svcs(2) by blast
  have m: "statuses sv' Mosquitto = Some (case fst (service_start (?e Mosquitto) (MosquittoSvc (mosquitto_new bin p f)))
      of Ok pid \<Rightarrow> Running pid | Err err \<Rightarrow> Failed err)"
    using start_via_status [OF reg(3) _ mos, of "?e Mosquitto"] reg(1,4) assms(2)
    by (simp add: later start_broker_side_def start_via_defs start_via_other)
  show "statuses sv' Mosquitto = Some (Running pid)" if "se_config_exists (?e Mosquitto)" "se_spawn (?e Mosquitto) = Ok (Some pid)"
    using m first_starts(2) [OF that] by simp
  show "\<exists>err. statuses sv' Mosquitto = Some (Failed err)"
    if "\<not> se_config_exists (?e Mosquitto) \<or> (\<forall>pid. se_spawn (?e Mosquitto) \<noteq> Ok (Some pid))"
    using m first_starts(3) [OF that, of bin p f] by auto
  have k: "statuses sv' MqttClient = Some (case fst (service_start (?e MqttClient) (MqttClientSvc (mqtt_client_new (cf_mqtt_client cfg))))
      of Ok pid \<Rightarrow> Running pid | Err err \<Rightarrow> Failed err)"
    using start_via_status [OF inv_start_via [OF reg(3), of "?e Mosquitto" Mosquitto], of MqttClient _ "?e MqttClient"] reg(1,4) svcs(3) assms(2)
    by (simp add: later start_broker_side_def start_via_defs start_via_other start_via_services_other)
  show "shown_as (is_ok (build_mqtt_opts (se_tls_lib (?e MqttClient)) (se_read (?e MqttClient)) (cf_mqtt_client cfg))) 0
      (statuses sv' MqttClient)"
    using first_starts(4) [of "?e MqttClient" "cf_mqtt_client cfg"] unfolding k shown_as_def by (auto split: if_splits)
qed

section \<open>Properties\<close>

text \<open>Claim C9. When startup completes, the supervisor's tables are sound and show for every service what the
  host and the configuration allow. The HTTP gateway runs if its listener could be bound, its address
  read and, with TLS, its TLS configuration built, and is shown as failed otherwise. Where mosquitto is
  installed, the broker runs with the process id of its child if its configuration file exists and the
  process could be spawned, and is shown as failed otherwise, and the MQTT client runs exactly if its options
  could be built; where it is not installed both are unavailable. The cloud gateway client runs if a
  gateway URL and credentials are configured and is not registered otherwise; the WebSocket gateway service is
  never registered. Topics were subscribed only if the broker acknowledged the connection.\<close>

theorem startup_statuses:
  assumes "initialize R env cfg fs = Ready app" and "sv = ap_supervisor app"
  shows "supervisor_inv service_active sv \<and>
    shown_as (is_ok (se_bind (ae_start env Gateway)) \<and> is_ok (se_local_addr (ae_start env Gateway)) \<and>
      (ht_tls_enabled (cf_http cfg) \<longrightarrow> is_ok (se_tls_config (ae_start env Gateway)))) 0 (statuses sv Gateway) \<and>
    (if broker_installed env
     then (\<forall>pid. se_config_exists (ae_start env Mosquitto) \<and> se_spawn (ae_start env Mosquitto) = Ok (Some pid) \<longrightarrow>
             statuses sv Mosquitto = Some (Running pid)) \<and>
       (\<not> se_config_exists (ae_start env Mosquitto) \<or> (\<forall>pid. se_spawn (ae_start env Mosquitto) \<noteq> Ok (Some pid)) \<longrightarrow>
             (\<exists>err. statuses sv Mosquitto = Some (Failed err))) \<and>
       shown_as (is_ok (build_mqtt_opts (se_tls_lib (ae_start env MqttClient)) (se_read (ae_start env MqttClient))
         (cf_mqtt_client cfg))) 0 (statuses sv MqttClient)
     else statuses sv Mosquitto = Some Unavailable \<and> statuses sv MqttClient = Some Unavailable) \<and>
    statuses sv GatewayMqttClient = (if cloud_configured cfg then Some (Running 0) else None) \<and>
    statuses sv CloudGateway = None \<and>
    (ap_subscribed app \<noteq> [] \<longrightarrow>
       broker_installed env \<and> (\<exists>b. (b, ElPoll PollConnAck) \<in> set (until_shutdown (ae_events env))))"
proof -
  from assms(1) obtain b c info ca fs1 sv0 where i: "initialize_services R env cfg fs = Ok (b, c, info, ca, fs1, sv0)"
    by (auto simp: initialize_def split: sum.splits)
  note reg = initialize_services_statuses [OF i]
  let ?sv1 = "start_broker_side env b sv0"
  have app: "sv = start_gateway_side env c ?sv1"
    "ap_subscribed app \<noteq> [] \<Longrightarrow> b \<and> await_connected (ae_events env) ?sv1 = Connected"
    using assms by (auto simp: initialize_def i Let_def split: if_splits)
  note out = gateway_side_outcomes [OF i app(1)] and brk = broker_side_outcomes [OF i _ app(1)]
  note bs = start_broker_side_statuses [OF reg(3), where env = env and b = b]
  note gs = start_gateway_side_statuses [OF start_broker_side_inv [OF reg(3), of env b], where env = env and c = c, folded app(1)]
  have "await_connected (ae_events env) ?sv1 = Connected \<Longrightarrow> \<exists>pid. statuses ?sv1 MqttClient = Some (Running pid)"
    by (auto simp: await_connected_def split: option.splits ServiceStatus.splits)
  with app(2) await_connected_running(1) have sub: "ap_subscribed app \<noteq> [] \<Longrightarrow>
      b \<and> (\<exists>b. (b, ElPoll PollConnAck) \<in> set (until_shutdown (ae_events env)))" by blast
  have "statuses sv GatewayMqttClient = (if c then Some (Running 0) else None)"
    using out(2) gs(4) bs(1) [of GatewayMqttClient] reg(2,4) by (cases c) auto
  moreover have "statuses sv CloudGateway = None"
    using gs(2) [of CloudGateway] bs(1) [of CloudGateway] reg(4) by simp
  moreover have "statuses sv Mosquitto = Some Unavailable \<and> statuses sv MqttClient = Some Unavailable" if "\<not> b"
    using that gs(2) [of Mosquitto] gs(2) [of MqttClient] bs(2) reg(1,4) by simp
  ultimately show ?thesis
    using gs(1) out brk sub unfolding gateway_can_start_def reg(1,2) by auto
qed

text \<open>A host with mosquitto installed, the default configuration with TLS off, and a broker that answers.\<close>

definition demo_environ :: environ where
  "demo_environ k = (if k = ''MQTT_TLS_ENABLED'' then Some ''false'' else None)"

definition demo_config :: config where
  "demo_config =
     \<lparr>cf_mqtt_brokerage = MqttBrokerageConfig_from_env demo_environ ''/etc/hamlet'',
      cf_mqtt_client = MqttClientConfig_from_env demo_environ ''/etc/hamlet'',
      cf_http = HttpConfig_from_env demo_environ,
      cf_gateway_registration = GatewayRegistrationConfig_from_env demo_environ,
      cf_beacon_management = BeaconManagementConfig_from_env demo_environ,
      cf_config_dir = ''/etc/hamlet''\<rparr>"

definition demo_app_env :: "(bool \<times> eventloop_event) list \<Rightarrow> string app_env" where
  "demo_app_env events =
     \<lparr>ae_run = (\<lambda>prog arg. Some \<lparr>co_success = True, co_stdout = ''/usr/bin/'' @ arg, co_stderr = []\<rparr>),
      ae_db_options = Ok (), ae_db_opened = Ok (cas_db demo_ca), ae_migrate_err = None,
      ae_ca = demo_ca_env 1000 ''new'', ae_ca_broker = demo_ca_env 1000 ''broker'', ae_ca_node = demo_ca_env 1000 ''node'', ae_ifaddrs = None,
      ae_broker_files = \<lparr>fe_mkdir = Ok (), fe_write1 = Written, fe_write2 = Written, fe_write3 = Written\<rparr>,
      ae_node_files = \<lparr>fe_mkdir = Ok (), fe_write1 = Written, fe_write2 = Written, fe_write3 = Written\<rparr>,
      ae_broker = \<lparr>be_mkdir = Ok (), be_write = Written, be_exists = (\<lambda>_. False),
        be_passwd = (\<lambda>_. Ok \<lparr>co_success = True, co_stdout = [], co_stderr = []\<rparr>)\<rparr>,
      ae_start = (\<lambda>_. demo_senv (Ok ())), ae_events = events, ae_subscribe = (\<lambda>_. Ok ())\<rparr>"

lemmas demo_app_defs = demo_app_env_def demo_config_def demo_environ_def

lemma demo_broker_installed: "broker_installed (demo_app_env events)"
  by (simp add: broker_installed_def demo_app_env_def detect_capabilities_def is_available_def detect_binary_def Let_def)

lemma demo_modes:
  "\<not> mb_tls_enabled (cf_mqtt_brokerage demo_config)" "mc_tls_mode (cf_mqtt_client demo_config) = TlsNone"
  by (simp_all add: demo_config_def demo_environ_def MqttBrokerageConfig_from_env_def MqttClientConfig_from_env_def
      env_or_def is_true_def Let_def) (code_simp+)

lemma demo_ca_registers:
  "\<exists>ca pem. CaService_register demo_rcgen (Ok ()) (Ok (cas_db demo_ca)) None (demo_ca_env 1000 ''new'') = Ok ca \<and>
     ca_cert_pem demo_rcgen ca = Ok pem"
  by (simp add: CaService_register_def CaService_init_def CaService_new_def load_or_generate_ca_def load_ca_from_db_def
      ca_cert_pem_def demo_ca_defs)

lemma demo_initialize_services:
  "\<exists>b c info ca fs1 sv. initialize_services demo_rcgen (demo_app_env events) demo_config fs = Ok (b, c, info, ca, fs1, sv)"
  using demo_ca_registers demo_modes
  by (auto simp: initialize_services_def Let_def demo_app_env_def split: prod.splits)

theorem startup_statuses_witness:
  "\<exists>app. initialize demo_rcgen (demo_app_env [(True, ElPoll PollConnAck)]) demo_config Map.empty = Ready app \<and>
     statuses (ap_supervisor app) Mosquitto = Some (Running 42) \<and> statuses (ap_supervisor app) Gateway = Some (Running 0)"
proof -
  let ?env = "demo_app_env [(True, ElPoll PollConnAck)]"
  obtain b c info ca fs1 sv where i: "initialize_services demo_rcgen ?env demo_config Map.empty = Ok (b, c, info, ca, fs1, sv)"
    using demo_initialize_services by blast
  have "await_connected (ae_events ?env) sv1 \<noteq> StillWaiting" for sv1
    by (simp add: await_connected_def demo_app_env_def spawn_eventloop_task_def Let_def split: option.splits ServiceStatus.splits)
  then obtain app where app: "initialize demo_rcgen ?env demo_config Map.empty = Ready app"
    by (auto simp: initialize_def i Let_def)
  have e: "se_config_exists (ae_start ?env Mosquitto)" "se_spawn (ae_start ?env Mosquitto) = Ok (Some 42)"
    "is_ok (se_bind (ae_start ?env Gateway))" "is_ok (se_local_addr (ae_start ?env Gateway))"
    "is_ok (se_tls_config (ae_start ?env Gateway))"
    by (simp_all add: demo_app_env_def demo_senv_def)
  from startup_statuses [OF app refl] demo_broker_installed [of "[(True, ElPoll PollConnAck)]"] e
  have "statuses (ap_supervisor app) Mosquitto = Some (Running 42) \<and> statuses (ap_supervisor app) Gateway = Some (Running 0)"
    by (simp add: shown_as_def)
  with app show ?thesis by blast
qed

text \<open>The client as it was registered starts when its options can be built.\<close>

lemma start_broker_side_client:
  assumes "initialize_services R env cfg fs = Ok (b, c, info, ca, fs1, sv)" and "broker_installed env"
    and "build_mqtt_opts (se_tls_lib (ae_start env MqttClient)) (se_read (ae_start env MqttClient)) (cf_mqtt_client cfg) = Ok opts"
  shows "statuses (start_broker_side env b sv) MqttClient = Some (Running 0)"
proof -
  let ?sv1 = "start_via (ae_start env Mosquitto) Mosquitto sv"
  note reg = initialize_services_statuses [OF assms(1)]
  have "services sv MqttClient = Some (MqttClientSvc (mqtt_client_new (cf_mqtt_client cfg)))"
    using initialize_services_tables [OF assms(1)]
    by (auto simp: register_gateway_mqtt_def register_mqtt_client_def register_def Let_def split: option.splits if_splits)
  then have svc: "services ?sv1 MqttClient = Some (MqttClientSvc (mqtt_client_new (cf_mqtt_client cfg)))"
    by (simp add: start_via_def handlers_frame)
  have st: "statuses ?sv1 MqttClient = Some Stopped" using reg(4) assms(2) by (simp add: start_via_other)
  have "tables_agree ?sv1" using inv_start_via [OF reg(3)] by (simp add: supervisor_inv_def)
  then have "statuses (start_via (ae_start env MqttClient) MqttClient ?sv1) MqttClient = Some (Running 0)"
    using assms(3) svc st
    by (simp add: start_via_def [of _ MqttClient] handle_start_eq mqtt_client_start_def take_channels_def mqtt_client_new_def)
  with reg(1) assms(2) show ?thesis by (simp add: start_broker_side_def start_via_defs)
qed

text \<open>Claim C22. Where mosquitto is installed and the client's options can be built, startup does not return
  until the broker acknowledges a connection: as long as the client's event loop has seen no
  acknowledgement, whether or not the broker process could be started, it is blocked, and the HTTP
  gateway and the cloud gateway client have not been started.\<close>

theorem startup_waits_for_broker:
  assumes "initialize_services R env cfg fs = Ok (b, c, info, ca, fs1, sv)" and "broker_installed env"
    and "build_mqtt_opts (se_tls_lib (ae_start env MqttClient)) (se_read (ae_start env MqttClient)) (cf_mqtt_client cfg) = Ok opts"
  shows "if \<forall>(open, e)\<in>set (ae_events env). e \<noteq> ElShutdown \<and> e \<noteq> ElPoll PollConnAck
    then \<exists>sv'. initialize R env cfg fs = Blocked sv' fs1 \<and> statuses sv' MqttClient = Some (Running 0) \<and>
      start_attempted (statuses sv' Mosquitto) \<and> statuses sv' Gateway = Some Stopped \<and>
      statuses sv' GatewayMqttClient = (if cloud_configured cfg then Some Stopped else None)
    else \<exists>app. initialize R env cfg fs = Ready app"
proof -
  note reg = initialize_services_statuses [OF assms(1)]
  note bs = start_broker_side_statuses [OF reg(3), where env = env and b = b]
  note client = start_broker_side_client [OF assms]
  have w: "await_connected (ae_events env) (start_broker_side env b sv) = StillWaiting \<longleftrightarrow>
      (\<forall>(open, e)\<in>set (ae_events env). e \<noteq> ElShutdown \<and> e \<noteq> ElPoll PollConnAck)"
    by (rule await_connected_running(2) [OF client])
  have "b" "statuses sv Mosquitto = Some Stopped" using reg(1,4) assms(2) by simp_all
  then have m: "start_attempted (statuses (start_broker_side env b sv) Mosquitto)" using bs(3) by blast
  show ?thesis
    using client m \<open>b\<close> reg(4) bs(1) [of Gateway] bs(1) [of GatewayMqttClient]
    by (simp add: initialize_def assms(1) w [symmetric] Let_def)
qed

theorem startup_waits_for_broker_witness:
  "\<exists>sv fs1. initialize demo_rcgen (demo_app_env [(True, ElPoll (PollError ''refused''))]) demo_config Map.empty = Blocked sv fs1 \<and>
     statuses sv Gateway = Some Stopped"
proof -
  let ?env = "demo_app_env [(True, ElPoll (PollError ''refused''))]"
  obtain b c info ca fs1 sv where i: "initialize_services demo_rcgen ?env demo_config Map.empty = Ok (b, c, info, ca, fs1, sv)"
    using demo_initialize_services by blast
  obtain opts where o: "build_mqtt_opts (se_tls_lib (ae_start ?env MqttClient)) (se_read (ae_start ?env MqttClient))
      (cf_mqtt_client demo_config) = Ok opts" using demo_modes(2) by (simp add: build_mqtt_opts_def Let_def)
  from startup_waits_for_broker [OF i demo_broker_installed o] show ?thesis
    by (auto simp: demo_app_env_def)
qed

end
