(* ===== verification/Http_Server.thy ===== *)
theory Http_Server
  imports Http
begin

text \<open>
  The HTTP gateway's server side: the TLS configuration built from the CA
  (\<^verbatim>\<open>beacon_management/internals/tls.rs\<close>), the accept loops (\<^verbatim>\<open>beacon_management/tasks.rs\<close>) and the service of a
  connection (\<^verbatim>\<open>serve_connection\<close> and \<^verbatim>\<open>serve_tls_connection\<close> of \<^verbatim>\<open>beacon_management/internals/proxy.rs\<close>). hyper is
  modelled by the requests it reads from a connection; a handler runs as one step. The lemmas show
  what every sequence of requests keeps.
\<close>

section \<open>The TLS configuration\<close>

text \<open>The PEM readers of \<^verbatim>\<open>rustls_pemfile\<close> and the check of a chain with its key by \<^verbatim>\<open>rustls\<close>.\<close>

record tls_server_lib =
  pem_cert_chain :: "string \<Rightarrow> string result list"
  pem_pkcs8_keys :: "string \<Rightarrow> string result list"
  with_single_cert :: "string list \<Rightarrow> string \<Rightarrow> unit result"

record server_config =
  sc_cert_chain :: "string list"
  sc_private_key :: string

text \<open>\<^verbatim>\<open>collect\<close> into a \<^verbatim>\<open>Result\<close>: the first error, or all values.\<close>

fun collect_results :: "'a result list \<Rightarrow> 'a list result" where
  "collect_results [] = Ok []"
| "collect_results (r # rs) =
     (case r of
        Err e \<Rightarrow> Err e
      | Ok x \<Rightarrow> (case collect_results rs of Err e \<Rightarrow> Err e | Ok xs \<Rightarrow> Ok (x # xs)))"

definition build_tls_config ::
  "('k, 'c, 'r) rcgen \<Rightarrow> tls_server_lib \<Rightarrow> ('k, 'c) CaService \<Rightarrow> server_config result" where
  "build_tls_config R L ca =
     (case cas_state ca of
        None \<Rightarrow> Err ''CA not initialised''
      | Some state \<Rightarrow>
     (case collect_results (pem_cert_chain L (cert_pem R (ca_cert state))) of
        Err e \<Rightarrow> Err (''Failed to parse CA cert PEM: '' @ e)
      | Ok chain \<Rightarrow>
     (case collect_results (pem_pkcs8_keys L (key_pem R (ca_key_pair state))) of
        Err e \<Rightarrow> Err (''Failed to parse CA private key PEM: '' @ e)
      | Ok [] \<Rightarrow> Err ''No PKCS8 private key found in CA PEM''
      | Ok (key # _) \<Rightarrow>
     (case with_single_cert L chain key of
        Err e \<Rightarrow> Err (''Failed to build TLS server config: '' @ e)
      | Ok _ \<Rightarrow> Ok \<lparr>sc_cert_chain = chain, sc_private_key = key\<rparr>))))"

section \<open>Connections and accept loops\<close>

text \<open>The requests hyper reads from a connection, each with the environment of its handling; for TLS
  also the outcome of the handshake.\<close>

type_synonym 'k http_requests = "('k http_env \<times> request) list"

fun serve_connection ::
  "('k, 'c, 'r) rcgen \<Rightarrow> (string \<Rightarrow> json option) \<Rightarrow> 'k http_requests \<Rightarrow> ('k, 'c) http_state \<Rightarrow>
   response list \<times> ('k, 'c) http_state" where
  "serve_connection R parse [] st = ([], st)"
| "serve_connection R parse ((env, req) # reqs) st =
     (case dispatch R parse env req st of
        (resp, st1) \<Rightarrow> (case serve_connection R parse reqs st1 of (resps, st2) \<Rightarrow> (resp # resps, st2)))"

definition serve_tls_connection ::
  "('k, 'c, 'r) rcgen \<Rightarrow> (string \<Rightarrow> json option) \<Rightarrow> unit result \<times> 'k http_requests \<Rightarrow> ('k, 'c) http_state \<Rightarrow>
   response list \<times> ('k, 'c) http_state" where
  "serve_tls_connection R parse c st =
     (case fst c of Err e \<Rightarrow> ([], st) | Ok _ \<Rightarrow> serve_connection R parse (snd c) st)"

datatype 'x accept_event = Accepted 'x | AcceptError string | AcceptShutdown

text \<open>The connections an accept loop hands over, and the events it leaves unread.\<close>

fun accept_loop :: "'x accept_event list \<Rightarrow> 'x list \<times> 'x accept_event list" where
  "accept_loop [] = ([], [])"
| "accept_loop (Accepted c # es) = apfst ((#) c) (accept_loop es)"
| "accept_loop (AcceptError e # es) = accept_loop es"
| "accept_loop (AcceptShutdown # es) = ([], es)"

text \<open>The connections are served one after another; in the program each has its own task, and the handlers of
  different connections may alternate. The responses are kept per connection.\<close>

fun serve_each :: "('x \<Rightarrow> 's \<Rightarrow> 'r \<times> 's) \<Rightarrow> 'x list \<Rightarrow> 's \<Rightarrow> 'r list \<times> 's" where
  "serve_each serve [] st = ([], st)"
| "serve_each serve (c # cs) st =
     (case serve c st of (r, st1) \<Rightarrow> (case serve_each serve cs st1 of (rs, st2) \<Rightarrow> (r # rs, st2)))"

definition spawn_plain_accept_loop ::
  "('k, 'c, 'r) rcgen \<Rightarrow> (string \<Rightarrow> json option) \<Rightarrow> 'k http_requests accept_event list \<Rightarrow> ('k, 'c) http_state \<Rightarrow>
   response list list \<times> ('k, 'c) http_state" where
  "spawn_plain_accept_loop R parse es st = serve_each (serve_connection R parse) (fst (accept_loop es)) st"

definition spawn_tls_accept_loop ::
  "('k, 'c, 'r) rcgen \<Rightarrow> (string \<Rightarrow> json option) \<Rightarrow> (unit result \<times> 'k http_requests) accept_event list \<Rightarrow>
   ('k, 'c) http_state \<Rightarrow> response list list \<times> ('k, 'c) http_state" where
  "spawn_tls_accept_loop R parse es st = serve_each (serve_tls_connection R parse) (fst (accept_loop es)) st"

section \<open>What requests keep\<close>

text \<open>The device identifiers on record, and the channels waiting for the beacon loop.\<close>

definition known_devices :: "('k, 'c) http_state \<Rightarrow> string set" where
  "known_devices st = dr_device_id ` set (db_device_certs (cas_db (hs_ca st)))"

definition waiting :: "('k, 'c) http_state \<Rightarrow> TopicChannel list" where
  "waiting st = (case hs_topic_queue st of None \<Rightarrow> [] | Some q \<Rightarrow> snd q)"

text \<open>A state that may follow another: the CA and the node's identity are the same, no device is
  forgotten, the device table stays keyed, and the queue has grown, within its capacity, by channels of
  the form the beacon loop expects.\<close>

definition evolves :: "('k, 'c) http_state \<Rightarrow> ('k, 'c) http_state \<Rightarrow> bool" where
  "evolves st st' \<longleftrightarrow>
     cas_state (hs_ca st') = cas_state (hs_ca st) \<and>
     db_ca_keys (cas_db (hs_ca st')) = db_ca_keys (cas_db (hs_ca st)) \<and>
     db_node_identity (cas_db (hs_ca st')) = db_node_identity (cas_db (hs_ca st)) \<and>
     known_devices st \<subseteq> known_devices st' \<and>
     (devices_inv (hs_ca st) \<longrightarrow> devices_inv (hs_ca st')) \<and>
     (\<exists>new. waiting st' = waiting st @ new \<and> list_all channel_ok new) \<and>
     (length (waiting st) \<le> TOPIC_CAPACITY \<longrightarrow> length (waiting st') \<le> TOPIC_CAPACITY)"

text \<open>A reflexive and transitive relation that every step respects is respected by every sequence of
  steps.\<close>

locale evolution =
  fixes rel :: "'s \<Rightarrow> 's \<Rightarrow> bool"
  assumes rel_refl: "rel s s"
    and rel_trans: "rel s t \<Longrightarrow> rel t u \<Longrightarrow> rel s u"
begin

lemma rel_fold:
  assumes "\<And>x s. x \<in> set xs \<Longrightarrow> rel s (f x s)"
  shows "rel s (fold f xs s)"
  using assms
proof (induction xs arbitrary: s)
  case (Cons x xs)
  then have "rel s (f x s)" and "rel (f x s) (fold f xs (f x s))" by auto
  then show ?case using rel_trans by simp
qed (simp add: rel_refl)

end

interpretation ev: evolution "evolves :: ('k, 'c) http_state \<Rightarrow> _"
proof
  show "evolves s s" for s :: "('k, 'c) http_state" by (simp add: evolves_def)
  show "evolves s u" if "evolves s t" "evolves t u" for s t u :: "('k, 'c) http_state"
    using that unfolding evolves_def by (auto intro: list_all_append [THEN iffD2])
qed

lemma evolves_sign:
  assumes "sign_csr R env d csr (hs_ca st) = (r, ca)"
  shows "evolves st (st\<lparr>hs_ca := ca\<rparr>)"
  using assms
  by (cases rule: sign_csr_cases [of R env d csr "hs_ca st"])
    (auto simp: evolves_def known_devices_def waiting_def devices_inv_def upsert_ids upsert_distinct)

lemma evolves_files: "evolves st (st\<lparr>hs_files := fs\<rparr>)"
  by (simp add: evolves_def known_devices_def waiting_def)

lemma evolves_send:
  assumes "channel_ok ch"
  shows "evolves st (st\<lparr>hs_topic_queue := map_option (try_send ch) (hs_topic_queue st)\<rparr>)"
  using assms by (cases "hs_topic_queue st")
    (auto simp: evolves_def known_devices_def waiting_def try_send_def)

lemma handshake_channels_ok: "channel_ok (listen_channel i)" "channel_ok (broadcast_channel i)"
  by (simp_all add: channel_ok_def listen_channel_def broadcast_channel_def)

lemma evolves_send_two:
  "evolves st (st\<lparr>hs_topic_queue := map_option (\<lambda>q. try_send (broadcast_channel i) (try_send (listen_channel i) q)) (hs_topic_queue st)\<rparr>)"
  using ev.rel_trans [OF evolves_send [OF handshake_channels_ok(1), of st i] evolves_send [OF handshake_channels_ok(2), of _ i]]
  by (simp add: option.map_comp comp_def)

lemma evolves_device_init: "evolves st (snd (handle_device_init R parse env req st))"
proof (cases "DeviceInitRequest_process parse req")
  case (Inl r)
  then show ?thesis by (simp add: handle_device_init_def ev.rel_refl)
next
  case (Inr r)
  let ?h = "md_hostname (di_mdns (ir_device r))"
  obtain res ca where s: "sign_csr R (he_ca env) ?h (di_csr_pem (ir_device r)) (hs_ca st) = (res, ca)" by fastforce
  let ?st1 = "st\<lparr>hs_ca := ca\<rparr>"
  have st1: "evolves st ?st1" by (rule evolves_sign [OF s])
  have sent: "evolves st ((?st1\<lparr>hs_files := fs\<rparr>)\<lparr>hs_topic_queue := map_option (\<lambda>q. try_send (broadcast_channel i)
      (try_send (listen_channel i) q)) (hs_topic_queue st)\<rparr>)" for fs i
    using ev.rel_trans [OF ev.rel_trans [OF st1 evolves_files] evolves_send_two [of "?st1\<lparr>hs_files := fs\<rparr>" i]] by simp
  have plain: "evolves st (?st1\<lparr>hs_topic_queue := map_option (\<lambda>q. try_send (broadcast_channel i)
      (try_send (listen_channel i) q)) (hs_topic_queue st)\<rparr>)" for i
    using ev.rel_trans [OF st1 evolves_send_two [of ?st1 i]] by simp
  show ?thesis
    using st1 ev.rel_trans [OF st1 evolves_files] sent plain
    by (auto simp: handle_device_init_def Inr s Let_def split: sum.splits option.splits prod.splits)
qed

lemma evolves_client_register: "evolves st (snd (handle_client_register R parse env req st))"
proof (cases "DeviceRegisterRequest_process parse req")
  case (Inr csr)
  obtain res ca where s: "sign_csr R (he_ca env) (he_uuid env) csr (hs_ca st) = (res, ca)" by fastforce
  with Inr evolves_sign [OF s] show ?thesis
    by (simp add: handle_client_register_def Let_def split: sum.splits)
qed (simp add: handle_client_register_def ev.rel_refl)

lemma evolves_dispatch: "evolves st (snd (dispatch R parse env req st))"
  by (simp add: dispatch_def evolves_device_init evolves_client_register ev.rel_refl split: sum.splits)

lemma serve_connection_snd:
  "snd (serve_connection R parse reqs st) = fold (\<lambda>(env, req) st. snd (dispatch R parse env req st)) reqs st"
  by (induction reqs arbitrary: st) (auto simp: split_beta)

lemma evolves_serve: "evolves st (snd (serve_connection R parse reqs st))"
  unfolding serve_connection_snd by (rule ev.rel_fold) (auto simp: evolves_dispatch)

text \<open>The events before the shutdown, and the requests that come with them: of a plain connection all, of a
  TLS connection those behind a successful handshake.\<close>

definition accepted :: "'x accept_event list \<Rightarrow> 'x list" where
  "accepted es = concat (map (\<lambda>e. case e of Accepted c \<Rightarrow> [c] | _ \<Rightarrow> []) (takeWhile (\<lambda>e. e \<noteq> AcceptShutdown) es))"

lemma accept_loop_served: "fst (accept_loop es) = accepted es"
  unfolding accepted_def by (induction es rule: accept_loop.induct) auto

lemma serve_connection_append:
  "serve_connection R parse (xs @ ys) st =
     (fst (serve_connection R parse xs st) @ fst (serve_connection R parse ys (snd (serve_connection R parse xs st))),
      snd (serve_connection R parse ys (snd (serve_connection R parse xs st))))"
  by (induction xs arbitrary: st) (auto simp: split_beta)

text \<open>Serving connections one after another answers their requests as one sequence.\<close>

lemma serve_each_concat:
  assumes "\<And>c st. c \<in> set cs \<Longrightarrow> serve c st = serve_connection R parse (reqs c) st"
  shows "apfst concat (serve_each serve cs st) = serve_connection R parse (concat (map reqs cs)) st"
  using assms
proof (induction cs arbitrary: st)
  case (Cons c cs)
  have "apfst concat (serve_each serve cs st') = serve_connection R parse (concat (map reqs cs)) st'" for st'
    by (rule Cons.IH) (use Cons.prems in simp)
  from this [of "snd (serve c st)", symmetric] show ?case
    using Cons.prems [of c st] by (simp add: serve_connection_append split_beta prod_eq_iff)
qed simp

definition handshaken :: "unit result \<times> 'k http_requests \<Rightarrow> 'k http_requests" where
  "handshaken c = (if is_ok (fst c) then snd c else [])"

lemma loops_as_one_sequence:
  "apfst concat (spawn_plain_accept_loop R parse es st) = serve_connection R parse (concat (accepted es)) st"
  "apfst concat (spawn_tls_accept_loop R parse tls_es st) =
     serve_connection R parse (concat (map handshaken (accepted tls_es))) st"
proof -
  show "apfst concat (spawn_plain_accept_loop R parse es st) = serve_connection R parse (concat (accepted es)) st"
    unfolding spawn_plain_accept_loop_def accept_loop_served
    using serve_each_concat [of "accepted es" "serve_connection R parse" R parse id] by simp
  have "serve_tls_connection R parse c s = serve_connection R parse (handshaken c) s" for c s
    by (cases "fst c") (simp_all add: serve_tls_connection_def handshaken_def)
  then show "apfst concat (spawn_tls_accept_loop R parse tls_es st) =
     serve_connection R parse (concat (map handshaken (accepted tls_es))) st"
    unfolding spawn_tls_accept_loop_def accept_loop_served by (intro serve_each_concat)
qed

lemma serve_connection_nth:
  assumes "k < length reqs"
  shows "fst (serve_connection R parse reqs st) ! k =
    fst (dispatch R parse (fst (reqs ! k)) (snd (reqs ! k)) (snd (serve_connection R parse (take k reqs) st)))"
  using assms
proof (induction reqs arbitrary: k st)
  case (Cons c reqs)
  then show ?case by (cases c; cases k) (auto simp: split_beta)
qed simp

lemma serve_connection_length: "length (fst (serve_connection R parse reqs st)) = length reqs"
  by (induction reqs arbitrary: st) (auto simp: split_beta)

section \<open>Properties\<close>



end
