(* ===== verification/Peer.thy ===== *)
theory Peer
  imports Gateway_Url
begin

text \<open>
  Messages to a peer node (\<^verbatim>\<open>src/services/peer/peer_service.rs\<close>): one plain-text POST. The URI parser and
  the HTTP client of hyper and the network are the environment. The lemmas say which request is sent
  and when the call succeeds.
\<close>

record uri =
  uri_host :: "string option"
  uri_port :: "u16 option"
  uri_path_and_query :: "string option"

record peer_request =
  pq_uri :: string
  pq_host :: string
  pq_content_type :: string
  pq_body :: string

record peer_env =
  pe_parse :: "string \<Rightarrow> uri result"
  pe_connect :: "string \<Rightarrow> unit result"
  pe_handshake :: "unit result"
  pe_build :: "peer_request \<Rightarrow> unit result"
  pe_response :: "peer_request \<Rightarrow> (nat \<times> string result) result"
  pe_reason :: "nat \<Rightarrow> string"

definition peer_addr :: "uri \<Rightarrow> string \<Rightarrow> string" where
  "peer_addr u host = host @ '':'' @ show_u16 (case uri_port u of Some p \<Rightarrow> p | None \<Rightarrow> 80)"

definition peer_post :: "uri \<Rightarrow> string \<Rightarrow> string \<Rightarrow> peer_request" where
  "peer_post u host message =
     \<lparr>pq_uri = (case uri_path_and_query u of Some pq \<Rightarrow> pq | None \<Rightarrow> ''/peer/message''),
      pq_host = peer_addr u host, pq_content_type = ''text/plain'', pq_body = message\<rparr>"

definition send_message :: "peer_env \<Rightarrow> string \<Rightarrow> string \<Rightarrow> unit result" where
  "send_message env base_url message =
     (case pe_parse env (base_url @ ''/peer/message'') of
        Err e \<Rightarrow> Err (''Invalid peer URL: '' @ e)
      | Ok u \<Rightarrow>
     (case uri_host u of
        None \<Rightarrow> Err ''Peer URL has no host''
      | Some host \<Rightarrow>
     (case pe_connect env (peer_addr u host) of
        Err e \<Rightarrow> Err (''Failed to connect to peer '' @ peer_addr u host @ '': '' @ e)
      | Ok _ \<Rightarrow>
     (case pe_handshake env of
        Err e \<Rightarrow> Err (''HTTP handshake failed: '' @ e)
      | Ok _ \<Rightarrow>
     (case pe_build env (peer_post u host message) of
        Err e \<Rightarrow> Err (''Failed to build request: '' @ e)
      | Ok _ \<Rightarrow>
     (case pe_response env (peer_post u host message) of
        Err e \<Rightarrow> Err (''Failed to send request to peer: '' @ e)
      | Ok (status, body) \<Rightarrow>
     (case body of
        Err e \<Rightarrow> Err (''Failed to read peer response body: '' @ e)
      | Ok text \<Rightarrow>
          if 200 \<le> status \<and> status < 300 then Ok ()
          else Err (''Peer returned '' @ show_nat status @ '' '' @ pe_reason env status @ '' '' @
                    [CHR 0xE2, CHR 0x80, CHR 0x94] @ '' '' @ text))))))))"

lemma send_message_Ok:
  "send_message env base message = Ok () \<longleftrightarrow>
     (\<exists>u host status text. pe_parse env (base @ ''/peer/message'') = Ok u \<and> uri_host u = Some host \<and>
        pe_connect env (peer_addr u host) = Ok () \<and> pe_handshake env = Ok () \<and>
        pe_build env (peer_post u host message) = Ok () \<and>
        pe_response env (peer_post u host message) = Ok (status, Ok text) \<and> 200 \<le> status \<and> status < 300)"
  by (auto simp: send_message_def split: sum.splits option.splits if_splits)

end
