(* ===== verification/Spec2Isabelle.thy ===== *)
theory Spec2Isabelle
  imports App Http_Server Peer
begin

text \<open>
  \<^bold>\<open>Hamlet, the PlaceNet home server.\<close> The program (\<^verbatim>\<open>src/src\<close>, Rust) runs a node that admits beacons and
  devices over HTTP, signs their certificates, runs a Mosquitto broker and an MQTT client beside it,
  broadcasts authenticated announcements to the registered beacons, and keeps connections to cloud
  gateways. \<^verbatim>\<open>main.rs\<close> reads the configuration, runs \<^verbatim>\<open>App::initialize\<close> and spawns two loops: the
  broadcast loop and the beacon message loop, which share the list of broadcast topics.

  \<^bold>\<open>How the parts are modelled.\<close> Stateful code is state passing over records that have the fields of the
  structs; every operation is a definition with the branches and error texts of the function it
  models. Failures are values of \<^typ>\<open>'a result\<close> (the error a text) or of a sum with the code's own error
  type. What a call learns from outside (the clock, random bytes, files, processes, the database's
  errors, replies of other tasks) is an argument, usually a record called an environment; a library
  (rcgen, rustls, \<^verbatim>\<open>serde_json\<close>'s reader, HMAC-SHA256) is a record of functions or a function, and what a
  property needs of it is a hypothesis. Asynchronous tasks are machines over the sequence of events
  their \<^verbatim>\<open>select!\<close> sees, so every interleaving is a list; a call that may be dropped at an await counts
  its awaits. 64-bit times are integers with \<^const>\<open>wrap_i64\<close>, ports and lengths are words.

  \<^item> \<open>Hamlet_Prelude\<close>: results, the string, number, hexadecimal and path functions of the standard
    library the source uses, and insertion-ordered maps; lemmas shared by all theories.
  \<^item> \<open>Supervisor\<close> (\<^verbatim>\<open>supervisor.rs\<close>, \<^verbatim>\<open>services/mod.rs\<close>): registration, the start, stop and restart
    handlers, the command loop and the shutdown, for any type of service. The inductive relation
    \<^const>\<open>lifecycle_step\<close> relates a command, the status before it, the reply and the status after it, and every
    command of a run is such a step; the locale \<open>managed_lifecycle\<close> states what
    \<^verbatim>\<open>ManagedService\<close> has to promise for the statuses to be true.
  \<^item> \<open>Managed_Services\<close> (the five implementations of \<^verbatim>\<open>ManagedService\<close>): their start, stop and
    \<^verbatim>\<open>is_running\<close>, their sum type, and the interpretation of \<open>managed_lifecycle\<close> and of \<open>single_use\<close> (services
    whose start takes something that never comes back) on it. A service is active while it holds the handle its
    stop needs, and alive while the task or process exists; the broker process may exit by itself
    between any two commands.
  \<^item> \<open>Key_Management\<close> (\<^verbatim>\<open>beacon_management/key_management.rs\<close>): the key table with rotation as two
    statements, the sweep, and the token; the invariant \<^const>\<open>table_inv\<close>, currency of the key, failures between the two
    statements, retention, and the shape and slot of the token.
  \<^item> \<open>Registry\<close> (\<^verbatim>\<open>beacon_management/registry.rs\<close>): beacon records, known gateways, broadcast list, and the
    timeout sweep with a number of awaits after which it is dropped. One await for the tick and
    three per stale beacon are enough for a whole sweep (two for the request to the MQTT client and
    its reply, one for the lock of the list).
  \<^item> \<open>Beacon_Loop\<close> (\<^verbatim>\<open>App::run_beacon_message_loop\<close>, \<^verbatim>\<open>connect_to_gateway\<close>): the loop over handshakes, sweeps
    and messages with the connections it opens; invariants over all runs. Gateways are compared by the
    advertised text, as in the code; a lemma shows what two spellings of one gateway lead to.
  \<^item> \<open>Broadcast\<close> (\<^verbatim>\<open>BroadcastState::run_broadcast_loop\<close>): a cycle, its pauses, and the loop, proved against
    the interface \<open>key_store\<close>, which the key manager's operations interpret.
  \<^item> \<open>Config\<close> (\<^verbatim>\<open>config.rs\<close>): every \<^verbatim>\<open>from_env\<close> with the standard library's parsers for integers and IP
    addresses, and the text of the Mosquitto configuration.
  \<^item> \<open>Mqtt_Client\<close> (\<^verbatim>\<open>services/mqtt_client\<close>): connection options, the handle, the event loop and
    command tasks.
  \<^item> \<open>Gateway_Url\<close>, \<open>Gateway_Messages\<close> (\<^verbatim>\<open>login.rs\<close>, \<^verbatim>\<open>cloud_gateway_service.rs\<close>, \<^verbatim>\<open>requests.rs\<close>, \<^verbatim>\<open>messages.rs\<close>,
    \<^verbatim>\<open>protocol.rs\<close>): URLs and the JSON values of the wire types, read as serde's derived readers do (objects
    without duplicate fields, or arrays in the order of the fields).
  \<^item> \<open>Gateway_Connections\<close> (\<^verbatim>\<open>gateway_mqtt/tasks.rs\<close>, \<^verbatim>\<open>gateway_mqtt/login.rs\<close>, the connection task of
    \<^verbatim>\<open>cloud_gateway_service.rs\<close>): the login and the two reconnecting links. The answers of the MQTT library
    to a request are part of the events.
  \<^item> \<open>Ca\<close> (\<^verbatim>\<open>infra/ca\<close>): the certificate authority and its database, and what any sequence of
    operations, failures and restarts keeps of them.
  \<^item> \<open>Http\<close> (\<^verbatim>\<open>beacon_management/internals\<close>): request processing, the handlers, forwarding, and
    \<^verbatim>\<open>register_cert_identity\<close> of the broker handle.
  \<^item> \<open>Http_Server\<close> (\<^verbatim>\<open>tls.rs\<close>, \<^verbatim>\<open>tasks.rs\<close> of \<^verbatim>\<open>beacon_management\<close>): the TLS configuration, the accept loops and the
    service of a connection; which requests are answered and how, and what any sequence of requests
    keeps, by the locale \<open>evolution\<close>.
  \<^item> \<open>Peer\<close> (\<^verbatim>\<open>peer_service.rs\<close>): the message to a peer node.
  \<^item> \<open>App\<close> (\<^verbatim>\<open>App::initialize\<close>, \<^verbatim>\<open>capabilities.rs\<close>, the \<^verbatim>\<open>manager.rs\<close> files, the broker's files): startup with its
    exits and its wait for the broker.

  \<^bold>\<open>What the properties show.\<close> The claims C1 to C40 stand beside the definitions they are about. For
  each component they say what an operation does on every branch, which invariant every sequence of
  operations keeps, and how the components fit together: C1 joins the beacon loop, the registry and
  the key manager, C2 the HTTP handshake, the beacon loop and the broadcast, C4 the supervisor and the services, C9 and C21 the whole startup, C10 the handshake
  and the registry. Several properties pin down behaviour that differs from what the code means to do
  (a dropped sweep, an unassociated gateway, services that cannot be restarted, retention counted from
  creation, a host name used as a path, a revoked device readmitted, reconnection without a pause,
  TLS defaults that disagree, a startup that waits for the broker forever, a broker shown as running after
  its process has exited, two connections to a gateway advertised in two spellings).

  \<^bold>\<open>Bounds.\<close> No definition uses fuel: recursions are structural or over event lists, so every statement
  about a run is about all finite runs. Queue capacities (64 entries) are those of the code.

  \<^bold>\<open>Not modelled.\<close> Log output; the inside of hyper, rustls, rumqttc (in particular its own request queue), rcgen
  and SQLite; a task that waits for room in a channel (its run then has no further event); the interleaving of
  two request handlers (a handler runs as one step; each of its effects is one statement or one send);
  the sleep after the broker's start; the CA, broker handle and queue inside the gateway service (they are
  the state of \<open>Http\<close>, and the outcome of building the TLS configuration is an argument of its start);
  \<^verbatim>\<open>main.rs\<close>; the empty rendering module; the tests.

  \<^bold>\<open>Plan.\<close> Next are the gateway service with its CA and queue inside the supervisor, the interleaving of
  handlers, and a run of the whole node on one state.
\<close>

section \<open>Properties across components\<close>

text \<open>A node whose beacon ran the demonstration events, with a key manager and an authenticator.\<close>

definition demo_hmac :: "bytes \<Rightarrow> bytes \<Rightarrow> bytes" where
  "demo_hmac k m = take 32 (k @ m @ replicate 32 0)"

definition demo_cycle :: cycle_env where
  "demo_cycle = \<lparr>cy_key = demo_env 5000 9, cy_sweep_clock = 5000, cy_sweep_err = None, cy_token_clock = 5000\<rparr>"

text \<open>Claim C1. As long as no sweep of the beacon loop is dropped half way, a broadcast cycle reaches exactly
  the registered beacons: it either publishes nothing because no key could be had, or publishes, to
  the topic of every registered beacon and to no other, one and the same payload with this node's URL,
  the eight-digit identifier of the current key and an eight-digit token. The key table stays well
  formed in both cases.\<close>

theorem broadcast_reaches_registered_beacons:
  assumes "orderly J server_url events \<lparr>reg = registry_new own [], conns = []\<rparr>"
    and "st = run_beacon_message_loop J server_url own [] events"
    and "table_inv t" and "key_env_ok (cy_key env)" and "\<And>k m. length (hmac k m) = 32"
    and "broadcast_cycle hmac mgr server_url env (broadcast_topics (reg st)) t = (pubs, t')"
  shows "table_inv t' \<and>
    (pubs = [] \<and> (\<exists>e. fst (get_or_rotate_key mgr (cy_key env) t) = Err e) \<or>
     (\<exists>key kid tok. fst (get_or_rotate_key mgr (cy_key env) t) = Ok key \<and> length kid = 8 \<and> length tok = 8 \<and>
        hex_decode kid = Some (key_id key) \<and>
        pb_topic ` set pubs = {i @ ''/cast'' | i. \<exists>r. hm_get (records (reg st)) i = Some r \<and> broadcast_topic r = i @ ''/cast''} \<and>
        (\<forall>p\<in>set pubs. pb_payload p = broadcast_payload server_url (kid, tok) \<and> pb_qos p = AtLeastOnce)))"
proof -
  note topics = broadcast_list_exact [OF assms(1), folded assms(2)]
  have "table_inv t'" using broadcast_cycle_inv [OF assms(3,4), of hmac mgr server_url] assms(6) by (metis snd_conv)
  with broadcast_cycle_publishes [OF assms(3-6)] show ?thesis
    unfolding topics [symmetric] by (elim disjE exE conjE) (auto simp: image_image)
qed

theorem broadcast_reaches_registered_beacons_witness:
  "let st = run_beacon_message_loop demo_json ''http://h'' None [] demo_events;
       (pubs, t') = broadcast_cycle demo_hmac demo_mgr ''http://h'' demo_cycle (broadcast_topics (reg st)) demo_table
   in table_inv t' \<and> pb_topic ` set pubs =
        {i @ ''/cast'' | i. \<exists>r. hm_get (records (reg st)) i = Some r \<and> broadcast_topic r = i @ ''/cast''}"
proof -
  let ?st = "run_beacon_message_loop demo_json ''http://h'' None [] demo_events"
  have o: "orderly demo_json ''http://h'' demo_events \<lparr>reg = registry_new None [], conns = []\<rparr>"
    by (simp add: demo_loop_defs channel_ok_def)
  have k: "key_env_ok (cy_key demo_cycle)" "length (demo_hmac a b) = 32" for a b
    by (simp_all add: demo_cycle_def demo_env_ok demo_hmac_def)
  obtain pubs t' where c: "broadcast_cycle demo_hmac demo_mgr ''http://h'' demo_cycle (broadcast_topics (reg ?st)) demo_table
      = (pubs, t')" by fastforce
  have "fst (get_or_rotate_key demo_mgr (cy_key demo_cycle) demo_table) \<noteq> Err e" for e
    using demo_rotation by (simp add: demo_cycle_def)
  with broadcast_reaches_registered_beacons [OF o refl demo_table_inv k(1) k(2) c] show ?thesis
    unfolding Let_def c by auto
qed

text \<open>The channels waiting in the queue, delivered to the beacon loop: each with the answer of the MQTT
  client and the instant of its delivery.\<close>

definition deliver :: "(unit result \<times> instant) list \<Rightarrow> TopicChannel list \<Rightarrow> loop_event list" where
  "deliver answers channels = map2 (\<lambda>(sub, now) ch. NewChannel sub now ch) answers channels"

lemma deliver_snoc:
  assumes "length answers = length (channels @ [ch])"
  shows "\<exists>evs sub now. deliver answers (channels @ [ch]) = evs @ [NewChannel sub now ch]"
proof -
  from assms obtain as sub now where "answers = as @ [(sub, now)]" "length as = length channels"
    by (cases answers rule: rev_cases) auto
  then show ?thesis by (auto simp: deliver_def)
qed

lemma broadcast_cycle_topics:
  assumes "broadcast_cycle hmac mgr server_url env topics t = (pubs, t')" and "fst (get_or_rotate_key mgr (cy_key env) t) = Ok key"
  shows "pb_topic ` set pubs = set topics"
  using assms by (auto simp: broadcast_cycle_def Let_def image_image split: prod.splits sum.splits)

text \<open>Claim C2. From the handshake to the broadcast: a device whose handshake goes through while the queue to the
  beacon loop has room is answered 200, and once the loop has received what is queued, every broadcast
  cycle that has a key publishes to the beacon's own topic, for as long as the beacon is registered,
  is not announced anew and no sweep is dropped half way, whatever else happens before and after.\<close>

theorem handshake_to_broadcast:
  assumes "DeviceInitRequest_process parse req = Ok r" and "rq_headers req HEADER_HEALTH = None"
    and "sign_csr R (he_ca henv) (md_hostname (di_mdns (ir_device r))) (di_csr_pem (ir_device r)) (hs_ca hst) = (Ok cert, ca)"
    and "identity_written henv hst"
    and "hs_topic_queue hst = Some (True, q)" and "length q + 2 \<le> TOPIC_CAPACITY"
    and "dispatch R parse henv req hst = (resp, hst')"
    and "length answers = length (waiting hst')"
    and "events = earlier @ deliver answers (waiting hst') @ later"
    and "orderly J server_url events \<lparr>reg = registry_new own [], conns = []\<rparr>"
    and "\<forall>sub now ch. NewChannel sub now ch \<in> set later \<longrightarrow> tc_beacon_id ch \<noteq> he_uuid henv"
    and "st = run_beacon_message_loop J server_url own [] events"
    and "hm_get (records (reg st)) (he_uuid henv) = Some rec"
    and "broadcast_cycle hmac mgr server_url env (broadcast_topics (reg st)) t = (pubs, t')"
    and "fst (get_or_rotate_key mgr (cy_key env) t) = Ok key"
  shows "rs_status resp = 200 \<and> he_uuid henv @ ''/cast'' \<in> pb_topic ` set pubs"
proof -
  let ?i = "he_uuid henv" and ?init = "\<lparr>reg = registry_new own [], conns = []\<rparr>"
  have "rq_headers req HEADER_INIT \<noteq> None" using process_accepts(1) [OF assms(1)] by simp
  with assms(2,7) have "handle_device_init R parse henv req hst = (resp, hst')" by (simp add: dispatch_def)
  with handshake_ok [OF assms(1,3,4)] assms(5,6) have resp: "rs_status resp = 200"
    and w: "waiting hst' = (q @ [listen_channel ?i]) @ [broadcast_channel ?i]"
    by (auto simp: json_response_def waiting_def try_send_def)
  from deliver_snoc [of answers "q @ [listen_channel ?i]" "broadcast_channel ?i"] assms(8) w obtain evs sub now
    where d: "deliver answers (waiting hst') = evs @ [NewChannel sub now (broadcast_channel ?i)]" by auto
  define mid where "mid = run_beacon_message_loop J server_url own [] (earlier @ deliver answers (waiting hst'))"
  have o: "orderly J server_url (earlier @ deliver answers (waiting hst')) ?init" "orderly J server_url later mid"
    using assms(10) unfolding assms(9) append_assoc [symmetric] orderly_append mid_def run_beacon_message_loop_def by auto
  have st: "st = fold (loop_step J server_url) later mid"
    by (simp add: assms(9,12) mid_def run_beacon_message_loop_def)
  have "cast_view (reg mid) ?i = Some (?i @ ''/cast'')"
    by (simp add: mid_def d run_beacon_message_loop_def cast_view_register(1) handshake_channels_ok)
      (simp add: broadcast_channel_def)
  moreover have "cast_view (reg st) ?i \<in> {None, cast_view (reg mid) ?i}"
    unfolding st by (rule cast_view_fold [OF cast_inv_run [OF o(1), folded mid_def] o(2) assms(11)])
  ultimately have "broadcast_topic rec = ?i @ ''/cast''" using assms(13) by (auto simp: cast_view_def)
  with assms(13) have "?i @ ''/cast'' \<in> set (broadcast_topics (reg st))"
    unfolding assms(12) broadcast_list_exact [OF assms(10)] by blast
  with resp show ?thesis unfolding broadcast_cycle_topics [OF assms(14,15)] by blast
qed

theorem handshake_to_broadcast_witness:
  "\<exists>resp hst' pubs t'. dispatch demo_rcgen (demo_parse ''b'') demo_http_env demo_request demo_http = (resp, hst') \<and>
     rs_status resp = 200 \<and>
     broadcast_cycle demo_hmac demo_mgr ''http://h'' demo_cycle (broadcast_topics (reg
       (run_beacon_message_loop demo_json ''http://h'' None [] (deliver [(Ok (), 1), (Ok (), 2)] (waiting hst'))))) demo_table
       = (pubs, t') \<and> ''u1/cast'' \<in> pb_topic ` set pubs"
proof -
  obtain ca where ca: "sign_csr demo_rcgen (he_ca demo_http_env) ''b'' ''csr'' (hs_ca demo_http) = (Ok ''csr signed'', ca)"
    using demo_sign by blast
  have w: "identity_written demo_http_env demo_http" "hs_topic_queue demo_http = Some (True, [])" "he_uuid demo_http_env = ''u1''"
    by (simp_all add: identity_written_def demo_http_env_def demo_http_def demo_parent)
  have h: "rq_headers demo_request HEADER_HEALTH = None" "rq_headers demo_request HEADER_INIT \<noteq> None"
    by (simp_all add: demo_request_def HEADER_HEALTH_def HEADER_INIT_def)
  obtain resp hst' where disp: "dispatch demo_rcgen (demo_parse ''b'') demo_http_env demo_request demo_http = (resp, hst')"
    by fastforce
  have init: "handle_device_init demo_rcgen (demo_parse ''b'') demo_http_env demo_request demo_http = (resp, hst')"
    using disp h by (simp add: dispatch_def)
  have wt: "waiting hst' = [listen_channel ''u1'', broadcast_channel ''u1'']"
    using init handshake_ok [OF demo_process [of "''b''"] _ w(1), of demo_rcgen] ca w
    by (auto simp: waiting_def try_send_def TOPIC_CAPACITY_def)
  let ?evs = "[] @ deliver [(Ok (), 1), (Ok (), 2)] (waiting hst') @ []"
  have ev: "?evs = [NewChannel (Ok ()) 1 (listen_channel ''u1''), NewChannel (Ok ()) 2 (broadcast_channel ''u1'')]"
    by (simp add: wt deliver_def)
  let ?st = "run_beacon_message_loop demo_json ''http://h'' None [] ?evs"
  have o: "orderly demo_json ''http://h'' ?evs \<lparr>reg = registry_new None [], conns = []\<rparr>"
    unfolding ev by (simp add: handshake_channels_ok)
  have "cast_view (reg ?st) ''u1'' \<noteq> None"
    unfolding ev by (simp add: run_beacon_message_loop_def cast_view_register(1) handshake_channels_ok)
      (simp add: broadcast_channel_def)
  then obtain rec where rec: "hm_get (records (reg ?st)) (he_uuid demo_http_env) = Some rec"
    using w(3) by (auto simp: cast_view_def)
  obtain pubs t' where c: "broadcast_cycle demo_hmac demo_mgr ''http://h'' demo_cycle (broadcast_topics (reg ?st)) demo_table
      = (pubs, t')" by fastforce
  obtain key where k: "fst (get_or_rotate_key demo_mgr (cy_key demo_cycle) demo_table) = Ok key"
    using demo_rotation by (simp add: demo_cycle_def)
  have l: "length [(Ok (), 1 :: instant), (Ok (), 2)] = length (waiting hst')" by (simp add: wt)
  have "rs_status resp = 200 \<and> he_uuid demo_http_env @ ''/cast'' \<in> pb_topic ` set pubs"
    by (rule handshake_to_broadcast [OF demo_process [of "''b''"] h(1) _ w(1,2) _ disp l refl o _ refl rec c k, of "''csr signed''" ca])
      (simp_all add: ca TOPIC_CAPACITY_def)
  then show ?thesis using disp c w(3) by auto
qed

end
